(* ===== verification/Prelude.thy ===== *)
theory Prelude
  imports Main "HOL-Library.AList" "HOL-Library.Char_ord" "HOL-Library.List_Lexorder"
    "HOL-Library.Multiset"
begin

text \<open>
  Shared vocabulary of the development.

  \<^item> \<open>exec\<close>: what running a piece of Go code can end in. \<open>Done r s\<close>: it returned \<open>r\<close> in
    state \<open>s\<close>. \<open>Stop c s\<close>: the goroutine got stuck in state \<open>s\<close>; \<open>c\<close> says whether it
    blocks on a full channel, panicked, or spins in a loop for ever.
  \<^item> Go maps are association lists with distinct keys, read by \<^const>\<open>map_of\<close>, written by
    \<^const>\<open>AList.update\<close> and \<^const>\<open>AList.delete\<close>. The order of the list is the order in which
    a \<open>range\<close> loop visits the map; Go leaves that order open, so theorems are stated for
    lists in any order. The locale \<open>go_map\<close> is the interface the components rely on.
  \<^item> Decimal printing of integers (\<open>strconv.Itoa\<close>, \<open>%d\<close>) and lexicographic order on
    byte strings (Go's \<open><\<close> on strings, from \<open>List_Lexorder\<close>).
\<close>

named_theorems go_simps "defining equations used when a handler is executed"

section \<open>Outcomes of Go code\<close>

datatype stop = Blocked | Panicked | Diverged

datatype ('a, 's) exec = Done 'a 's | Stop stop 's

primrec andthen :: "('a, 's) exec \<Rightarrow> ('a \<Rightarrow> 's \<Rightarrow> ('b, 's) exec) \<Rightarrow> ('b, 's) exec" where
  "andthen (Done a s) k = k a s"
| "andthen (Stop c s) k = Stop c s"

primrec final :: "('a, 's) exec \<Rightarrow> 's" where
  "final (Done a s) = s"
| "final (Stop c s) = s"

primrec returns :: "('a, 's) exec \<Rightarrow> bool" where
  "returns (Done a s) = True"
| "returns (Stop c s) = False"

lemma returns_iff: "returns m \<longleftrightarrow> (\<exists>a s. m = Done a s)"
  by (cases m) auto

lemma final_andthen_inv:
  assumes "P (final m)" and "\<And>a s. m = Done a s \<Longrightarrow> P s \<Longrightarrow> P (final (k a s))"
  shows "P (final (andthen m k))"
  using assms by (cases m) auto

lemma returns_andthen:
  assumes "returns m" and "\<And>a s. m = Done a s \<Longrightarrow> returns (k a s)"
  shows "returns (andthen m k)"
  using assms by (cases m) auto

lemma andthen_assoc: "andthen (andthen m f) g = andthen m (\<lambda>a s. andthen (f a s) g)"
  by (cases m) auto

text \<open>\<open>for _, x := range xs { body }\<close>\<close>

primrec foreach :: "'a list \<Rightarrow> ('a \<Rightarrow> 's \<Rightarrow> (unit, 's) exec) \<Rightarrow> 's \<Rightarrow> (unit, 's) exec" where
  "foreach [] body s = Done () s"
| "foreach (x # xs) body s = andthen (body x s) (\<lambda>_ s'. foreach xs body s')"

lemma final_foreach_inv:
  assumes "P s" and "\<And>x s. x \<in> set xs \<Longrightarrow> P s \<Longrightarrow> P (final (body x s))"
  shows "P (final (foreach xs body s))"
  using assms
proof (induction xs arbitrary: s)
  case (Cons x xs)
  have P: "P (final (body x s))" using Cons.prems by simp
  show ?case
  proof (cases "body x s")
    case (Done u s')
    have "P (final (foreach xs body s'))"
      by (rule Cons.IH) (use P Done Cons.prems(2) in auto)
    with Done show ?thesis by simp
  next
    case (Stop c s')
    with P show ?thesis by simp
  qed
qed simp

lemma returns_foreach:
  assumes "P s" and "\<And>x s. x \<in> set xs \<Longrightarrow> P s \<Longrightarrow> returns (body x s) \<and> P (final (body x s))"
  shows "returns (foreach xs body s)"
  using assms
proof (induction xs arbitrary: s)
  case (Cons x xs)
  have P: "returns (body x s) \<and> P (final (body x s))" using Cons.prems by simp
  then obtain u s' where Done: "body x s = Done u s'" by (auto simp: returns_iff)
  have "returns (foreach xs body s')"
    by (rule Cons.IH) (use P Done Cons.prems(2) in auto)
  with Done show ?case by simp
qed simp

section \<open>Go maps\<close>

locale go_map =
  fixes get :: "'m \<Rightarrow> 'k \<Rightarrow> 'v option"
    and put :: "'k \<Rightarrow> 'v \<Rightarrow> 'm \<Rightarrow> 'm"
    and del :: "'k \<Rightarrow> 'm \<Rightarrow> 'm"
    and keys :: "'m \<Rightarrow> 'k list"
    and ok :: "'m \<Rightarrow> bool"
  assumes get_put: "get (put k v m) = (get m)(k \<mapsto> v)"
    and get_del: "ok m \<Longrightarrow> get (del k m) = (get m)(k := None)"
    and set_keys: "set (keys m) = dom (get m)"
    and distinct_keys: "ok m \<Longrightarrow> distinct (keys m)"
    and ok_put: "ok m \<Longrightarrow> ok (put k v m)"
    and ok_del: "ok m \<Longrightarrow> ok (del k m)"
begin

lemma length_keys: "ok m \<Longrightarrow> length (keys m) = card (dom (get m))"
  by (metis distinct_card distinct_keys set_keys)

lemma finite_dom: "finite (dom (get m))"
  by (metis List.finite_set set_keys)

lemma length_put_new:
  assumes "ok m" and "get m k = None"
  shows "length (keys (put k v m)) = Suc (length (keys m))"
proof -
  have "card (insert k (dom (get m))) = Suc (card (dom (get m)))"
    using assms(2) finite_dom by (intro card_insert_disjoint) auto
  then show ?thesis using assms by (simp add: length_keys ok_put get_put)
qed

lemma length_put_old:
  "ok m \<Longrightarrow> get m k \<noteq> None \<Longrightarrow> length (keys (put k v m)) = length (keys m)"
  by (simp add: length_keys ok_put get_put insert_absorb domIff)

lemma length_del_le: "ok m \<Longrightarrow> length (keys (del k m)) \<le> length (keys m)"
  by (simp add: length_keys ok_del get_del card_mono finite_dom card_Diff1_le)

lemma keys_Nil_iff: "keys m = [] \<longleftrightarrow> get m = Map.empty"
  by (metis dom_eq_empty_conv set_empty set_keys)

lemma get_del_same: "ok m \<Longrightarrow> get (del k m) k = None"
  by (simp add: get_del)

lemma get_put_same: "get (put k v m) k = Some v"
  by (simp add: get_put)

end

definition mkeys :: "('k \<times> 'v) list \<Rightarrow> 'k list" where
  "mkeys m = List.map fst m"

definition map_ok :: "('k \<times> 'v) list \<Rightarrow> bool" where
  "map_ok m \<longleftrightarrow> distinct (List.map fst m)"

interpretation am: go_map map_of AList.update AList.delete mkeys map_ok
proof unfold_locales
  show "map_of (AList.update k v m) = (map_of m)(k \<mapsto> v)" for k :: 'a and v :: 'b and m
    by (simp add: update_conv')
  show "map_of (AList.delete k m) = (map_of m)(k := None)" for k :: 'a and m :: "('a \<times> 'b) list"
    by (simp add: delete_conv')
  show "set (mkeys m) = dom (map_of m)" for m :: "('a \<times> 'b) list"
    by (simp add: mkeys_def dom_map_of_conv_image_fst)
  show "distinct (mkeys m)" if "map_ok m" for m :: "('a \<times> 'b) list"
    using that by (simp add: mkeys_def map_ok_def)
  show "map_ok (AList.update k v m)" if "map_ok m" for k :: 'a and v :: 'b and m
    using that by (simp add: map_ok_def distinct_update)
  show "map_ok (AList.delete k m)" if "map_ok m" for k :: 'a and m :: "('a \<times> 'b) list"
    using that by (simp add: map_ok_def distinct_delete)
qed

lemma length_mkeys [simp]: "length (mkeys m) = length m"
  by (simp add: mkeys_def)

lemma map_ok_Nil [simp, intro]: "map_ok []"
  by (simp add: map_ok_def)

lemma map_ok_single [simp, intro]: "map_ok [p]"
  by (simp add: map_ok_def)

lemmas map_ok_intros [simp, intro] = am.ok_put am.ok_del
lemmas map_get_simps [simp] = am.get_put am.get_del

lemmas length_map_simps = am.length_put_new [unfolded length_mkeys]
  am.length_put_old [unfolded length_mkeys] am.length_del_le [unfolded length_mkeys]

lemma map_of_None_Nil: "map_of m = Map.empty \<longleftrightarrow> m = []"
  using am.keys_Nil_iff [of m] by (simp add: mkeys_def)

lemma map_of_in_set: "map_ok m \<Longrightarrow> map_of m k = Some v \<longleftrightarrow> (k, v) \<in> set m"
  by (simp add: map_ok_def)

lemma map_of_perm: "map_ok m \<Longrightarrow> mset m = mset m' \<Longrightarrow> map_of m = map_of m'"
  by (metis map_ok_def map_of_inject_set mset_eq_setD mset_map mset_eq_imp_distinct_iff)

section \<open>Decimal numbers\<close>

fun digits :: "nat \<Rightarrow> string" where
  "digits n = (if n < 10 then [char_of (48 + n)]
     else digits (n div 10) @ [char_of (48 + n mod 10)])"

declare digits.simps [simp del]

definition Itoa :: "int \<Rightarrow> string" where
  "Itoa i = (if i < 0 then CHR ''-'' # digits (nat (- i)) else digits (nat i))"

definition undigits :: "string \<Rightarrow> nat" where
  "undigits s = foldl (\<lambda>a c. 10 * a + (of_char c - 48)) 0 s"

lemma undigits_digits: "undigits (digits n) = n"
proof (induction n rule: digits.induct)
  case (1 n)
  show ?case
  proof (cases "n < 10")
    case True
    then show ?thesis by (subst digits.simps) (simp add: undigits_def)
  next
    case False
    with 1 have "undigits (digits (n div 10)) = n div 10" by simp
    moreover have "48 + n mod 10 < 256" by (simp add: less_le_trans [of _ 58])
    ultimately show ?thesis
      using False by (subst digits.simps) (simp add: undigits_def)
  qed
qed

lemma digits_inject: "digits m = digits n \<longleftrightarrow> m = n"
  by (metis undigits_digits)

lemma digits_range: "c \<in> set (digits n) \<Longrightarrow> c \<noteq> CHR ''-'' \<and> c \<noteq> CHR ''_'' \<and> c \<noteq> CHR ''.''"
proof (induction n rule: digits.induct)
  case (1 n)
  have dig: "char_of (48 + d) \<noteq> CHR ''-'' \<and> char_of (48 + d) \<noteq> CHR ''_''
      \<and> char_of (48 + d) \<noteq> CHR ''.''" if "d < 10" for d :: nat
  proof -
    from that have "d \<in> {0, 1, 2, 3, 4, 5, 6, 7, 8, 9}" by auto
    then show ?thesis by (auto simp: char_of_def)
  qed
  show ?case
  proof (cases "n < 10")
    case True
    with 1 have "c = char_of (48 + n)" by (simp add: digits.simps [of n])
    with dig [OF True] show ?thesis by simp
  next
    case False
    with 1(2) have "c \<in> set (digits (n div 10)) \<or> c = char_of (48 + n mod 10)"
      by (auto simp: digits.simps [of n])
    with False 1 dig [of "n mod 10"] show ?thesis by auto
  qed
qed

lemma digits_nonempty: "digits n \<noteq> []"
  by (subst digits.simps) simp

lemma Itoa_inject: "Itoa i = Itoa j \<longleftrightarrow> i = j"
proof
  assume eq: "Itoa i = Itoa j"
  have hd: "CHR ''-'' # xs \<noteq> digits n" for xs n
    using digits_range [of "CHR ''-''" n] by (metis list.set_intros(1))
  from eq show "i = j"
    by (auto simp: Itoa_def digits_inject hd hd [symmetric] split: if_splits)
qed simp

lemma Itoa_no_sep: "CHR ''_'' \<notin> set (Itoa i)" and Itoa_no_dot: "CHR ''.'' \<notin> set (Itoa i)"
  using digits_range by (auto simp: Itoa_def)

section \<open>Sorting\<close>

lemma sort_mset_cong: "mset xs = mset ys \<Longrightarrow> sort xs = sort ys" for xs ys :: "'a::linorder list"
  by (metis properties_for_sort sorted_sort mset_sort)

lemma filter_eq_unique:
  assumes "inj_on f (insert k (set xs))"
  shows "filter (\<lambda>x. f k = f x) xs = replicate (count (mset xs) k) k"
  using assms by (induction xs) (auto simp: inj_on_def)

lemma sort_key_perm:
  fixes f :: "'a \<Rightarrow> 'b::linorder"
  assumes inj: "inj_on f (set xs)" and eq: "mset xs = mset ys"
  shows "sort_key f xs = sort_key f ys"
proof (rule properties_for_sort_key)
  show "mset (sort_key f ys) = mset xs" by (simp add: eq)
  show "sorted (List.map f (sort_key f ys))" by simp
  fix k
  assume "k \<in> set (sort_key f ys)"
  then have k: "k \<in> set xs" using eq by (metis mset_eq_setD set_sort)
  have "inj_on f (insert k (set zs))" if "set zs = set xs" for zs
    using inj k that by (simp add: insert_absorb)
  then show "filter (\<lambda>x. f k = f x) (sort_key f ys) = filter (\<lambda>x. f k = f x) xs"
    using eq by (simp add: filter_eq_unique mset_eq_setD [OF eq])
qed

end
