(* ===== verification/Json.thy ===== *)
theory Json
  imports Prelude
begin

text \<open>
  The part of Go's \<open>encoding/json\<close> that the program relies on, at the level of JSON values.

  \<^item> \<open>json\<close> is a JSON text after tokenizing. A number token keeps the integer its literal
    denotes (\<open>None\<close> when the literal has a fraction or an exponent) and the \<open>float64\<close> the
    decoder reads from it, as mantissa and binary exponent.
  \<^item> A decoder takes a JSON value and the old contents of the target and returns the new
    contents with a success flag: \<open>json.Unmarshal\<close> skips values of a wrong type, goes on, and
    reports the error at the end; \<open>null\<close> leaves scalars unchanged and clears slices and maps.
    Struct members match their field names up to ASCII case, later members win.
  \<^item> \<open>raw\<close> is a \<open>json.RawMessage\<close>: empty, some bytes that are not JSON, or a JSON text.
  \<^item> A Go slice or map that can be \<open>nil\<close> is an \<open>option\<close>; \<open>nil\<close> is printed as \<open>null\<close>.
  The tokenizer itself (bytes to \<open>json\<close>) is a parameter of the operations that use it.
\<close>

datatype float64 = F64 int int

datatype num = Num "int option" float64

datatype json = JNull | JBool bool | JNum num | JStr string
  | JArr "json list" | JObj "(string \<times> json) list"

datatype raw = RawEmpty | RawInvalid | Raw json

type_synonym 'a decoder = "json \<Rightarrow> 'a \<Rightarrow> 'a \<times> bool"
type_synonym 'a slice = "'a list option"
type_synonym ('k, 'v) gomap = "('k \<times> 'v) list option"

definition jint :: "int \<Rightarrow> json" where
  "jint i = JNum (Num (Some i) (F64 i 0))"

text \<open>\<open>int(x)\<close> for a \<open>float64\<close>: truncation towards zero; out of the range of \<open>int64\<close> the
  result is the one of amd64, the smallest \<open>int64\<close>.\<close>

definition float_trunc :: "float64 \<Rightarrow> int" where
  "float_trunc x = (case x of F64 m e \<Rightarrow>
     let t = (if 0 \<le> e then m * 2 ^ nat e else sgn m * (\<bar>m\<bar> div 2 ^ nat (- e)))
     in if - (2 ^ 63) \<le> t \<and> t < 2 ^ 63 then t else - (2 ^ 63))"

section \<open>Decoding\<close>

fun dec_string :: "string decoder" where
  "dec_string JNull old = (old, True)"
| "dec_string (JStr s) old = (s, True)"
| "dec_string _ old = (old, False)"

fun dec_bool :: "bool decoder" where
  "dec_bool JNull old = (old, True)"
| "dec_bool (JBool b) old = (b, True)"
| "dec_bool _ old = (old, False)"

fun dec_int :: "int decoder" where
  "dec_int JNull old = (old, True)"
| "dec_int (JNum (Num (Some i) _)) old =
     (if - (2 ^ 63) \<le> i \<and> i < 2 ^ 63 then (i, True) else (old, False))"
| "dec_int _ old = (old, False)"

text \<open>A value of type \<open>interface{}\<close>: objects become maps, so of equal keys the last wins.\<close>

primrec go_any :: "json \<Rightarrow> json" where
  "go_any JNull = JNull"
| "go_any (JBool b) = JBool b"
| "go_any (JNum n) = JNum n"
| "go_any (JStr s) = JStr s"
| "go_any (JArr xs) = JArr (List.map go_any xs)"
| "go_any (JObj kvs) = JObj (foldl (\<lambda>m kv. AList.update (fst kv) (snd kv) m) []
     (List.map (map_prod id go_any) kvs))"

definition dec_any :: "json decoder" where
  "dec_any j old = (go_any j, True)"

definition dec_raw :: "raw decoder" where
  "dec_raw j old = (Raw j, True)"

fun dec_slice :: "'a decoder \<Rightarrow> 'a \<Rightarrow> 'a slice decoder" where
  "dec_slice d z JNull old = (None, True)"
| "dec_slice d z (JArr xs) old =
     (let rs = List.map (\<lambda>x. d x z) xs in (Some (List.map fst rs), list_all snd rs))"
| "dec_slice d z _ old = (old, False)"

fun dec_map :: "'v decoder \<Rightarrow> 'v \<Rightarrow> (string, 'v) gomap decoder" where
  "dec_map d z JNull old = (None, True)"
| "dec_map d z (JObj kvs) old =
     (let rs = List.map (\<lambda>kv. (fst kv, d (snd kv) z)) kvs
      in (Some (foldl (\<lambda>m r. AList.update (fst r) (fst (snd r)) m)
                 (case old of None \<Rightarrow> [] | Some m \<Rightarrow> m) rs),
          list_all (\<lambda>r. snd (snd r)) rs))"
| "dec_map d z _ old = (old, False)"

definition lower :: "char \<Rightarrow> char" where
  "lower c = (if 65 \<le> (of_char c :: nat) \<and> (of_char c :: nat) \<le> 90
     then char_of ((of_char c :: nat) + 32) else c)"

definition field_of :: "(string \<times> 'a decoder) list \<Rightarrow> string \<Rightarrow> 'a decoder option" where
  "field_of fs k = (case map_of fs k of Some d \<Rightarrow> Some d
     | None \<Rightarrow> map_option snd (find (\<lambda>f. List.map lower (fst f) = List.map lower k) fs))"

primrec dec_members :: "(string \<times> 'a decoder) list \<Rightarrow> (string \<times> json) list \<Rightarrow> 'a \<Rightarrow> 'a \<times> bool" where
  "dec_members fs [] a = (a, True)"
| "dec_members fs (kv # kvs) a = (case field_of fs (fst kv) of
      None \<Rightarrow> dec_members fs kvs a
    | Some d \<Rightarrow> (case d (snd kv) a of (a', ok) \<Rightarrow>
        (case dec_members fs kvs a' of (a'', ok') \<Rightarrow> (a'', ok \<and> ok'))))"

fun dec_struct :: "(string \<times> 'a decoder) list \<Rightarrow> 'a decoder" where
  "dec_struct fs JNull old = (old, True)"
| "dec_struct fs (JObj kvs) old = dec_members fs kvs old"
| "dec_struct fs _ old = (old, False)"

text \<open>A field of a struct: a decoder for the field, lifted along its update function.\<close>

definition dec_field :: "('a \<Rightarrow> 'b) \<Rightarrow> ('b \<Rightarrow> 'a \<Rightarrow> 'a) \<Rightarrow> 'b decoder \<Rightarrow> 'a decoder" where
  "dec_field get put d j a = (case d j (get a) of (b, ok) \<Rightarrow> (put b a, ok))"

definition unmarshal_raw :: "'a decoder \<Rightarrow> raw \<Rightarrow> 'a \<Rightarrow> 'a \<times> bool" where
  "unmarshal_raw d r old = (case r of Raw j \<Rightarrow> d j old | _ \<Rightarrow> (old, False))"

definition json_Valid :: "raw \<Rightarrow> bool" where
  "json_Valid r = (case r of Raw j \<Rightarrow> True | _ \<Rightarrow> False)"

section \<open>Encoding\<close>

text \<open>\<open>json.Marshal\<close> prints a map with its keys in ascending order, a struct in field order.\<close>

primrec enc_any :: "json \<Rightarrow> json" where
  "enc_any JNull = JNull"
| "enc_any (JBool b) = JBool b"
| "enc_any (JNum n) = JNum n"
| "enc_any (JStr s) = JStr s"
| "enc_any (JArr xs) = JArr (List.map enc_any xs)"
| "enc_any (JObj kvs) = JObj (sort_key fst (List.map (map_prod id enc_any) kvs))"

definition enc_slice :: "('a \<Rightarrow> json) \<Rightarrow> 'a slice \<Rightarrow> json" where
  "enc_slice e xs = (case xs of None \<Rightarrow> JNull | Some ys \<Rightarrow> JArr (List.map e ys))"

definition enc_map :: "('v \<Rightarrow> json) \<Rightarrow> (string, 'v) gomap \<Rightarrow> json" where
  "enc_map e m = (case m of None \<Rightarrow> JNull
     | Some kvs \<Rightarrow> JObj (sort_key fst (List.map (\<lambda>kv. (fst kv, e (snd kv))) kvs)))"

section \<open>Round trips\<close>

lemma foldl_update_distinct:
  "distinct (List.map fst acc @ List.map g xs) \<Longrightarrow>
   foldl (\<lambda>m r. AList.update (g r) (h r) m) acc xs = acc @ List.map (\<lambda>r. (g r, h r)) xs"
proof (induction xs arbitrary: acc)
  case (Cons x xs)
  then have "g x \<notin> set (List.map fst acc)" by auto
  then have "AList.update (g x) (h x) acc = acc @ [(g x, h x)]"
    by (induction acc) auto
  with Cons show ?case by simp
qed simp

lemma foldl_update_ok:
  "map_ok acc \<Longrightarrow> map_ok (foldl (\<lambda>m r. AList.update (g r) (h r) m) acc xs)"
  by (induction xs arbitrary: acc) auto

lemma map_fst_sort_key: "List.map fst (sort_key fst m) = sort (List.map fst m)"
  for m :: "('k::linorder \<times> 'v) list"
  by (rule properties_for_sort [symmetric]) simp_all

lemma sort_key_map_fst:
  fixes f :: "'k::linorder \<times> 'v \<Rightarrow> 'k \<times> 'w"
  assumes f: "\<And>kv. fst (f kv) = fst kv"
  shows "sort_key fst (List.map f m) = List.map f (sort_key fst m)"
proof (induction m)
  case (Cons a m)
  have "insort_key fst (f a) (List.map f ys) = List.map f (insort_key fst a ys)" for ys
    by (induction ys) (simp_all add: f)
  with Cons show ?case by simp
qed simp

lemmas sort_key_map_snd = sort_key_map_fst [where f = "\<lambda>kv. (fst kv, e (snd kv))" for e, simplified]

lemma dec_slice_enc:
  "(\<And>x. x \<in> set (case s of None \<Rightarrow> [] | Some xs \<Rightarrow> xs) \<Longrightarrow> d (e x) z = (c x, True)) \<Longrightarrow>
   dec_slice d z (enc_slice e s) old = (map_option (List.map c) s, True)"
  by (cases s) (auto simp: enc_slice_def Let_def o_def list_all_iff)

lemma dec_map_enc:
  assumes ok: "\<And>kvs. m = Some kvs \<Longrightarrow> map_ok kvs"
    and elem: "\<And>kvs k v. m = Some kvs \<Longrightarrow> (k, v) \<in> set kvs \<Longrightarrow> d (e v) z = (c v, True)"
  shows "dec_map d z (enc_map e m) None =
    (map_option (\<lambda>kvs. List.map (\<lambda>kv. (fst kv, c (snd kv))) (sort_key fst kvs)) m, True)"
proof (cases m)
  case (Some kvs)
  let ?s = "sort_key fst kvs"
  have dist: "distinct (List.map fst ?s)"
    using ok [OF Some] by (simp add: map_ok_def map_fst_sort_key)
  have el: "d (e (snd kv)) z = (c (snd kv), True)" if "kv \<in> set kvs" for kv
    using elem [OF Some, of "fst kv" "snd kv"] that by simp
  have "foldl (\<lambda>m r. AList.update (fst r) (fst (snd r)) m) []
      (List.map (\<lambda>kv. (fst kv, d (e (snd kv)) z)) ?s)
      = List.map (\<lambda>r. (fst r, fst (snd r))) (List.map (\<lambda>kv. (fst kv, d (e (snd kv)) z)) ?s)"
    using dist by (subst foldl_update_distinct) (simp_all add: o_def)
  also have "\<dots> = List.map (\<lambda>kv. (fst kv, c (snd kv))) ?s"
    using el by simp
  finally show ?thesis
    using Some el by (auto simp: enc_map_def sort_key_map_snd Let_def o_def list_all_iff)
qed (simp add: enc_map_def)

end
