(* ===== verification/Protocol.thy ===== *)
theory Protocol
  imports Json
begin

text \<open>
  \<open>internal/protocol/msg.go\<close>, \<open>internal/model/player_model.go\<close> and the constants of
  \<open>configs/config.go\<close>: response codes, the request and response structs, the pokemon structs of
  a selection request with their JSON decoders, and the reconnect response with its encoding.

  The human-readable texts of the program are Chinese. They are the constructors of \<open>msg\<close>, one
  per text of the source, with the values that \<open>fmt.Sprintf\<close> splices in as arguments; an
  \<open>error\<close> is a Go error value, one constructor per \<open>fmt.Errorf\<close> or \<open>errors.New\<close> of the source,
  \<open>EExternal\<close> for an error of a library or a remote peer.
\<close>

section \<open>Constants of configs/config.go\<close>

definition CppStartPort :: int where "CppStartPort = 50051"
definition CppMaxInstance :: int where "CppMaxInstance = 10"
definition MatchQueueSize :: nat where "MatchQueueSize = 50"
definition MaxPlayersPerRoom :: nat where "MaxPlayersPerRoom = 2"

section \<open>Response codes\<close>

definition CodeSuccess :: int where "CodeSuccess = 0"
definition CodeServerErr :: int where "CodeServerErr = 10001"
definition CodeParamErr :: int where "CodeParamErr = 10002"
definition CodeSendInvalid :: int where "CodeSendInvalid = 20001"
definition CodeSendDuplicate :: int where "CodeSendDuplicate = 20002"
definition CodeDataInvalid :: int where "CodeDataInvalid = 20003"
definition CodeCppRPCError :: int where "CodeCppRPCError = 30001"
definition CodeRoomNotExist :: int where "CodeRoomNotExist = 40001"
definition CodeRoomFull :: int where "CodeRoomFull = 40002"
definition CodeRoomStarted :: int where "CodeRoomStarted = 40003"
definition CodeRoomFinished :: int where "CodeRoomFinished = 40004"
definition CodePlayerNotInRoom :: int where "CodePlayerNotInRoom = 40005"
definition CodePlayerConnectedFailed :: int where "CodePlayerConnectedFailed = 50001"
definition CodePlayerReconnectedFailed :: int where "CodePlayerReconnectedFailed = 50002"

lemmas code_defs = CodeSuccess_def CodeServerErr_def CodeParamErr_def CodeSendInvalid_def
  CodeSendDuplicate_def CodeDataInvalid_def CodeCppRPCError_def CodeRoomNotExist_def
  CodeRoomFull_def CodeRoomStarted_def CodeRoomFinished_def CodePlayerNotInRoom_def
  CodePlayerConnectedFailed_def CodePlayerReconnectedFailed_def

section \<open>Errors and message texts\<close>

datatype engine_error = EPodNotFound int | ENoReplicas | ENotConnected | EReconnectInProgress
  | EReconnectScheduled | ENoNodes | EEngineNil | ENoHealthyNodes

datatype store_error = ERoomIDRequired | EUserIDRequired | ENotFound | ESave | ELoad | EScan
  | EDelete | EUnmarshalSnapshot | EPing

datatype error = EExternal string | EEngine engine_error | EStore store_error
  | EWrap store_error error | ESessionsFew | EPlayerSide | EUnmarshal | EListFailed error

text \<open>Texts of \<open>room/manager.go\<close>, of \<open>StartGame\<close>, of \<open>forwardBattleAction\<close>, of
  \<open>HandleSelectPokemon\<close> and of the router.\<close>

datatype room_msg = RoomCreated | CheckRoomNumber | AlreadyInRoom | RoomStartedOrEnded | RoomFull
  | Joined | PlayerJoined string | RoomNotExist | PlayerLeft string | StoppedByLeave
  | RoomDestroyed | StateRestored | PlayerReconnected string | NotInRoom

datatype start_msg = TooFewPlayers | InitJSONFailed error | AllocFailed error | NoNode error
  | CallFailed error | RespFailed int string | RespAbnormal | GameStarted

datatype battle_msg = NotInThisRoom | NotInBattle | ActionEmpty | ActionNotJSON
  | ActionFailed error | TargetUnavailable | CppCallFailed error | CppMessage string
  | ActionWaiting | OpponentWaiting | ActionDone | BattleUpdate

datatype select_msg = GameAlreadyStarted | PokemonEmpty | ParseFailed | TooManyPokemon
  | AbilityNotNumber | PokemonSelected | PlayerReady string | SelectionSummary

datatype router_msg = ClusterStatus | RedisNotInit | RedisUnreadable | RedisData | RoomListed
  | MatchQueued | LeftRoom | UnknownCmd | BackToLobby

datatype msg = MRoom room_msg | MStart start_msg | MBattle battle_msg | MSelect select_msg
  | MRouter router_msg

section \<open>Requests and responses\<close>

record GameRequest =
  req_Cmd :: string
  req_Data :: raw

definition dec_GameRequest :: "GameRequest decoder" where
  "dec_GameRequest = dec_struct
     [(''cmd'', dec_field req_Cmd (\<lambda>v r. r\<lparr>req_Cmd := v\<rparr>) dec_string),
      (''data'', dec_field req_Data (\<lambda>v r. r\<lparr>req_Data := v\<rparr>) dec_raw)]"

record GameResponse =
  Cmd :: string
  Code :: int
  Msg :: msg
  Data :: json

record Player =
  ID :: string
  Username :: string

text \<open>\<open>model.Player\<close> has no JSON tags, so its members are printed under the Go field names.\<close>

definition enc_Player :: "Player \<Rightarrow> json" where
  "enc_Player p = JObj [(''ID'', JStr (ID p)), (''Username'', JStr (Username p))]"

record ReconnectResponse =
  rr_RoomID :: string
  rr_RoomState :: int
  rr_Players :: "Player list"
  rr_GameData :: json

definition enc_ReconnectResponse :: "ReconnectResponse \<Rightarrow> json" where
  "enc_ReconnectResponse r = JObj
     [(''room_id'', JStr (rr_RoomID r)), (''room_status'', jint (rr_RoomState r)),
      (''players'', JArr (List.map enc_Player (rr_Players r))), (''game_data'', rr_GameData r)]"

section \<open>Pokemon selection\<close>

record PokemonStats =
  HP :: int
  Attack :: int
  Defense :: int
  SpecialAttack :: int
  SpecialDefense :: int
  Speed :: int

definition zero_stats :: PokemonStats where
  "zero_stats = \<lparr>HP = 0, Attack = 0, Defense = 0, SpecialAttack = 0, SpecialDefense = 0, Speed = 0\<rparr>"

definition dec_PokemonStats :: "PokemonStats decoder" where
  "dec_PokemonStats = dec_struct
     [(''hp'', dec_field HP (\<lambda>v r. r\<lparr>HP := v\<rparr>) dec_int),
      (''attack'', dec_field Attack (\<lambda>v r. r\<lparr>Attack := v\<rparr>) dec_int),
      (''defense'', dec_field Defense (\<lambda>v r. r\<lparr>Defense := v\<rparr>) dec_int),
      (''specialAttack'', dec_field SpecialAttack (\<lambda>v r. r\<lparr>SpecialAttack := v\<rparr>) dec_int),
      (''specialDefense'', dec_field SpecialDefense (\<lambda>v r. r\<lparr>SpecialDefense := v\<rparr>) dec_int),
      (''speed'', dec_field Speed (\<lambda>v r. r\<lparr>Speed := v\<rparr>) dec_int)]"

record Pokemon =
  SpeciesID :: int
  Level :: int
  Nature :: int
  Ability :: json
  Item :: int
  IVs :: PokemonStats
  EVs :: PokemonStats
  Moves :: "int slice"

definition zero_Pokemon :: Pokemon where
  "zero_Pokemon = \<lparr>SpeciesID = 0, Level = 0, Nature = 0, Ability = JNull, Item = 0,
     IVs = zero_stats, EVs = zero_stats, Moves = None\<rparr>"

definition dec_Pokemon :: "Pokemon decoder" where
  "dec_Pokemon = dec_struct
     [(''species_id'', dec_field SpeciesID (\<lambda>v r. r\<lparr>SpeciesID := v\<rparr>) dec_int),
      (''level'', dec_field Level (\<lambda>v r. r\<lparr>Level := v\<rparr>) dec_int),
      (''nature'', dec_field Nature (\<lambda>v r. r\<lparr>Nature := v\<rparr>) dec_int),
      (''ability'', dec_field Ability (\<lambda>v r. r\<lparr>Ability := v\<rparr>) dec_any),
      (''item'', dec_field Item (\<lambda>v r. r\<lparr>Item := v\<rparr>) dec_int),
      (''ivs'', dec_field IVs (\<lambda>v r. r\<lparr>IVs := v\<rparr>) dec_PokemonStats),
      (''evs'', dec_field EVs (\<lambda>v r. r\<lparr>EVs := v\<rparr>) dec_PokemonStats),
      (''moves'', dec_field Moves (\<lambda>v r. r\<lparr>Moves := v\<rparr>) (dec_slice dec_int 0))]"

record SelectPokemonRequest =
  req_Pokemon :: "Pokemon slice"

definition dec_SelectPokemonRequest :: "SelectPokemonRequest decoder" where
  "dec_SelectPokemonRequest = dec_struct
     [(''pokemon'', dec_field req_Pokemon (\<lambda>v r. r\<lparr>req_Pokemon := v\<rparr>)
        (dec_slice dec_Pokemon zero_Pokemon))]"

text \<open>A selected pokemon as the room keeps it: a \<open>map[string]interface{}\<close>, its values as JSON.\<close>

type_synonym poke_map = "(string \<times> json) list"

definition enc_poke_map :: "poke_map \<Rightarrow> json" where
  "enc_poke_map m = enc_any (JObj m)"

end
