(* ===== verification/Crc32.thy ===== *)
theory Crc32
  imports Prelude "HOL-Library.Word"
begin

text \<open>
  \<open>crc32.ChecksumIEEE\<close> of Go's standard library, as the program uses it: the reflected
  CRC-32 with polynomial \<open>0xEDB88320\<close>, one bit at a time on 32-bit words.
  \<open>chooseByHash\<close> is the placement rule that the engine (\<open>pickPreferredNodeForRoom\<close>) and the
  room manager (\<open>pickHealthyNodeForRoom\<close>) share: sort the candidates, index the sorted list by
  the hash of the room id modulo its length.
\<close>

unbundle bit_operations_syntax

section \<open>The checksum\<close>

definition crc_bit :: "32 word \<Rightarrow> 32 word" where
  "crc_bit c = (if bit c 0 then drop_bit 1 c XOR 0xEDB88320 else drop_bit 1 c)"

definition crc_byte :: "char \<Rightarrow> 32 word \<Rightarrow> 32 word" where
  "crc_byte b c = (crc_bit ^^ 8) (c XOR of_char b)"

definition ChecksumIEEE :: "string \<Rightarrow> 32 word" where
  "ChecksumIEEE s = NOT (fold crc_byte s 0xFFFFFFFF)"

lemma funpow_8: "(f ^^ 8) x = f (f (f (f (f (f (f (f x)))))))"
  by (simp add: eval_nat_numeral)

lemmas crc_eval = ChecksumIEEE_def crc_byte_def funpow_8 crc_bit_def

lemma checksum_test_vector: "ChecksumIEEE ''123456789'' = 0xCBF43926"
  by (simp add: crc_eval)

text \<open>\<open>int(crc32.ChecksumIEEE(..))\<close> on a 64-bit platform is never negative.\<close>

definition hashInt :: "string \<Rightarrow> int" where
  "hashInt s = uint (ChecksumIEEE s)"

lemma hashInt_bounds: "0 \<le> hashInt s" "hashInt s < 2 ^ 32"
  using uint_lt2p [of "ChecksumIEEE s"] by (simp_all add: hashInt_def)

lemma hashInt_mod_bounds:
  assumes "0 < n" shows "0 \<le> hashInt s mod int n" "nat (hashInt s mod int n) < n"
  using assms by (simp_all add: nat_less_iff)

section \<open>Choosing a candidate by hash\<close>

definition chooseByHash :: "string \<Rightarrow> 'a::linorder list \<Rightarrow> 'a" where
  "chooseByHash key cs = (let s = sort cs in s ! nat (hashInt key mod int (length s)))"

lemma chooseByHash_in: "cs \<noteq> [] \<Longrightarrow> chooseByHash key cs \<in> set cs"
  unfolding chooseByHash_def Let_def
  by (metis hashInt_mod_bounds(2) length_greater_0_conv length_sort nth_mem set_sort)

lemma chooseByHash_perm: "mset cs = mset ds \<Longrightarrow> chooseByHash key cs = chooseByHash key ds"
  by (simp add: chooseByHash_def sort_mset_cong [of cs ds])

end
