(* ===== verification/Rpc.thy ===== *)
theory Rpc
  imports Protocol Crc32
begin

text \<open>
  \<open>internal/rpc/client.go\<close>: the wrappers around the gRPC client and \<open>NodeManager\<close>, the hash
  ring of engine nodes.

  Everything outside the repository that the server talks to is one record \<open>'w ext\<close> of functions
  on an arbitrary state \<open>'w\<close> of the outside world: the gRPC peer behind a connection (a number),
  dialling and closing, Redis, the clock, the random source, and the tokenizer that turns bytes
  into \<open>json\<close>. No law is assumed of them here; a theorem that relies on one states it.
\<close>

record RPCResponse =
  resp_Code :: int
  resp_Message :: string

text \<open>A \<open>float32\<close>: a finite value (mantissa, binary exponent) or one of the special values.\<close>

datatype float32 = F32 int int | F32_NaN | F32_PInf | F32_NInf

fun f32_less :: "float32 \<Rightarrow> int \<Rightarrow> bool" where
  "f32_less (F32 m e) k = (if 0 \<le> e then m * 2 ^ nat e < k else m < k * 2 ^ nat (- e))"
| "f32_less F32_NInf k = True"
| "f32_less F32_PInf k = False"
| "f32_less F32_NaN k = False"

record HeartbeatStatus =
  hb_Code :: int
  hb_ActiveRooms :: int
  hb_CPUUsage :: float32
  hb_MemoryUsed :: int
  hb_MaxCapacity :: int
  hb_ServerID :: string

text \<open>The text of a Redis value: what \<open>json.Marshal\<close> printed for a JSON value, or other bytes.\<close>

datatype rtext = TJson json | TBytes string

type_synonym client = nat

record 'w ext =
  x_parse :: "string \<Rightarrow> json option"
  x_now :: "'w \<Rightarrow> int"
  x_rand :: "'w \<Rightarrow> string option \<times> 'w"
  x_env :: "string \<Rightarrow> string"
  x_dial :: "string \<Rightarrow> 'w \<Rightarrow> (error + client) \<times> 'w"
  x_close :: "client \<Rightarrow> 'w \<Rightarrow> 'w"
  x_CreateRoom :: "client \<Rightarrow> string \<Rightarrow> json \<Rightarrow> 'w \<Rightarrow> (error + RPCResponse) \<times> 'w"
  x_SendCommand :: "client \<Rightarrow> string \<Rightarrow> string \<Rightarrow> json \<Rightarrow> 'w \<Rightarrow> (error + RPCResponse) \<times> 'w"
  x_DestroyRoom :: "client \<Rightarrow> string \<Rightarrow> 'w \<Rightarrow> (error + RPCResponse) \<times> 'w"
  x_GetHeartbeat :: "client \<Rightarrow> 'w \<Rightarrow> (error + HeartbeatStatus) \<times> 'w"
  x_redis_set :: "string \<Rightarrow> rtext \<Rightarrow> int \<Rightarrow> 'w \<Rightarrow> error option \<times> 'w"
  x_redis_get :: "string \<Rightarrow> 'w \<Rightarrow> (error + rtext option) \<times> 'w"
  x_redis_del :: "string \<Rightarrow> 'w \<Rightarrow> error option \<times> 'w"
  x_redis_scan :: "nat \<Rightarrow> string \<Rightarrow> nat \<Rightarrow> 'w \<Rightarrow> (error + string list \<times> nat) \<times> 'w"
  x_redis_ttl :: "string \<Rightarrow> 'w \<Rightarrow> int \<times> 'w"

section \<open>RPC wrappers\<close>

text \<open>
  The wrappers pass the call on and copy the result. Calling a method on a \<open>nil\<close> client
  panics: \<open>None\<close>.
\<close>

definition CallCreateRoom ::
  "'w ext \<Rightarrow> client option \<Rightarrow> string \<Rightarrow> json \<Rightarrow> 'w \<Rightarrow> ((error + RPCResponse) \<times> 'w) option" where
  "CallCreateRoom X c roomID initJSON w = (case c of None \<Rightarrow> None
     | Some cl \<Rightarrow> (case x_CreateRoom X cl roomID initJSON w of
          (Inl e, w') \<Rightarrow> Some (Inl e, w')
        | (Inr resp, w') \<Rightarrow> Some (Inr \<lparr>resp_Code = resp_Code resp, resp_Message = resp_Message resp\<rparr>, w')))"

definition CallSendCommand ::
  "'w ext \<Rightarrow> client option \<Rightarrow> string \<Rightarrow> string \<Rightarrow> json \<Rightarrow> 'w \<Rightarrow> ((error + RPCResponse) \<times> 'w) option" where
  "CallSendCommand X c roomID playerID action w = (case c of None \<Rightarrow> None
     | Some cl \<Rightarrow> (case x_SendCommand X cl roomID playerID action w of
          (Inl e, w') \<Rightarrow> Some (Inl e, w')
        | (Inr resp, w') \<Rightarrow> Some (Inr \<lparr>resp_Code = resp_Code resp, resp_Message = resp_Message resp\<rparr>, w')))"

definition CallDestroyRoom ::
  "'w ext \<Rightarrow> client option \<Rightarrow> string \<Rightarrow> 'w \<Rightarrow> ((error + RPCResponse) \<times> 'w) option" where
  "CallDestroyRoom X c roomID w = (case c of None \<Rightarrow> None
     | Some cl \<Rightarrow> (case x_DestroyRoom X cl roomID w of
          (Inl e, w') \<Rightarrow> Some (Inl e, w')
        | (Inr resp, w') \<Rightarrow> Some (Inr \<lparr>resp_Code = resp_Code resp, resp_Message = resp_Message resp\<rparr>, w')))"

definition CallGetHeartbeat ::
  "'w ext \<Rightarrow> client option \<Rightarrow> 'w \<Rightarrow> ((error + HeartbeatStatus) \<times> 'w) option" where
  "CallGetHeartbeat X c w = (case c of None \<Rightarrow> None
     | Some cl \<Rightarrow> (case x_GetHeartbeat X cl w of
          (Inl e, w') \<Rightarrow> Some (Inl e, w')
        | (Inr r, w') \<Rightarrow> Some (Inr \<lparr>hb_Code = hb_Code r, hb_ActiveRooms = hb_ActiveRooms r,
            hb_CPUUsage = hb_CPUUsage r, hb_MemoryUsed = hb_MemoryUsed r,
            hb_MaxCapacity = hb_MaxCapacity r, hb_ServerID = hb_ServerID r\<rparr>, w')))"

lemma Call_nil [simp]:
  "CallCreateRoom X None i j w = None" "CallSendCommand X None i p j w = None"
  "CallDestroyRoom X None i w = None" "CallGetHeartbeat X None w = None"
  by (simp_all add: CallCreateRoom_def CallSendCommand_def CallDestroyRoom_def CallGetHeartbeat_def)

lemma Call_None [simp]:
  "CallCreateRoom X c i j w = None \<longleftrightarrow> c = None"
  "CallSendCommand X c i p j w = None \<longleftrightarrow> c = None"
  "CallDestroyRoom X c i w = None \<longleftrightarrow> c = None"
  "CallGetHeartbeat X c w = None \<longleftrightarrow> c = None"
  by (auto simp: CallCreateRoom_def CallSendCommand_def CallDestroyRoom_def CallGetHeartbeat_def
      split: option.splits prod.splits sum.splits)

end
