(* ===== verification/RpcRing.thy ===== *)
theory RpcRing
  imports Rpc
begin

text \<open>
  \<open>NodeManager\<close> of \<open>internal/rpc/client.go\<close>: the registered engine nodes and a hash ring with
  100 virtual points per node. The ring is rebuilt from scratch whenever a node is registered
  or removed, in the order in which Go ranges over \<open>Nodes\<close>.
\<close>

section \<open>State and operations\<close>

record CppNode =
  node_ID :: int
  node_Addr :: string
  node_Client :: client

record NodeManager =
  Nodes :: "(int \<times> CppNode) list"
  Ring :: "32 word list"
  RingMap :: "(32 word \<times> int) list"

definition Mgr_init :: NodeManager where
  "Mgr_init = \<lparr>Nodes = [], Ring = [], RingMap = []\<rparr>"

definition virtualPoint :: "int \<Rightarrow> nat \<Rightarrow> 32 word" where
  "virtualPoint nodeID i = ChecksumIEEE (''node_'' @ Itoa nodeID @ ''_'' @ Itoa (int i))"

definition addPoint :: "int \<Rightarrow> nat \<Rightarrow> 32 word list \<times> (32 word \<times> int) list
    \<Rightarrow> 32 word list \<times> (32 word \<times> int) list" where
  "addPoint nodeID i = (\<lambda>(ring, ringMap).
     let h = virtualPoint nodeID i in (ring @ [h], AList.update h nodeID ringMap))"

definition rebuildRingLocked :: "NodeManager \<Rightarrow> NodeManager" where
  "rebuildRingLocked m =
     (let (ring, ringMap) = fold (\<lambda>nodeID. fold (addPoint nodeID) [0..<100]) (mkeys (Nodes m)) ([], [])
      in m\<lparr>Ring := sort ring, RingMap := ringMap\<rparr>)"

definition RegisterNode :: "int \<Rightarrow> string \<Rightarrow> client \<Rightarrow> NodeManager \<Rightarrow> NodeManager" where
  "RegisterNode nid addr cl m =
     rebuildRingLocked (m\<lparr>Nodes := AList.update nid
       \<lparr>node_ID = nid, node_Addr = addr, node_Client = cl\<rparr> (Nodes m)\<rparr>)"

definition RemoveNode :: "int \<Rightarrow> NodeManager \<Rightarrow> NodeManager" where
  "RemoveNode nid m = (case map_of (Nodes m) nid of
      None \<Rightarrow> m
    | Some _ \<Rightarrow> rebuildRingLocked (m\<lparr>Nodes := AList.delete nid (Nodes m)\<rparr>))"

text \<open>\<open>sort.Search(n, f)\<close>: binary search for the least index where \<open>f\<close> holds.\<close>

function sort_Search :: "(nat \<Rightarrow> bool) \<Rightarrow> nat \<Rightarrow> nat \<Rightarrow> nat" where
  "sort_Search f i j = (if i < j
     then (let h = (i + j) div 2 in if \<not> f h then sort_Search f (h + 1) j else sort_Search f i h)
     else i)"
  by pat_completeness auto
termination
  by (relation "measure (\<lambda>(f, i, j). j - i)") auto

declare sort_Search.simps [simp del]

text \<open>A missing key of \<open>RingMap\<close> reads as 0, a missing node as \<open>nil\<close>.\<close>

definition GetNodeByRoomID :: "NodeManager \<Rightarrow> string \<Rightarrow> error + CppNode option" where
  "GetNodeByRoomID m roomID =
     (if Ring m = [] then Inl (EEngine ENoNodes)
      else let h = ChecksumIEEE roomID;
               idx = sort_Search (\<lambda>i. h \<le> Ring m ! i) 0 (length (Ring m));
               idx' = (if idx = length (Ring m) then 0 else idx);
               owner = (case map_of (RingMap m) (Ring m ! idx') of None \<Rightarrow> 0 | Some n \<Rightarrow> n)
           in Inr (map_of (Nodes m) owner))"

definition GetNodeByID :: "NodeManager \<Rightarrow> int \<Rightarrow> CppNode option" where
  "GetNodeByID m nid = map_of (Nodes m) nid"

section \<open>The ring invariant\<close>

definition points :: "int set \<Rightarrow> 32 word set" where
  "points ns = {virtualPoint n i | n i. n \<in> ns \<and> i < 100}"

definition ring_wf :: "NodeManager \<Rightarrow> bool" where
  "ring_wf m \<longleftrightarrow> map_ok (Nodes m) \<and> sorted (Ring m)
     \<and> set (Ring m) = points (dom (map_of (Nodes m)))
     \<and> length (Ring m) = 100 * length (Nodes m)
     \<and> dom (map_of (RingMap m)) = set (Ring m)
     \<and> (\<forall>h n. map_of (RingMap m) h = Some n \<longrightarrow> n \<in> dom (map_of (Nodes m)) \<and> h \<in> points {n})
     \<and> (\<forall>nid nd. map_of (Nodes m) nid = Some nd \<longrightarrow> node_ID nd = nid)"

lemma addPoint_apply [simp]: "addPoint n i (ring, rm) =
    (ring @ [virtualPoint n i], AList.update (virtualPoint n i) n rm)"
  by (simp add: addPoint_def Let_def)

lemma fold_addPoint_aux:
  "fold (addPoint n) js (ring, rm) = (ring', rm') \<Longrightarrow>
   ring' = ring @ List.map (virtualPoint n) js
   \<and> map_of rm' h = (if h \<in> virtualPoint n ` set js then Some n else map_of rm h)"
proof (induction js arbitrary: ring rm)
  case (Cons a js)
  then have "fold (addPoint n) js (ring @ [virtualPoint n a], AList.update (virtualPoint n a) n rm)
      = (ring', rm')" by simp
  from Cons.IH [OF this] show ?case by auto
qed simp

lemmas fold_addPoint = fold_addPoint_aux [THEN conjunct1] fold_addPoint_aux [THEN conjunct2]

lemma points_Un: "points (A \<union> B) = points A \<union> points B"
  by (auto simp: points_def)

lemma points_single: "points {n} = virtualPoint n ` {0..<100}"
  by (auto simp: points_def)

lemma points_mono: "A \<subseteq> B \<Longrightarrow> points A \<subseteq> points B"
  by (auto simp: points_def)

lemma fold_rebuild:
  assumes "fold (\<lambda>n. fold (addPoint n) [0..<100]) ns (ring, rm) = (ring', rm')"
  shows "set ring' = set ring \<union> points (set ns) \<and> length ring' = length ring + 100 * length ns
    \<and> dom (map_of rm') = dom (map_of rm) \<union> points (set ns)
    \<and> (\<forall>h n. map_of rm' h = Some n \<longrightarrow> map_of rm h = Some n \<or> n \<in> set ns \<and> h \<in> points {n})"
  using assms
proof (induction ns arbitrary: ring rm)
  case Nil
  then show ?case by (simp add: points_def)
next
  case (Cons a ns)
  obtain r1 m1 where one: "fold (addPoint a) [0..<100] (ring, rm) = (r1, m1)"
    by (cases "fold (addPoint a) [0..<100] (ring, rm)")
  have r1: "r1 = ring @ List.map (virtualPoint a) [0..<100]"
    and m1: "map_of m1 h = (if h \<in> points {a} then Some a else map_of rm h)" for h
    using fold_addPoint [OF one] by (simp_all add: points_single)
  have d1: "dom (map_of m1) = dom (map_of rm) \<union> points {a}"
    by (auto simp: dom_def m1)
  have pa: "points (set (a # ns)) = points {a} \<union> points (set ns)"
    by (subst points_Un [symmetric]) simp
  from Cons.prems one have "fold (\<lambda>n. fold (addPoint n) [0..<100]) ns (r1, m1) = (ring', rm')"
    by simp
  note IH = Cons.IH [OF this]
  have "set r1 = set ring \<union> points {a}" by (simp add: r1 points_single)
  moreover have "length r1 = length ring + 100" by (simp add: r1)
  moreover have "map_of rm h = Some n \<or> n \<in> set (a # ns) \<and> h \<in> points {n}"
    if "map_of rm' h = Some n" for h n
  proof -
    from IH that have "map_of m1 h = Some n \<or> n \<in> set ns \<and> h \<in> points {n}" by blast
    then show ?thesis by (auto simp: m1 split: if_splits)
  qed
  ultimately show ?case using IH d1 pa by (simp add: Un_assoc)
qed

lemma rebuild_Nodes [simp]: "Nodes (rebuildRingLocked m) = Nodes m"
  by (simp add: rebuildRingLocked_def split: prod.splits)

lemma ring_wf_rebuild:
  assumes "map_ok (Nodes m)" and "\<And>nid nd. map_of (Nodes m) nid = Some nd \<Longrightarrow> node_ID nd = nid"
  shows "ring_wf (rebuildRingLocked m)"
proof -
  obtain ring rm where f: "fold (\<lambda>n. fold (addPoint n) [0..<100]) (mkeys (Nodes m)) ([], []) = (ring, rm)"
    by (cases "fold (\<lambda>n. fold (addPoint n) [0..<100]) (mkeys (Nodes m)) ([], [])")
  have eq: "rebuildRingLocked m = m\<lparr>Ring := sort ring, RingMap := rm\<rparr>"
    by (simp add: rebuildRingLocked_def f)
  show ?thesis
    using fold_rebuild [OF f] assms by (auto simp: ring_wf_def eq am.set_keys)
qed

lemma ring_wf_init: "ring_wf Mgr_init"
  by (simp add: ring_wf_def Mgr_init_def points_def)

lemma ring_wf_ok: "ring_wf m \<Longrightarrow> map_ok (Nodes m)"
  and ring_wf_ID: "ring_wf m \<Longrightarrow> map_of (Nodes m) nid = Some nd \<Longrightarrow> node_ID nd = nid"
  and ring_wf_sorted: "ring_wf m \<Longrightarrow> sorted (Ring m)"
  and ring_wf_set: "ring_wf m \<Longrightarrow> set (Ring m) = points (dom (map_of (Nodes m)))"
  and ring_wf_length: "ring_wf m \<Longrightarrow> length (Ring m) = 100 * length (Nodes m)"
  and ring_wf_dom: "ring_wf m \<Longrightarrow> dom (map_of (RingMap m)) = set (Ring m)"
  and ring_wf_map: "ring_wf m \<Longrightarrow> map_of (RingMap m) h = Some n \<Longrightarrow>
    n \<in> dom (map_of (Nodes m)) \<and> h \<in> points {n}"
  unfolding ring_wf_def by blast+

lemma ring_wf_Register: "ring_wf m \<Longrightarrow> ring_wf (RegisterNode nid addr cl m)"
  unfolding RegisterNode_def
  by (rule ring_wf_rebuild) (auto simp: ring_wf_ok dest: ring_wf_ID split: if_splits)

lemma ring_wf_Remove: "ring_wf m \<Longrightarrow> ring_wf (RemoveNode nid m)"
  unfolding RemoveNode_def
  by (auto simp: ring_wf_ok split: option.split if_splits intro!: ring_wf_rebuild dest: ring_wf_ID)

section \<open>Lookup\<close>

lemma sort_Search_least:
  assumes "i \<le> j" and mono: "\<And>a b. i \<le> a \<Longrightarrow> a \<le> b \<Longrightarrow> b < j \<Longrightarrow> f a \<Longrightarrow> f b"
  shows "i \<le> sort_Search f i j \<and> sort_Search f i j \<le> j
    \<and> (\<forall>k. i \<le> k \<and> k < sort_Search f i j \<longrightarrow> \<not> f k)
    \<and> (sort_Search f i j < j \<longrightarrow> f (sort_Search f i j))"
  using assms
proof (induction f i j rule: sort_Search.induct)
  case (1 f i j)
  show ?case
  proof (cases "i < j")
    case False
    then have "sort_Search f i j = i" by (simp add: sort_Search.simps [of f i j])
    moreover have "i = j" using False 1(3) by simp
    ultimately show ?thesis by auto
  next
    case True
    let ?h = "(i + j) div 2"
    have h: "i \<le> ?h" "?h < j" using True by auto
    show ?thesis
    proof (cases "f ?h")
      case False
      have below: "\<not> f k" if "i \<le> k" "k \<le> ?h" for k
        using 1(4) [of k ?h] that h False by blast
      let ?r = "sort_Search f (?h + 1) j"
      have eq: "sort_Search f i j = ?r"
        using True False by (simp add: sort_Search.simps [of f i j] Let_def)
      have r: "?h + 1 \<le> ?r \<and> ?r \<le> j \<and> (\<forall>k. ?h + 1 \<le> k \<and> k < ?r \<longrightarrow> \<not> f k) \<and> (?r < j \<longrightarrow> f ?r)"
      proof (rule 1(1) [OF True refl False])
        show "?h + 1 \<le> j" using h by simp
        show "f b" if "?h + 1 \<le> a" "a \<le> b" "b < j" "f a" for a b
          using 1(4) [of a b] that h by linarith
      qed
      moreover have "\<not> f k" if "i \<le> k" "k < ?r" for k
        using below [of k] r that by (cases "k \<le> ?h") auto
      ultimately show ?thesis unfolding eq using h by auto
    next
      case fh: True
      let ?r = "sort_Search f i ?h"
      have eq: "sort_Search f i j = ?r"
        using True fh by (simp add: sort_Search.simps [of f i j] Let_def)
      have r: "i \<le> ?r \<and> ?r \<le> ?h \<and> (\<forall>k. i \<le> k \<and> k < ?r \<longrightarrow> \<not> f k) \<and> (?r < ?h \<longrightarrow> f ?r)"
      proof (rule 1(2) [OF True refl])
        show "\<not> \<not> f ?h" using fh by simp
        show "i \<le> ?h" using h by simp
        show "f b" if "i \<le> a" "a \<le> b" "b < ?h" "f a" for a b
          using 1(4) [of a b] that h by linarith
      qed
      then have "f ?r" using fh by (cases "?r < ?h") auto
      then show ?thesis unfolding eq using r h by auto
    qed
  qed
qed

text \<open>The point of a ring that serves a hash: the next point at or after it, else the first.\<close>

definition ring_succ :: "32 word set \<Rightarrow> 32 word \<Rightarrow> 32 word" where
  "ring_succ P h = (if \<exists>p \<in> P. h \<le> p then Min {p \<in> P. h \<le> p} else Min P)"

lemma ring_lookup_point:
  fixes h :: "32 word"
  assumes "sorted ring" and "ring \<noteq> []"
  defines "idx \<equiv> sort_Search (\<lambda>i. h \<le> ring ! i) 0 (length ring)"
  shows "ring ! (if idx = length ring then 0 else idx) = ring_succ (set ring) h"
proof -
  have mono: "h \<le> ring ! b" if "a \<le> b" "b < length ring" "h \<le> ring ! a" for a b
    using sorted_nth_mono [OF assms(1) that(1,2)] that(3) by simp
  have "0 \<le> idx \<and> idx \<le> length ring \<and> (\<forall>k. 0 \<le> k \<and> k < idx \<longrightarrow> \<not> h \<le> ring ! k)
      \<and> (idx < length ring \<longrightarrow> h \<le> ring ! idx)"
    unfolding idx_def by (rule sort_Search_least) (use mono in blast)+
  then have least: "idx \<le> length ring" "\<And>k. k < idx \<Longrightarrow> \<not> h \<le> ring ! k"
    "idx < length ring \<Longrightarrow> h \<le> ring ! idx"
    by blast+
  show ?thesis
  proof (cases "idx = length ring")
    case True
    have "\<not> (\<exists>p \<in> set ring. h \<le> p)" using least(2) True by (auto simp: in_set_conv_nth)
    moreover have "Min (set ring) = ring ! 0"
      using assms(1,2) by (intro Min_eqI) (auto simp: in_set_conv_nth intro: sorted_nth_mono)
    ultimately show ?thesis using True by (simp add: ring_succ_def)
  next
    case False
    then have lt: "idx < length ring" using least(1) by simp
    have ex: "ring ! idx \<in> {p \<in> set ring. h \<le> p}" using lt least(3) by simp
    have "Min {p \<in> set ring. h \<le> p} = ring ! idx"
    proof (rule Min_eqI)
      fix p
      assume "p \<in> {p \<in> set ring. h \<le> p}"
      then obtain k where k: "k < length ring" "p = ring ! k" "h \<le> ring ! k"
        by (auto simp: in_set_conv_nth)
      then have "idx \<le> k" using least(2) by (meson not_le_imp_less)
      then show "ring ! idx \<le> p" using k assms(1) by (simp add: sorted_nth_mono)
    qed (use ex in auto)
    then show ?thesis using False ex by (auto simp: ring_succ_def)
  qed
qed

lemma ring_succ_in: "finite P \<Longrightarrow> P \<noteq> {} \<Longrightarrow> ring_succ P h \<in> P"
proof -
  assume P: "finite P" "P \<noteq> {}"
  have "Min {p \<in> P. h \<le> p} \<in> {p \<in> P. h \<le> p}" if "\<exists>p \<in> P. h \<le> p"
    using that P by (intro Min_in) auto
  then show ?thesis using P by (auto simp: ring_succ_def)
qed

lemma ring_succ_subset:
  assumes "finite P" and "Q \<subseteq> P" and "ring_succ P h \<in> Q"
  shows "ring_succ Q h = ring_succ P h"
proof -
  have fin: "finite Q" using assms(1,2) by (rule rev_finite_subset)
  show ?thesis
  proof (cases "\<exists>p \<in> P. h \<le> p")
    case True
    let ?m = "Min {p \<in> P. h \<le> p}"
    have m: "ring_succ P h = ?m" using True by (simp add: ring_succ_def)
    have "?m \<in> {p \<in> P. h \<le> p}" using True assms(1) by (intro Min_in) auto
    then have mQ: "?m \<in> {p \<in> Q. h \<le> p}" using assms(3) m by simp
    have "Min {p \<in> Q. h \<le> p} = ?m"
      using fin mQ assms(1,2) by (intro Min_eqI) (auto intro: Min_le)
    then show ?thesis using mQ m by (auto simp: ring_succ_def)
  next
    case False
    then have m: "ring_succ P h = Min P" by (simp add: ring_succ_def)
    have "Min Q = Min P"
      using fin assms m by (intro Min_eqI) (auto intro: Min_le)
    then show ?thesis using False assms(2) m by (auto simp: ring_succ_def)
  qed
qed

lemma GetNodeByRoomID_owner:
  assumes wf: "ring_wf m" and ne: "Nodes m \<noteq> []"
  obtains n nd where "map_of (Nodes m) n = Some nd" "GetNodeByRoomID m r = Inr (Some nd)"
    "ring_succ (set (Ring m)) (ChecksumIEEE r) \<in> points {n}" "node_ID nd = n"
proof -
  have "length (Ring m) \<noteq> 0" using ring_wf_length [OF wf] ne by simp
  then have ring: "Ring m \<noteq> []" "sorted (Ring m)" using ring_wf_sorted [OF wf] by auto
  let ?p = "ring_succ (set (Ring m)) (ChecksumIEEE r)"
  have "?p \<in> set (Ring m)" using ring(1) by (intro ring_succ_in) auto
  then have "?p \<in> dom (map_of (RingMap m))" by (simp only: ring_wf_dom [OF wf])
  then obtain n where n: "map_of (RingMap m) ?p = Some n" by blast
  from ring_wf_map [OF wf n] obtain nd where nd: "map_of (Nodes m) n = Some nd"
    and p: "?p \<in> points {n}" by blast
  have "GetNodeByRoomID m r = Inr (Some nd)"
    using ring ring_lookup_point [OF ring(2,1), of "ChecksumIEEE r"] n nd
    by (simp add: GetNodeByRoomID_def Let_def)
  with that nd p ring_wf_ID [OF wf nd] show thesis by blast
qed

section \<open>Minimal disruption\<close>

definition no_collision :: "int set \<Rightarrow> bool" where
  "no_collision ns \<longleftrightarrow> (\<forall>n \<in> ns. \<forall>k \<in> ns. n \<noteq> k \<longrightarrow> points {n} \<inter> points {k} = {})"

lemma owner_kept:
  assumes wf: "ring_wf m" "ring_wf m'" and ne: "Nodes m \<noteq> []"
    and sub: "dom (map_of (Nodes m')) \<subseteq> dom (map_of (Nodes m))"
    and nc: "no_collision (dom (map_of (Nodes m)))"
    and get: "GetNodeByRoomID m r = Inr (Some nd)" and nd: "map_of (Nodes m') (node_ID nd) = Some nd'"
  shows "GetNodeByRoomID m' r = Inr (Some nd')"
proof -
  let ?h = "ChecksumIEEE r"
  obtain n nd1 where n: "map_of (Nodes m) n = Some nd1" "GetNodeByRoomID m r = Inr (Some nd1)"
      "ring_succ (set (Ring m)) ?h \<in> points {n}" "node_ID nd1 = n"
    using GetNodeByRoomID_owner [OF wf(1) ne, of r] by metis
  have same: "nd1 = nd" using n(2) get by simp
  have ne': "Nodes m' \<noteq> []" using nd by auto
  obtain k kd where k: "map_of (Nodes m') k = Some kd" "GetNodeByRoomID m' r = Inr (Some kd)"
      "ring_succ (set (Ring m')) ?h \<in> points {k}"
    using GetNodeByRoomID_owner [OF wf(2) ne', of r] by metis
  have n': "n \<in> dom (map_of (Nodes m'))" using nd n(4) same by auto
  have P: "points {n} \<subseteq> set (Ring m')" unfolding ring_wf_set [OF wf(2)]
    using n' by (intro points_mono) simp
  have Q: "set (Ring m') \<subseteq> set (Ring m)" unfolding ring_wf_set [OF wf(1)] ring_wf_set [OF wf(2)]
    using sub by (rule points_mono)
  have "ring_succ (set (Ring m')) ?h = ring_succ (set (Ring m)) ?h"
    by (rule ring_succ_subset) (use n(3) P Q in auto)
  then have meet: "points {n} \<inter> points {k} \<noteq> {}" using n(3) k(3) by auto
  have "n \<in> dom (map_of (Nodes m))" "k \<in> dom (map_of (Nodes m))"
    using n' k(1) sub by auto
  with meet have "n = k" using nc unfolding no_collision_def by blast
  then show ?thesis using k nd n(4) same by simp
qed

end
