(* ===== verification/Engine.thy ===== *)
theory Engine
  imports RpcRing
begin

text \<open>
  \<open>internal/engine/manager.go\<close>: the table of engine nodes, their health, the choice of a node
  for a room, reconnection, discovery and removal.

  Nodes are pointers in the code, and goroutines keep them while the table changes; so they
  live in a heap \<open>nheap\<close> (addresses are numbers, \<open>nnext\<close> is the next free one) and the
  table \<open>nodes\<close> maps a pod index to an address. \<open>'w net\<close> is the state the engine works on: heap,
  engine instance, ring manager \<open>rpc.Mgr\<close>, the running \<open>attemptReconnectLoop\<close> goroutines, and the
  outside world. The room manager extends this record. The callback \<open>reassignFunc\<close> is an
  argument \<open>fn\<close>; \<open>reassignSet\<close> says whether it has been registered. Log output and the lock
  \<open>mu\<close> have no counterpart: an operation is one step.
\<close>

section \<open>State\<close>

record EngineNode =
  PodIndex :: int
  PodName :: string
  Addr :: string
  Healthy :: bool
  LastError :: "error option"
  LastHeartbeat :: int
  ActiveRooms :: int
  CPUUsage :: float32
  MemoryUsed :: int
  MaxCapacity :: int
  ServerID :: string
  nconn :: "client option"
  nclient :: "client option"
  reconnecting :: bool
  reconnectFailures :: int
  lastReconnectFailure :: int

record EngineNodeStatus =
  st_PodIndex :: int
  st_PodName :: string
  st_Addr :: string
  st_Healthy :: bool
  st_LastError :: "error option"
  st_LastHeartbeat :: int
  st_ActiveRooms :: int
  st_CPUUsage :: float32
  st_MemoryUsed :: int
  st_MaxCapacity :: int
  st_ServerID :: string

record EngineStatus =
  es_Total :: int
  es_Healthy :: int
  es_Unhealthy :: int
  es_Nodes :: "EngineNodeStatus list"
  es_Replicas :: int
  es_Namespace :: string
  es_ServiceName :: string
  es_StatefulSetName :: string
  es_HeadlessServiceName :: string

record EngineInstance =
  replicas :: int
  namespace :: string
  statefulSetName :: string
  headlessServiceName :: string
  maxPodIndex :: int
  nodes :: "(int \<times> nat) list"
  reassignSet :: bool
  ctxDone :: bool

record 'w net =
  nheap :: "nat \<Rightarrow> EngineNode"
  nnext :: nat
  eng :: EngineInstance
  Mgr :: NodeManager
  loops :: "(int \<times> string \<times> int) list"
  world :: 'w

definition new_node :: "int \<Rightarrow> string \<Rightarrow> EngineNode" where
  "new_node i name = \<lparr>PodIndex = i, PodName = name, Addr = [], Healthy = False, LastError = None,
     LastHeartbeat = 0, ActiveRooms = 0, CPUUsage = F32 0 0, MemoryUsed = 0, MaxCapacity = 0,
     ServerID = [], nconn = None, nclient = None, reconnecting = False, reconnectFailures = 0,
     lastReconnectFailure = 0\<rparr>"

section \<open>Methods of a node\<close>

definition isConnected :: "EngineNode \<Rightarrow> bool" where
  "isConnected n \<longleftrightarrow> nconn n \<noteq> None \<and> nclient n \<noteq> None"

definition replaceConnection :: "string \<Rightarrow> client \<Rightarrow> client \<Rightarrow> int \<Rightarrow> EngineNode \<Rightarrow> EngineNode \<times> client option" where
  "replaceConnection addr c cl now n =
     (n\<lparr>Addr := addr, nconn := Some c, nclient := Some cl, Healthy := True, LastError := None,
        LastHeartbeat := now\<rparr>, nconn n)"

definition markHealthy :: "HeartbeatStatus \<Rightarrow> int \<Rightarrow> EngineNode \<Rightarrow> EngineNode \<times> bool" where
  "markHealthy hb now n =
     (let serverIDChanged = ServerID n \<noteq> [] \<and> ServerID n \<noteq> hb_ServerID hb;
          n' = n\<lparr>Healthy := True, LastError := None, LastHeartbeat := now,
            ActiveRooms := hb_ActiveRooms hb, CPUUsage := hb_CPUUsage hb,
            MemoryUsed := hb_MemoryUsed hb, MaxCapacity := hb_MaxCapacity hb,
            ServerID := hb_ServerID hb\<rparr>
      in (if serverIDChanged then n'\<lparr>reconnectFailures := 0\<rparr> else n', serverIDChanged))"

definition markUnhealthy :: "error \<Rightarrow> EngineNode \<Rightarrow> EngineNode" where
  "markUnhealthy reason n = n\<lparr>Healthy := False, LastError := Some reason\<rparr>"

definition snapshot :: "EngineNode \<Rightarrow> EngineNodeStatus" where
  "snapshot n = \<lparr>st_PodIndex = PodIndex n, st_PodName = PodName n, st_Addr = Addr n,
     st_Healthy = Healthy n, st_LastError = LastError n, st_LastHeartbeat = LastHeartbeat n,
     st_ActiveRooms = ActiveRooms n, st_CPUUsage = CPUUsage n, st_MemoryUsed = MemoryUsed n,
     st_MaxCapacity = MaxCapacity n, st_ServerID = ServerID n\<rparr>"

definition closeConn :: "EngineNode \<Rightarrow> EngineNode \<times> client option" where
  "closeConn n = (n\<lparr>nconn := None, nclient := None\<rparr>, nconn n)"

definition incrementReconnectFailures :: "int \<Rightarrow> EngineNode \<Rightarrow> EngineNode" where
  "incrementReconnectFailures now n =
     n\<lparr>reconnectFailures := reconnectFailures n + 1, lastReconnectFailure := now\<rparr>"

section \<open>Lookups\<close>

definition getNode :: "('w, 'm) net_scheme \<Rightarrow> int \<Rightarrow> nat option" where
  "getNode s podIndex = map_of (nodes (eng s)) podIndex"

definition snapshotPodIndices :: "('w, 'm) net_scheme \<Rightarrow> int list" where
  "snapshotPodIndices s = mkeys (nodes (eng s))"

definition upd_node :: "nat \<Rightarrow> (EngineNode \<Rightarrow> EngineNode) \<Rightarrow> ('w, 'm) net_scheme \<Rightarrow> ('w, 'm) net_scheme" where
  "upd_node a f s = s\<lparr>nheap := (nheap s)(a := f (nheap s a))\<rparr>"

definition GetNodeByPodIndex :: "('w, 'm) net_scheme \<Rightarrow> int \<Rightarrow> error + nat" where
  "GetNodeByPodIndex s podIndex = (case getNode s podIndex of
      None \<Rightarrow> Inl (EEngine (EPodNotFound podIndex))
    | Some a \<Rightarrow> Inr a)"

text \<open>Go's \<open>%\<close> truncates; \<open>hashInt\<close> is not negative and \<open>replicas\<close> positive, so \<open>mod\<close> agrees.\<close>

definition hashRoom :: "('w, 'm) net_scheme \<Rightarrow> string \<Rightarrow> int" where
  "hashRoom s roomID = (let r = replicas (eng s); r' = (if r \<le> 0 then 1 else r) in hashInt roomID mod r')"

text \<open>A healthy node below its capacity; an unreported capacity counts as \<open>CppMaxInstance\<close>.\<close>

definition effectiveMax :: "EngineNodeStatus \<Rightarrow> int" where
  "effectiveMax st = (if st_MaxCapacity st \<le> 0 then CppMaxInstance else st_MaxCapacity st)"

definition notFull :: "('w, 'm) net_scheme \<Rightarrow> int \<Rightarrow> bool" where
  "notFull s idx = (case getNode s idx of None \<Rightarrow> False
     | Some a \<Rightarrow> (let st = snapshot (nheap s a)
         in st_Healthy st \<and> \<not> (effectiveMax st > 0 \<and> st_ActiveRooms st \<ge> effectiveMax st)))"

definition underLoad :: "('w, 'm) net_scheme \<Rightarrow> int \<Rightarrow> bool" where
  "underLoad s idx = (case getNode s idx of None \<Rightarrow> False
     | Some a \<Rightarrow> f32_less (st_CPUUsage (snapshot (nheap s a))) 70)"

definition pickPreferredNodeForRoom :: "('w, 'm) net_scheme \<Rightarrow> string \<Rightarrow> nat option" where
  "pickPreferredNodeForRoom s roomID =
     (let indices = snapshotPodIndices s in
      if indices = [] then None
      else let notFullIndices = filter (notFull s) indices;
               underLoadIndices = filter (underLoad s) notFullIndices;
               candidates = (if underLoadIndices = [] then notFullIndices else underLoadIndices)
           in if candidates = [] then None
              else (case GetNodeByPodIndex s (chooseByHash roomID candidates) of
                  Inl e \<Rightarrow> None | Inr a \<Rightarrow> Some a))"

definition GetNodeForRoom :: "('w, 'm) net_scheme \<Rightarrow> string \<Rightarrow> error + nat" where
  "GetNodeForRoom s roomID = (case pickPreferredNodeForRoom s roomID of
      Some a \<Rightarrow> Inr a
    | None \<Rightarrow>
        if replicas (eng s) \<le> 0 then Inl (EEngine ENoReplicas)
        else (case getNode s (hashRoom s roomID) of
            None \<Rightarrow> Inl (EEngine (EPodNotFound (hashRoom s roomID)))
          | Some a \<Rightarrow> Inr a))"

definition GetStatus :: "('w, 'm) net_scheme \<Rightarrow> EngineStatus" where
  "GetStatus s =
     (let statuses = filter (\<lambda>st. st_Healthy st \<or> st_ActiveRooms st \<noteq> 0)
            (List.map_filter (\<lambda>idx. map_option (\<lambda>a. snapshot (nheap s a)) (getNode s idx))
              (snapshotPodIndices s));
          healthy = int (length (filter st_Healthy statuses))
      in \<lparr>es_Total = int (length statuses), es_Healthy = healthy,
          es_Unhealthy = int (length statuses) - healthy, es_Nodes = statuses,
          es_Replicas = replicas (eng s), es_Namespace = namespace (eng s),
          es_ServiceName = headlessServiceName (eng s),
          es_StatefulSetName = statefulSetName (eng s),
          es_HeadlessServiceName = headlessServiceName (eng s)\<rparr>)"

end
