(* ===== verification/EngineOps.thy ===== *)
theory EngineOps
  imports Engine
begin

text \<open>
  The operations of \<open>internal/engine/manager.go\<close> that change state: configuration from the
  environment, dialling and registering a pod, heartbeats, reconnection with its retry loop,
  discovery, shrinking, removal and shutdown. An operation that can trigger the registered
  callback returns an \<open>exec\<close>, because the callback is the room manager's failover.
  \<open>attemptReconnectLoop\<close> runs in its own goroutine: \<open>loops\<close> holds the pod, the address and the
  current backoff (in seconds) of each, and \<open>attemptReconnectStep\<close> is one turn of the loop.
\<close>

section \<open>Configuration\<close>

definition is_space :: "char \<Rightarrow> bool" where
  "is_space c \<longleftrightarrow> (of_char c :: nat) \<in> {9, 10, 11, 12, 13, 32}"

definition TrimSpace :: "string \<Rightarrow> string" where
  "TrimSpace s = rev (dropWhile is_space (rev (dropWhile is_space s)))"

definition is_digit :: "char \<Rightarrow> bool" where
  "is_digit c \<longleftrightarrow> 48 \<le> (of_char c :: nat) \<and> (of_char c :: nat) \<le> 57"

definition Atoi :: "string \<Rightarrow> int option" where
  "Atoi s = (let (neg, ds) = (case s of [] \<Rightarrow> (False, [])
       | c # cs \<Rightarrow> if c = CHR ''-'' then (True, cs) else if c = CHR ''+'' then (False, cs) else (False, s));
       n = (if neg then - int (undigits ds) else int (undigits ds))
     in if ds \<noteq> [] \<and> list_all is_digit ds \<and> - (2 ^ 63) \<le> n \<and> n < 2 ^ 63 then Some n else None)"

definition getEnvString :: "'w ext \<Rightarrow> string \<Rightarrow> string \<Rightarrow> string" where
  "getEnvString X key defaultVal =
     (let val = TrimSpace (x_env X key) in if val \<noteq> [] then val else defaultVal)"

definition getEnvInt :: "'w ext \<Rightarrow> string \<Rightarrow> int \<Rightarrow> int" where
  "getEnvInt X key defaultVal =
     (let val = TrimSpace (x_env X key)
      in if val \<noteq> [] then (case Atoi val of Some n \<Rightarrow> n | None \<Rightarrow> defaultVal) else defaultVal)"

definition buildPodDNSAddr :: "'w ext \<Rightarrow> EngineInstance \<Rightarrow> int \<Rightarrow> string" where
  "buildPodDNSAddr X e podIndex =
     (let podName = statefulSetName e @ ''-'' @ Itoa podIndex;
          port = getEnvString X ''K8S_ENGINE_PORT'' (Itoa CppStartPort)
      in podName @ ''.'' @ headlessServiceName e @ ''.'' @ namespace e @ ''.svc.cluster.local:'' @ port)"

section \<open>Connecting\<close>

definition resetReconnectFailures :: "int \<Rightarrow> ('w, 'm) net_scheme \<Rightarrow> ('w, 'm) net_scheme" where
  "resetReconnectFailures podIndex s = (case getNode s podIndex of None \<Rightarrow> s
     | Some a \<Rightarrow> upd_node a (\<lambda>n. n\<lparr>reconnectFailures := 0\<rparr>) s)"

definition ensureNode :: "int \<Rightarrow> ('w, 'm) net_scheme \<Rightarrow> nat \<times> ('w, 'm) net_scheme" where
  "ensureNode podIndex s = (case getNode s podIndex of
      Some a \<Rightarrow> (a, s)
    | None \<Rightarrow> (nnext s,
        s\<lparr>nheap := (nheap s)(nnext s := new_node podIndex (statefulSetName (eng s) @ ''-'' @ Itoa podIndex)),
          nnext := Suc (nnext s),
          eng := (eng s)\<lparr>nodes := AList.update podIndex (nnext s) (nodes (eng s))\<rparr>\<rparr>))"

definition closeClient :: "'w ext \<Rightarrow> client option \<Rightarrow> ('w, 'm) net_scheme \<Rightarrow> ('w, 'm) net_scheme" where
  "closeClient X c s = (case c of None \<Rightarrow> s | Some cl \<Rightarrow> s\<lparr>world := x_close X cl (world s)\<rparr>)"

definition connectAndRegisterPod ::
  "'w ext \<Rightarrow> int \<Rightarrow> string \<Rightarrow> ('w, 'm) net_scheme \<Rightarrow> error option \<times> ('w, 'm) net_scheme" where
  "connectAndRegisterPod X podIndex addr s = (case x_dial X addr (world s) of
      (Inl e, w) \<Rightarrow> (Some e, s\<lparr>world := w\<rparr>)
    | (Inr c, w) \<Rightarrow>
        (let (a, s1) = ensureNode podIndex (s\<lparr>world := w\<rparr>);
             (n, oldConn) = replaceConnection addr c c (x_now X w) (nheap s1 a);
             s2 = upd_node a (\<lambda>_. n) s1;
             s3 = s2\<lparr>Mgr := RegisterNode podIndex addr c (Mgr s2)\<rparr>;
             s4 = closeClient X oldConn s3
         in (None, resetReconnectFailures podIndex s4)))"

definition initEngine :: "'w ext \<Rightarrow> EngineInstance" where
  "initEngine X =
     (let r = getEnvInt X ''K8S_ENGINE_REPLICAS'' 1;
          ns = getEnvString X ''K8S_ENGINE_NAMESPACE'' ''default'';
          sts = getEnvString X ''K8S_ENGINE_STATEFULSET'' ''pokemon-server'';
          hs = getEnvString X ''K8S_ENGINE_HEADLESS_SERVICE'' (sts @ ''-headless'')
      in \<lparr>replicas = r, namespace = ns, statefulSetName = sts, headlessServiceName = hs,
          maxPodIndex = r - 1, nodes = [], reassignSet = False, ctxDone = False\<rparr>)"

definition NewEngineInstance :: "'w ext \<Rightarrow> ('w, 'm) net_scheme \<Rightarrow> ('w, 'm) net_scheme" where
  "NewEngineInstance X s =
     (let s0 = s\<lparr>eng := initEngine X\<rparr>
      in fold (\<lambda>i t. snd (connectAndRegisterPod X i (buildPodDNSAddr X (eng t) i) t))
           [0..replicas (eng s0) - 1] s0)"

definition SetReassignRoomsFunc :: "('w, 'm) net_scheme \<Rightarrow> ('w, 'm) net_scheme" where
  "SetReassignRoomsFunc s = s\<lparr>eng := (eng s)\<lparr>reassignSet := True\<rparr>\<rparr>"

section \<open>Removal, shrinking, discovery, shutdown\<close>

definition deleteNode :: "'w ext \<Rightarrow> int \<Rightarrow> ('w, 'm) net_scheme \<Rightarrow> ('w, 'm) net_scheme" where
  "deleteNode X podIndex s = (case getNode s podIndex of None \<Rightarrow> s
     | Some a \<Rightarrow>
        (let s1 = s\<lparr>eng := (eng s)\<lparr>nodes := AList.delete podIndex (nodes (eng s))\<rparr>\<rparr>;
             (n, c) = closeConn (nheap s1 a);
             s2 = upd_node a (\<lambda>_. n) s1
         in (case c of None \<Rightarrow> s2
             | Some cl \<Rightarrow> closeClient X c (s2\<lparr>Mgr := RemoveNode podIndex (Mgr s2)\<rparr>))))"

definition maxHealthyIndex :: "('w, 'm) net_scheme \<Rightarrow> int" where
  "maxHealthyIndex s = fold (\<lambda>idx mx. case getNode s idx of None \<Rightarrow> mx
     | Some a \<Rightarrow> if st_Healthy (snapshot (nheap s a)) \<and> idx > mx then idx else mx)
     (snapshotPodIndices s) (- 1)"

definition shrinkReplicaCountIfNeeded :: "('w, 'm) net_scheme \<Rightarrow> ('w, 'm) net_scheme" where
  "shrinkReplicaCountIfNeeded s =
     (let mh = maxHealthyIndex s in
      if mh < 0 then s
      else let newReplicas = mh + 1 in
        if newReplicas \<ge> replicas (eng s) then s
        else s\<lparr>eng := (eng s)\<lparr>replicas := newReplicas,
                 maxPodIndex := (if maxPodIndex (eng s) \<ge> newReplicas then newReplicas - 1
                    else maxPodIndex (eng s))\<rparr>\<rparr>)"

definition updateMaxPodIndex :: "int \<Rightarrow> ('w, 'm) net_scheme \<Rightarrow> ('w, 'm) net_scheme" where
  "updateMaxPodIndex podIndex s = (if podIndex > maxPodIndex (eng s)
     then s\<lparr>eng := (eng s)\<lparr>maxPodIndex := podIndex\<rparr>\<rparr> else s)"

definition discoverPod :: "'w ext \<Rightarrow> int \<Rightarrow> ('w, 'm) net_scheme \<Rightarrow> ('w, 'm) net_scheme" where
  "discoverPod X i s = (case getNode s i of Some _ \<Rightarrow> s
     | None \<Rightarrow>
        (let addr = buildPodDNSAddr X (eng s) i in
         case x_dial X addr (world s) of
            (Inl e, w) \<Rightarrow> s\<lparr>world := w\<rparr>
          | (Inr c, w) \<Rightarrow>
             (case connectAndRegisterPod X i addr (closeClient X (Some c) (s\<lparr>world := w\<rparr>)) of
                 (Some e, s') \<Rightarrow> s'
               | (None, s') \<Rightarrow> updateMaxPodIndex i s')))"

definition discoverNewPods :: "'w ext \<Rightarrow> ('w, 'm) net_scheme \<Rightarrow> ('w, 'm) net_scheme" where
  "discoverNewPods X s = fold (discoverPod X) [0..maxPodIndex (eng s) + 10] s"

definition closeNode :: "'w ext \<Rightarrow> int \<Rightarrow> ('w, 'm) net_scheme \<Rightarrow> ('w, 'm) net_scheme" where
  "closeNode X idx s = (case getNode s idx of None \<Rightarrow> s
     | Some a \<Rightarrow> (let (n, c) = closeConn (nheap s a); s1 = upd_node a (\<lambda>_. n) s
        in (case c of None \<Rightarrow> s1
            | Some cl \<Rightarrow> closeClient X c (s1\<lparr>Mgr := RemoveNode idx (Mgr s1)\<rparr>))))"

definition Shutdown :: "'w ext \<Rightarrow> ('w, 'm) net_scheme \<Rightarrow> ('w, 'm) net_scheme" where
  "Shutdown X s =
     (let s1 = s\<lparr>eng := (eng s)\<lparr>ctxDone := True\<rparr>\<rparr>;
          s2 = fold (closeNode X) (snapshotPodIndices s1) s1
      in s2\<lparr>eng := (eng s2)\<lparr>nodes := []\<rparr>\<rparr>)"

section \<open>Reconnection\<close>

type_synonym ('w, 'm) net_callback =
  "('w, 'm) net_scheme \<Rightarrow> (unit, ('w, 'm) net_scheme) exec"

definition triggerReassignRooms :: "('w, 'm) net_callback \<Rightarrow> ('w, 'm) net_scheme
    \<Rightarrow> (unit, ('w, 'm) net_scheme) exec" where
  "triggerReassignRooms fn s = (if reassignSet (eng s) then fn s else Done () s)"

definition checkAndTriggerReassign :: "('w, 'm) net_callback \<Rightarrow> ('w, 'm) net_scheme
    \<Rightarrow> (unit, ('w, 'm) net_scheme) exec" where
  "checkAndTriggerReassign fn s =
     (if es_Unhealthy (GetStatus s) > 0 then triggerReassignRooms fn s else Done () s)"

definition recordReconnectFailure :: "'w ext \<Rightarrow> ('w, 'm) net_callback \<Rightarrow> int
    \<Rightarrow> ('w, 'm) net_scheme \<Rightarrow> (unit, ('w, 'm) net_scheme) exec" where
  "recordReconnectFailure X fn podIndex s = (case getNode s podIndex of None \<Rightarrow> Done () s
     | Some a \<Rightarrow>
        (let s1 = upd_node a (incrementReconnectFailures (x_now X (world s))) s;
             failures = reconnectFailures (nheap s1 a)
         in andthen (if failures > 1 then triggerReassignRooms fn s1 else Done () s1)
              (\<lambda>_ s2. Done () (if failures \<ge> 2 then deleteNode X podIndex s2 else s2))))"

definition setReconnecting :: "bool \<Rightarrow> int \<Rightarrow> ('w, 'm) net_scheme \<Rightarrow> ('w, 'm) net_scheme" where
  "setReconnecting b podIndex s = (case getNode s podIndex of None \<Rightarrow> s
     | Some a \<Rightarrow> upd_node a (\<lambda>n. n\<lparr>reconnecting := b\<rparr>) s)"

definition reconnect :: "'w ext \<Rightarrow> int \<Rightarrow> string \<Rightarrow> ('w, 'm) net_scheme
    \<Rightarrow> error option \<times> ('w, 'm) net_scheme" where
  "reconnect X podIndex addr s = (case getNode s podIndex of
      None \<Rightarrow> (Some (EEngine (EPodNotFound podIndex)), s)
    | Some a \<Rightarrow>
        if reconnecting (nheap s a) then (Some (EEngine EReconnectInProgress), s)
        else (let s1 = upd_node a (\<lambda>n. n\<lparr>reconnecting := True\<rparr>) s in
          case connectAndRegisterPod X podIndex addr s1 of
             (None, s2) \<Rightarrow> (None, upd_node a (\<lambda>n. n\<lparr>reconnecting := False\<rparr>) s2)
           | (Some e, s2) \<Rightarrow> (Some (EEngine EReconnectScheduled),
               s2\<lparr>loops := loops s2 @ [(podIndex, addr, 1)]\<rparr>)))"

definition nextBackoff :: "int \<Rightarrow> int" where
  "nextBackoff backoff = (let b = backoff * 2 in if b > 30 then 30 else b)"

text \<open>One turn of \<open>attemptReconnectLoop\<close>; a loop that ends clears the flag of the node, if any.\<close>

definition attemptReconnectStep :: "'w ext \<Rightarrow> ('w, 'm) net_callback \<Rightarrow> int \<times> string \<times> int
    \<Rightarrow> ('w, 'm) net_scheme \<Rightarrow> ((int \<times> string \<times> int) option, ('w, 'm) net_scheme) exec" where
  "attemptReconnectStep X fn l s = (case l of (podIndex, addr, backoff) \<Rightarrow>
     if ctxDone (eng s) then Done None (setReconnecting False podIndex s)
     else (case connectAndRegisterPod X podIndex addr s of
         (None, s1) \<Rightarrow> Done None (setReconnecting False podIndex (resetReconnectFailures podIndex s1))
       | (Some e, s1) \<Rightarrow> andthen (recordReconnectFailure X fn podIndex s1)
           (\<lambda>_ s2. Done (Some (podIndex, addr, nextBackoff backoff)) s2)))"

definition ensureConnectedAt :: "'w ext \<Rightarrow> int \<Rightarrow> ('w, 'm) net_scheme \<Rightarrow> ('w, 'm) net_scheme" where
  "ensureConnectedAt X i s = (case getNode s i of None \<Rightarrow> s
     | Some a \<Rightarrow> let n = nheap s a in
        if isConnected n \<or> reconnecting n then s
        else if Addr n = [] then s
        else snd (reconnect X i (Addr n) s))"

definition ensureConnected :: "'w ext \<Rightarrow> ('w, 'm) net_scheme \<Rightarrow> ('w, 'm) net_scheme" where
  "ensureConnected X s = fold (ensureConnectedAt X) [0..replicas (eng s) - 1] s"

section \<open>Heartbeats\<close>

definition checkSingleNode :: "'w ext \<Rightarrow> ('w, 'm) net_callback \<Rightarrow> int
    \<Rightarrow> ('w, 'm) net_scheme \<Rightarrow> (error option, ('w, 'm) net_scheme) exec" where
  "checkSingleNode X fn podIndex s = (case getNode s podIndex of
      None \<Rightarrow> Done (Some (EEngine (EPodNotFound podIndex))) s
    | Some a \<Rightarrow> (case CallGetHeartbeat X (nclient (nheap s a)) (world s) of
          None \<Rightarrow> Done (Some (EEngine ENotConnected)) (upd_node a (markUnhealthy (EEngine ENotConnected)) s)
        | Some (Inl e, w) \<Rightarrow> Done (Some e) (upd_node a (markUnhealthy e) (s\<lparr>world := w\<rparr>))
        | Some (Inr hb, w) \<Rightarrow>
           (let (n, changed) = markHealthy hb (x_now X w) (nheap s a);
                s1 = upd_node a (\<lambda>_. n) (s\<lparr>world := w\<rparr>)
            in andthen (if changed then triggerReassignRooms fn s1 else Done () s1)
                 (\<lambda>_ s2. Done None s2))))"

definition checkHeartbeatAt :: "'w ext \<Rightarrow> ('w, 'm) net_callback \<Rightarrow> int
    \<Rightarrow> ('w, 'm) net_scheme \<Rightarrow> (unit, ('w, 'm) net_scheme) exec" where
  "checkHeartbeatAt X fn i s = (case getNode s i of None \<Rightarrow> Done () s
     | Some a \<Rightarrow> andthen (checkSingleNode X fn i s) (\<lambda>err s1. case err of
          None \<Rightarrow> Done () s1
        | Some e \<Rightarrow> let addr = Addr (nheap s1 a) in
            if addr = [] then Done () s1
            else (case reconnect X i addr s1 of
                (None, s2) \<Rightarrow> Done () s2
              | (Some e', s2) \<Rightarrow> recordReconnectFailure X fn i s2)))"

definition checkHeartbeat :: "'w ext \<Rightarrow> ('w, 'm) net_callback
    \<Rightarrow> ('w, 'm) net_scheme \<Rightarrow> (unit, ('w, 'm) net_scheme) exec" where
  "checkHeartbeat X fn s = foreach (snapshotPodIndices s) (checkHeartbeatAt X fn) s"

text \<open>The two ticker branches of \<open>healthCheckLoop\<close>.\<close>

definition healthTick :: "'w ext \<Rightarrow> ('w, 'm) net_callback
    \<Rightarrow> ('w, 'm) net_scheme \<Rightarrow> (unit, ('w, 'm) net_scheme) exec" where
  "healthTick X fn s =
     andthen (checkHeartbeat X fn (ensureConnected X s))
       (\<lambda>_ s1. checkAndTriggerReassign fn (shrinkReplicaCountIfNeeded s1))"

definition discoveryTick :: "'w ext \<Rightarrow> ('w, 'm) net_scheme \<Rightarrow> (unit, ('w, 'm) net_scheme) exec" where
  "discoveryTick X s = Done () (discoverNewPods X s)"

end
