(* ===== verification/EngineInv.thy ===== *)
theory EngineInv
  imports EngineOps
begin

text \<open>
  Invariant of the engine: every node of the table carries its own index and name, holds an
  open connection, and the hash ring manager lists exactly the nodes of the table with their
  addresses and clients. Every operation keeps it. The room manager's failover enters through
  the locale \<open>reassign_callback\<close>: a callback may do what it likes with rooms and the outside
  world, but leaves the engine's own tables alone.
\<close>

section \<open>Frame lemmas\<close>

lemma upd_node_simps [simp]:
  "getNode (upd_node a f s) i = getNode s i"
  "nheap (upd_node a f s) = (nheap s)(a := f (nheap s a))"
  "nnext (upd_node a f s) = nnext s" "eng (upd_node a f s) = eng s"
  "Mgr (upd_node a f s) = Mgr s" "loops (upd_node a f s) = loops s"
  "world (upd_node a f s) = world s"
  by (simp_all add: upd_node_def getNode_def)

lemma closeClient_simps [simp]:
  "getNode (closeClient X c s) i = getNode s i"
  "nheap (closeClient X c s) = nheap s" "nnext (closeClient X c s) = nnext s"
  "eng (closeClient X c s) = eng s" "Mgr (closeClient X c s) = Mgr s"
  "loops (closeClient X c s) = loops s"
  by (simp_all add: closeClient_def getNode_def split: option.split)

lemma getNode_update_simps [simp]:
  "getNode (s\<lparr>world := w\<rparr>) i = getNode s i" "getNode (s\<lparr>Mgr := m\<rparr>) i = getNode s i"
  "getNode (s\<lparr>loops := l\<rparr>) i = getNode s i" "getNode (s\<lparr>nheap := h\<rparr>) i = getNode s i"
  by (simp_all add: getNode_def)

section \<open>The invariant\<close>

definition node_ok :: "EngineInstance \<Rightarrow> int \<Rightarrow> EngineNode \<Rightarrow> bool" where
  "node_ok e i n \<longleftrightarrow> PodIndex n = i \<and> PodName n = statefulSetName e @ ''-'' @ Itoa i
     \<and> isConnected n \<and> nclient n = nconn n"

definition ring_entry :: "int \<Rightarrow> EngineNode \<Rightarrow> CppNode" where
  "ring_entry i n = \<lparr>node_ID = i, node_Addr = Addr n, node_Client = the (nclient n)\<rparr>"

definition engine_wf :: "('w, 'm) net_scheme \<Rightarrow> bool" where
  "engine_wf s \<longleftrightarrow> map_ok (nodes (eng s)) \<and> ring_wf (Mgr s)
     \<and> (\<forall>i a. getNode s i = Some a \<longrightarrow> a < nnext s \<and> node_ok (eng s) i (nheap s a))
     \<and> (\<forall>i. map_of (Nodes (Mgr s)) i = map_option (\<lambda>a. ring_entry i (nheap s a)) (getNode s i))"

lemma engine_wf_ok: "engine_wf s \<Longrightarrow> map_ok (nodes (eng s))"
  and engine_wf_ring: "engine_wf s \<Longrightarrow> ring_wf (Mgr s)"
  and engine_wf_node: "engine_wf s \<Longrightarrow> getNode s i = Some a \<Longrightarrow> a < nnext s \<and> node_ok (eng s) i (nheap s a)"
  and engine_wf_mirror: "engine_wf s \<Longrightarrow>
    map_of (Nodes (Mgr s)) i = map_option (\<lambda>a. ring_entry i (nheap s a)) (getNode s i)"
  unfolding engine_wf_def by blast+

lemma engine_wf_inj: "engine_wf s \<Longrightarrow> getNode s i = Some a \<Longrightarrow> getNode s j = Some a \<Longrightarrow> i = j"
  by (metis engine_wf_node node_ok_def)

lemma engine_wf_cong:
  assumes "nheap s = nheap t" "nnext s = nnext t" "nodes (eng s) = nodes (eng t)"
    "statefulSetName (eng s) = statefulSetName (eng t)" "Mgr s = Mgr t"
  shows "engine_wf s \<longleftrightarrow> engine_wf t"
  using assms by (simp add: engine_wf_def getNode_def node_ok_def)

text \<open>Writing a node's status fields does not touch what the invariant speaks of.\<close>

definition keeps_identity :: "(EngineNode \<Rightarrow> EngineNode) \<Rightarrow> bool" where
  "keeps_identity f \<longleftrightarrow> (\<forall>n. PodIndex (f n) = PodIndex n \<and> PodName (f n) = PodName n
     \<and> Addr (f n) = Addr n \<and> nconn (f n) = nconn n \<and> nclient (f n) = nclient n)"

lemma keeps_identity_simps [simp]:
  "keeps_identity (\<lambda>n. n\<lparr>reconnectFailures := k\<rparr>)" "keeps_identity (\<lambda>n. n\<lparr>reconnecting := b\<rparr>)"
  "keeps_identity (markUnhealthy e)" "keeps_identity (incrementReconnectFailures t)"
  by (simp_all add: keeps_identity_def markUnhealthy_def incrementReconnectFailures_def)

lemma engine_wf_upd_node:
  assumes "keeps_identity f" shows "engine_wf (upd_node a f s) \<longleftrightarrow> engine_wf s"
proof -
  have ok: "node_ok e i (f n) = node_ok e i n" and en: "ring_entry i (f n) = ring_entry i n" for e i n
    using assms by (auto simp: keeps_identity_def node_ok_def isConnected_def ring_entry_def)
  have "node_ok e i (((nheap s)(a := f (nheap s a))) b) = node_ok e i (nheap s b)"
    and "ring_entry i (((nheap s)(a := f (nheap s a))) b) = ring_entry i (nheap s b)" for e i b
    by (simp_all add: ok en)
  then show ?thesis by (simp add: engine_wf_def)
qed

lemma engine_wf_world [simp]: "engine_wf (s\<lparr>world := w\<rparr>) \<longleftrightarrow> engine_wf s"
  and engine_wf_loops [simp]: "engine_wf (s\<lparr>loops := l\<rparr>) \<longleftrightarrow> engine_wf s"
  and engine_wf_close [simp]: "engine_wf (closeClient X c s) \<longleftrightarrow> engine_wf s"
  by (rule engine_wf_cong; simp)+

section \<open>Operations keep the invariant\<close>

lemma engine_wf_reset [simp]: "engine_wf (resetReconnectFailures i s) \<longleftrightarrow> engine_wf s"
  by (simp add: resetReconnectFailures_def engine_wf_upd_node split: option.split)

lemma ensureNode_props:
  assumes wf: "engine_wf s" and e: "ensureNode i s = (a, s1)"
  shows "getNode s1 i = Some a" "a < nnext s1" "map_ok (nodes (eng s1))" "Mgr s1 = Mgr s"
    "statefulSetName (eng s1) = statefulSetName (eng s)"
    "PodIndex (nheap s1 a) = i" "PodName (nheap s1 a) = statefulSetName (eng s) @ ''-'' @ Itoa i"
    "\<And>j. j \<noteq> i \<Longrightarrow> getNode s1 j = getNode s j"
    "\<And>j b. j \<noteq> i \<Longrightarrow> getNode s j = Some b \<Longrightarrow> b \<noteq> a \<and> b < nnext s1 \<and> nheap s1 b = nheap s b"
proof -
  consider (old) "getNode s i = Some a" "s1 = s" | (new) "getNode s i = None" "a = nnext s"
    using e by (auto simp: ensureNode_def split: option.splits)
  then have *: "getNode s1 i = Some a \<and> a < nnext s1 \<and> map_ok (nodes (eng s1)) \<and> Mgr s1 = Mgr s
     \<and> statefulSetName (eng s1) = statefulSetName (eng s)
     \<and> PodIndex (nheap s1 a) = i \<and> PodName (nheap s1 a) = statefulSetName (eng s) @ ''-'' @ Itoa i
     \<and> (\<forall>j. j \<noteq> i \<longrightarrow> getNode s1 j = getNode s j)
     \<and> (\<forall>j b. j \<noteq> i \<longrightarrow> getNode s j = Some b \<longrightarrow> b \<noteq> a \<and> b < nnext s1 \<and> nheap s1 b = nheap s b)"
  proof cases
    case old
    then show ?thesis using wf engine_wf_node [OF wf] engine_wf_inj [OF wf]
      by (fastforce simp: engine_wf_ok node_ok_def)
  next
    case new
    then have s1: "s1 = s\<lparr>nheap := (nheap s)(nnext s := new_node i (statefulSetName (eng s) @ ''-'' @ Itoa i)),
          nnext := Suc (nnext s),
          eng := (eng s)\<lparr>nodes := AList.update i (nnext s) (nodes (eng s))\<rparr>\<rparr>"
      using e by (simp add: ensureNode_def)
    have "b < nnext s" if "getNode s j = Some b" for j b using engine_wf_node [OF wf that] by simp
    then show ?thesis using new wf
      by (auto simp: s1 getNode_def new_node_def engine_wf_ok less_Suc_eq)
  qed
  show "getNode s1 i = Some a" "a < nnext s1" "map_ok (nodes (eng s1))" "Mgr s1 = Mgr s"
    "statefulSetName (eng s1) = statefulSetName (eng s)"
    "PodIndex (nheap s1 a) = i" "PodName (nheap s1 a) = statefulSetName (eng s) @ ''-'' @ Itoa i"
    "\<And>j. j \<noteq> i \<Longrightarrow> getNode s1 j = getNode s j"
    "\<And>j b. j \<noteq> i \<Longrightarrow> getNode s j = Some b \<Longrightarrow> b \<noteq> a \<and> b < nnext s1 \<and> nheap s1 b = nheap s b"
    using * by blast+
qed

lemma Register_Nodes:
  "map_of (Nodes (RegisterNode i addr c m)) = (map_of (Nodes m))(i \<mapsto> \<lparr>node_ID = i, node_Addr = addr, node_Client = c\<rparr>)"
  by (simp add: RegisterNode_def)

lemma Remove_Nodes:
  "ring_wf m \<Longrightarrow> map_of (Nodes (RemoveNode i m)) = (map_of (Nodes m))(i := None)"
  by (auto simp: RemoveNode_def ring_wf_ok split: option.split)

lemma engine_wf_connect:
  assumes wf: "engine_wf s"
  shows "engine_wf (snd (connectAndRegisterPod X i addr s))"
proof (cases "x_dial X addr (world s)")
  case (Pair r w)
  show ?thesis
  proof (cases r)
    case (Inl e)
    with Pair wf show ?thesis by (simp add: connectAndRegisterPod_def)
  next
    case (Inr c)
    obtain a s1 where e: "ensureNode i (s\<lparr>world := w\<rparr>) = (a, s1)" by fastforce
    note p = ensureNode_props [OF _ e, simplified, OF wf]
    let ?n = "fst (replaceConnection addr c c (x_now X w) (nheap s1 a))"
    let ?t = "upd_node a (\<lambda>_. ?n) s1\<lparr>Mgr := RegisterNode i addr c (Mgr s1)\<rparr>"
    have id: "node_ok (eng s) i ?n" "ring_entry i ?n = \<lparr>node_ID = i, node_Addr = addr, node_Client = c\<rparr>"
      using p(6,7) by (simp_all add: node_ok_def replaceConnection_def isConnected_def ring_entry_def)
    have ok_eq: "node_ok (eng s1) = node_ok (eng s)" using p(5) by (auto simp: node_ok_def fun_eq_iff)
    have "a' < nnext ?t \<and> node_ok (eng ?t) j (nheap ?t a')" if "getNode ?t j = Some a'" for j a'
    proof (cases "j = i")
      case True
      then show ?thesis using that p(1,2) id(1) by (simp add: ok_eq)
    next
      case False
      then have "getNode s j = Some a'" using that p(8) by simp
      then show ?thesis using p(9) [OF False] engine_wf_node [OF wf] by (fastforce simp: ok_eq)
    qed
    moreover have "map_of (Nodes (Mgr ?t)) j = map_option (\<lambda>b. ring_entry j (nheap ?t b)) (getNode ?t j)" for j
    proof (cases "j = i")
      case True
      then show ?thesis using p(1) id(2) by (simp add: Register_Nodes)
    next
      case False
      then show ?thesis using p(4,8) p(9) [OF False] engine_wf_mirror [OF wf, of j]
        by (cases "getNode s j") (auto simp: Register_Nodes)
    qed
    ultimately have "engine_wf ?t"
      using p(3,4) engine_wf_ring [OF wf] by (simp add: engine_wf_def ring_wf_Register)
    moreover obtain n oldc where rc: "replaceConnection addr c c (x_now X w) (nheap s1 a) = (n, oldc)"
      by (rule prod.exhaust)
    ultimately show ?thesis
      using Pair Inr e by (simp add: connectAndRegisterPod_def Let_def)
  qed
qed

lemma engine_wf_delete:
  assumes wf: "engine_wf s" shows "engine_wf (deleteNode X i s)"
proof (cases "getNode s i")
  case (Some a)
  have node: "node_ok (eng s) i (nheap s a)" using engine_wf_node [OF wf Some] by simp
  then obtain c where c: "nconn (nheap s a) = Some c" by (auto simp: node_ok_def isConnected_def)
  let ?e = "(eng s)\<lparr>nodes := AList.delete i (nodes (eng s))\<rparr>"
  let ?t = "upd_node a (\<lambda>_. fst (closeConn (nheap s a))) (s\<lparr>eng := ?e\<rparr>)\<lparr>Mgr := RemoveNode i (Mgr s)\<rparr>"
  have get: "getNode ?t j = (if j = i then None else getNode s j)" for j
    using wf by (simp add: getNode_def engine_wf_ok)
  have other: "getNode s j = Some b \<Longrightarrow> j \<noteq> i \<Longrightarrow> b \<noteq> a" for j b
    using engine_wf_inj [OF wf] Some by blast
  have "engine_wf ?t"
    unfolding engine_wf_def get
    using wf engine_wf_node [OF wf] other
    by (auto simp: engine_wf_ok ring_wf_Remove engine_wf_ring Remove_Nodes engine_wf_mirror
        node_ok_def map_option_case split: option.split)
  then show ?thesis using Some c by (simp add: deleteNode_def Let_def closeConn_def)
qed (simp add: deleteNode_def wf)

lemma engine_wf_shrink: "engine_wf s \<Longrightarrow> engine_wf (shrinkReplicaCountIfNeeded s)"
  by (auto simp: shrinkReplicaCountIfNeeded_def Let_def cong: engine_wf_cong
      intro: engine_wf_cong [THEN iffD1])

lemma engine_wf_updateMax: "engine_wf (updateMaxPodIndex i s) \<longleftrightarrow> engine_wf s"
  by (rule engine_wf_cong) (simp_all add: updateMaxPodIndex_def)

lemma engine_wf_connectD:
  "connectAndRegisterPod X i addr s = (r, t) \<Longrightarrow> engine_wf s \<Longrightarrow> engine_wf t"
  using engine_wf_connect by (metis snd_conv)

lemma engine_wf_discoverPod:
  assumes wf: "engine_wf s" shows "engine_wf (discoverPod X i s)"
proof (cases "getNode s i")
  case None
  let ?addr = "buildPodDNSAddr X (eng s) i"
  obtain r w where d: "x_dial X ?addr (world s) = (r, w)" by (rule prod.exhaust)
  show ?thesis
  proof (cases r)
    case (Inr c)
    obtain e t where t: "connectAndRegisterPod X i ?addr (closeClient X (Some c) (s\<lparr>world := w\<rparr>)) = (e, t)"
      by (rule prod.exhaust)
    from engine_wf_connectD [OF t] wf have "engine_wf t" by simp
    then show ?thesis using None d Inr t
      by (simp add: discoverPod_def Let_def engine_wf_updateMax split: option.split)
  qed (simp add: None d discoverPod_def Let_def wf)
qed (simp add: discoverPod_def wf)

lemma engine_wf_fold: "engine_wf s \<Longrightarrow> (\<And>x t. engine_wf t \<Longrightarrow> engine_wf (f x t)) \<Longrightarrow> engine_wf (fold f xs s)"
  by (induction xs arbitrary: s) auto

lemma engine_wf_discover: "engine_wf s \<Longrightarrow> engine_wf (discoverNewPods X s)"
  unfolding discoverNewPods_def by (rule engine_wf_fold) (auto intro: engine_wf_discoverPod)

lemma engine_wf_reconnect:
  assumes wf: "engine_wf s" shows "engine_wf (snd (reconnect X i addr s))"
proof (cases "getNode s i")
  case (Some a)
  let ?s1 = "upd_node a (\<lambda>n. n\<lparr>reconnecting := True\<rparr>) s"
  obtain r t where t: "connectAndRegisterPod X i addr ?s1 = (r, t)" by (rule prod.exhaust)
  from engine_wf_connectD [OF t] wf have "engine_wf t" by (simp add: engine_wf_upd_node)
  then show ?thesis using Some t wf
    by (simp add: reconnect_def Let_def engine_wf_upd_node split: option.split)
qed (simp add: reconnect_def wf)

lemma engine_wf_reconnectD: "reconnect X i addr s = (r, t) \<Longrightarrow> engine_wf s \<Longrightarrow> engine_wf t"
  using engine_wf_reconnect by (metis snd_conv)

lemma engine_wf_setReconnecting [simp]: "engine_wf (setReconnecting b i s) \<longleftrightarrow> engine_wf s"
  by (simp add: setReconnecting_def engine_wf_upd_node split: option.split)

lemma engine_wf_ensureConnected: "engine_wf s \<Longrightarrow> engine_wf (ensureConnected X s)"
  unfolding ensureConnected_def
  by (rule engine_wf_fold) (auto simp: ensureConnectedAt_def Let_def split: option.split
      intro: engine_wf_reconnect)

lemma engine_wf_init:
  assumes "Mgr s = Mgr_init" shows "engine_wf (s\<lparr>eng := initEngine X\<rparr>)"
  using assms ring_wf_init
  by (simp add: engine_wf_def initEngine_def Let_def getNode_def) (simp add: Mgr_init_def)

lemma engine_wf_New: "Mgr s = Mgr_init \<Longrightarrow> engine_wf (NewEngineInstance X s)"
  unfolding NewEngineInstance_def Let_def
  by (rule engine_wf_fold) (auto intro: engine_wf_init engine_wf_connect)

section \<open>Operations that run the callback\<close>

definition same_engine :: "('w, 'm) net_scheme \<Rightarrow> ('w, 'm) net_scheme \<Rightarrow> bool" where
  "same_engine s t \<longleftrightarrow> nheap s = nheap t \<and> nnext s = nnext t \<and> eng s = eng t \<and> Mgr s = Mgr t \<and> loops s = loops t"

lemma engine_wf_same: "same_engine s t \<Longrightarrow> engine_wf s \<longleftrightarrow> engine_wf t"
  by (rule engine_wf_cong) (auto simp: same_engine_def)

locale reassign_callback =
  fixes fn :: "('w, 'm) net_callback"
  assumes frame: "same_engine (final (fn s)) s"
begin

lemma wf_fn: "engine_wf s \<Longrightarrow> engine_wf (final (fn s))"
  using engine_wf_same [OF frame] by simp

lemma wf_trigger: "engine_wf s \<Longrightarrow> engine_wf (final (triggerReassignRooms fn s))"
  by (simp add: triggerReassignRooms_def wf_fn)

lemma wf_checkAndTrigger: "engine_wf s \<Longrightarrow> engine_wf (final (checkAndTriggerReassign fn s))"
  by (simp add: checkAndTriggerReassign_def wf_trigger)

lemma wf_maybe:
  "engine_wf s \<Longrightarrow> engine_wf (final (if b then triggerReassignRooms fn s else Done () s))"
  by (simp add: wf_trigger)

lemma wf_record:
  assumes wf: "engine_wf s" shows "engine_wf (final (recordReconnectFailure X fn i s))"
proof (cases "getNode s i")
  case (Some a)
  have "engine_wf (upd_node a (incrementReconnectFailures (x_now X (world s))) s)"
    using wf by (simp add: engine_wf_upd_node)
  from wf_maybe [OF this] show ?thesis
    unfolding recordReconnectFailure_def Some Let_def option.case
    by (rule final_andthen_inv) (simp add: engine_wf_delete)
qed (simp add: recordReconnectFailure_def wf)

lemma wf_attempt:
  assumes wf: "engine_wf s" shows "engine_wf (final (attemptReconnectStep X fn l s))"
proof (cases l)
  case (fields i addr b)
  obtain r t where t: "connectAndRegisterPod X i addr s = (r, t)" by (rule prod.exhaust)
  note wft = engine_wf_connectD [OF t wf]
  show ?thesis
  proof (cases r)
    case (Some e)
    have "engine_wf (final (andthen (recordReconnectFailure X fn i t)
        (\<lambda>_ s2. Done (Some (i, addr, nextBackoff b)) s2)))"
      by (rule final_andthen_inv) (simp_all add: wf_record [OF wft])
    then show ?thesis using t Some wf by (simp add: attemptReconnectStep_def fields)
  qed (use t wf wft in \<open>simp add: attemptReconnectStep_def fields\<close>)
qed

lemma wf_checkSingle:
  assumes wf: "engine_wf s" shows "engine_wf (final (checkSingleNode X fn i s))"
proof (cases "getNode s i")
  case (Some a)
  show ?thesis
  proof (cases "CallGetHeartbeat X (nclient (nheap s a)) (world s)")
    case None
    then show ?thesis using Some wf by (simp add: checkSingleNode_def engine_wf_upd_node)
  next
    case (Some p)
    obtain r w where p: "p = (r, w)" by (rule prod.exhaust)
    show ?thesis
    proof (cases r)
      case (Inl e)
      then show ?thesis using \<open>getNode s i = Some a\<close> Some p wf
        by (simp add: checkSingleNode_def engine_wf_upd_node)
    next
      case (Inr hb)
      obtain n ch where n: "markHealthy hb (x_now X w) (nheap s a) = (n, ch)" by (rule prod.exhaust)
      have "keeps_identity (\<lambda>n. fst (markHealthy hb (x_now X w) n))"
        by (simp add: keeps_identity_def markHealthy_def Let_def)
      from engine_wf_upd_node [OF this, of a "s\<lparr>world := w\<rparr>"]
      have "engine_wf (upd_node a (\<lambda>_. n) (s\<lparr>world := w\<rparr>))"
        using wf n by (simp add: upd_node_def)
      from wf_maybe [OF this]
      have "engine_wf (final (andthen (if ch then triggerReassignRooms fn (upd_node a (\<lambda>_. n) (s\<lparr>world := w\<rparr>))
           else Done () (upd_node a (\<lambda>_. n) (s\<lparr>world := w\<rparr>))) (\<lambda>_. Done (None :: error option))))"
        by (rule final_andthen_inv) simp
      then show ?thesis using \<open>getNode s i = Some a\<close> Some p Inr n
        by (simp add: checkSingleNode_def Let_def)
    qed
  qed
qed (simp add: checkSingleNode_def wf)

lemma wf_checkHeartbeatAt:
  assumes wf: "engine_wf s" shows "engine_wf (final (checkHeartbeatAt X fn i s))"
proof (cases "getNode s i")
  case (Some a)
  show ?thesis unfolding checkHeartbeatAt_def Some option.case
  proof (rule final_andthen_inv [where P = engine_wf, OF wf_checkSingle [OF wf]])
    fix err and t :: "('w, 'm) net_scheme"
    assume t: "engine_wf t"
    obtain r u where u: "reconnect X i (Addr (nheap t a)) t = (r, u)" by (rule prod.exhaust)
    from wf_record [OF engine_wf_reconnectD [OF u t]] engine_wf_reconnectD [OF u t] t
    show "engine_wf (final (case err of None \<Rightarrow> Done () t | Some e \<Rightarrow> let addr = Addr (nheap t a) in
        if addr = [] then Done () t else (case reconnect X i addr t of
            (None, s2) \<Rightarrow> Done () s2 | (Some e', s2) \<Rightarrow> recordReconnectFailure X fn i s2)))"
      by (simp add: Let_def u split: option.split)
  qed
qed (simp add: checkHeartbeatAt_def wf)

lemma wf_checkHeartbeat: "engine_wf s \<Longrightarrow> engine_wf (final (checkHeartbeat X fn s))"
  unfolding checkHeartbeat_def by (rule final_foreach_inv) (auto intro: wf_checkHeartbeatAt)

lemma wf_healthTick: "engine_wf s \<Longrightarrow> engine_wf (final (healthTick X fn s))"
  unfolding healthTick_def
  by (rule final_andthen_inv [where P = engine_wf, OF wf_checkHeartbeat [OF engine_wf_ensureConnected]])
     (simp_all add: wf_checkAndTrigger engine_wf_shrink)

lemma wf_discoveryTick: "engine_wf s \<Longrightarrow> engine_wf (final (discoveryTick X s))"
  by (simp add: discoveryTick_def engine_wf_discover)

end

end
