(* ===== verification/EngineProps.thy ===== *)
theory EngineProps
  imports EngineInv
begin

text \<open>
  What the engine promises: which node a room gets, what the status report counts, when a node
  is dropped, and how the replica count moves. \<open>node_registry\<close> is the interface through which the
  room manager sees the engine.
\<close>

section \<open>Choosing a node\<close>

text \<open>A node that may take another room.\<close>

definition eligible :: "EngineNode \<Rightarrow> bool" where
  "eligible n \<longleftrightarrow> Healthy n \<and>
     ActiveRooms n < (if MaxCapacity n \<le> 0 then CppMaxInstance else MaxCapacity n)"

lemma notFull_iff: "notFull s i \<longleftrightarrow> (\<exists>a. getNode s i = Some a \<and> eligible (nheap s a))"
  by (auto simp: notFull_def eligible_def effectiveMax_def snapshot_def CppMaxInstance_def Let_def
      split: option.split)

lemma underLoad_iff: "underLoad s i \<longleftrightarrow> (\<exists>a. getNode s i = Some a \<and> f32_less (CPUUsage (nheap s a)) 70)"
  by (auto simp: underLoad_def snapshot_def split: option.split)

lemma getNode_indices: "getNode s i = Some a \<Longrightarrow> i \<in> set (snapshotPodIndices s)"
  by (auto simp: getNode_def snapshotPodIndices_def am.set_keys)

lemma pick_cases:
  assumes "pickPreferredNodeForRoom s r = Some a"
  obtains i where "getNode s i = Some a" "notFull s i"
    "underLoad s i \<or> (\<forall>j. notFull s j \<longrightarrow> \<not> underLoad s j)"
proof -
  let ?nf = "filter (notFull s) (snapshotPodIndices s)"
  let ?ul = "filter (underLoad s) ?nf"
  let ?c = "if ?ul = [] then ?nf else ?ul"
  have "?c \<noteq> []" and g: "GetNodeByPodIndex s (chooseByHash r ?c) = Inr a"
    using assms by (auto simp: pickPreferredNodeForRoom_def Let_def split: if_splits sum.splits)
  then have mem: "chooseByHash r ?c \<in> set ?c" by (intro chooseByHash_in)
  have "getNode s (chooseByHash r ?c) = Some a"
    using g by (auto simp: GetNodeByPodIndex_def split: option.splits)
  moreover have "notFull s (chooseByHash r ?c)" using mem by (auto split: if_splits)
  moreover have "underLoad s (chooseByHash r ?c) \<or> (\<forall>j. notFull s j \<longrightarrow> \<not> underLoad s j)"
  proof (cases "?ul = []")
    case True
    have "\<not> underLoad s j" if "notFull s j" for j
      using that True getNode_indices by (auto simp: notFull_iff filter_empty_conv)
    then show ?thesis by blast
  next
    case False
    then show ?thesis using mem by auto
  qed
  ultimately show thesis by (rule that)
qed

lemma pick_None_iff: "pickPreferredNodeForRoom s r = None \<longleftrightarrow> (\<forall>i. \<not> notFull s i)"
proof
  assume "\<forall>i. \<not> notFull s i"
  then show "pickPreferredNodeForRoom s r = None"
    by (simp add: pickPreferredNodeForRoom_def Let_def)
next
  assume none: "pickPreferredNodeForRoom s r = None"
  let ?nf = "filter (notFull s) (snapshotPodIndices s)"
  let ?ul = "filter (underLoad s) ?nf"
  let ?c = "if ?ul = [] then ?nf else ?ul"
  have "?nf = []"
  proof (rule ccontr)
    assume ne: "?nf \<noteq> []"
    then have "?c \<noteq> []" "snapshotPodIndices s \<noteq> []" by auto
    moreover from this have "chooseByHash r ?c \<in> set ?c" by (intro chooseByHash_in)
    then have "notFull s (chooseByHash r ?c)" by (auto split: if_splits)
    then obtain b where "GetNodeByPodIndex s (chooseByHash r ?c) = Inr b"
      by (auto simp: notFull_iff GetNodeByPodIndex_def)
    ultimately show False using none by (simp add: pickPreferredNodeForRoom_def Let_def)
  qed
  then show "\<forall>i. \<not> notFull s i"
    using getNode_indices by (auto simp: filter_empty_conv notFull_iff)
qed

text \<open>C35: A node chosen by load (\<open>pickPreferredNodeForRoom\<close>) is registered, healthy and below
  its capacity (10 when the pod reports none); and its CPU usage is below 70 percent unless no
  eligible node of the table is below 70 percent.\<close>

theorem preferred_node_is_eligible:
  assumes "pickPreferredNodeForRoom s r = Some a"
  shows "\<exists>i. getNode s i = Some a \<and> eligible (nheap s a)
    \<and> (f32_less (CPUUsage (nheap s a)) 70
       \<or> (\<forall>j b. getNode s j = Some b \<and> eligible (nheap s b) \<longrightarrow> \<not> f32_less (CPUUsage (nheap s b)) 70))"
  using pick_cases [OF assms] by (metis notFull_iff option.inject underLoad_iff)

text \<open>C34: \<open>GetNodeForRoom\<close> fails in exactly two situations, both only when no eligible node exists:
  no replicas are configured, or the pod the hash falls on is not in the table. In
  particular a room always gets a node when an eligible one exists.\<close>

theorem GetNodeForRoom_error_iff:
  "GetNodeForRoom s r = Inl e \<longleftrightarrow>
     (\<forall>i a. getNode s i = Some a \<longrightarrow> \<not> eligible (nheap s a))
     \<and> (replicas (eng s) \<le> 0 \<and> e = EEngine ENoReplicas
        \<or> 0 < replicas (eng s) \<and> getNode s (hashInt r mod replicas (eng s)) = None
          \<and> e = EEngine (EPodNotFound (hashInt r mod replicas (eng s))))"
proof (cases "pickPreferredNodeForRoom s r")
  case None
  then have "\<forall>i a. getNode s i = Some a \<longrightarrow> \<not> eligible (nheap s a)"
    by (auto simp: pick_None_iff notFull_iff)
  then show ?thesis using None
    by (auto simp: GetNodeForRoom_def hashRoom_def Let_def split: option.splits)
next
  case (Some a)
  from pick_cases [OF Some] have "\<exists>i a. getNode s i = Some a \<and> eligible (nheap s a)"
    by (metis notFull_iff)
  then show ?thesis using Some by (auto simp: GetNodeForRoom_def)
qed

text \<open>C36: The node a room gets does not depend on the order in which Go ranges over the node
  table: two tables with the same entries, listed in any order, give the same node.\<close>

theorem GetNodeForRoom_order_independent:
  assumes ok: "map_ok (nodes (eng s))"
    and perm: "mset (nodes e) = mset (nodes (eng s))" and repl: "replicas e = replicas (eng s)"
  shows "GetNodeForRoom (s\<lparr>eng := e\<rparr>) r = GetNodeForRoom s r"
proof -
  let ?t = "s\<lparr>eng := e\<rparr>"
  have m: "map_of (nodes e) = map_of (nodes (eng s))"
    using map_of_perm [OF ok perm [symmetric]] by simp
  then have get: "getNode ?t = getNode s" by (simp add: getNode_def fun_eq_iff)
  have nf: "notFull ?t = notFull s" and ul: "underLoad ?t = underLoad s"
    by (simp_all add: notFull_def underLoad_def get fun_eq_iff split: option.split)
  have gp: "GetNodeByPodIndex ?t = GetNodeByPodIndex s"
    by (simp add: GetNodeByPodIndex_def get fun_eq_iff)
  have ix: "mset (snapshotPodIndices ?t) = mset (snapshotPodIndices s)"
    using perm by (simp add: snapshotPodIndices_def mkeys_def)
  have flt: "mset (filter P (snapshotPodIndices ?t)) = mset (filter P (snapshotPodIndices s))" for P
    by (simp add: ix)
  have nil: "filter P (snapshotPodIndices ?t) = [] \<longleftrightarrow> filter P (snapshotPodIndices s) = []" for P
    using flt [of P] by (metis mset_zero_iff)
  have nil0: "snapshotPodIndices ?t = [] \<longleftrightarrow> snapshotPodIndices s = []"
    using ix by (metis mset_zero_iff)
  have ch: "chooseByHash r (filter P (snapshotPodIndices ?t)) = chooseByHash r (filter P (snapshotPodIndices s))" for P
    by (rule chooseByHash_perm [OF flt])
  have "pickPreferredNodeForRoom ?t r = pickPreferredNodeForRoom s r"
    unfolding pickPreferredNodeForRoom_def Let_def nf ul gp nil0
    by (simp only: filter_filter nil ch split: if_split)
       (simp add: nil ch)
  moreover have "hashRoom ?t r = hashRoom s r" by (simp add: hashRoom_def repl Let_def)
  ultimately show ?thesis unfolding GetNodeForRoom_def get by (simp add: repl split: option.split)
qed

section \<open>The interface of the room manager\<close>

locale node_registry =
  fixes lookup :: "'e \<Rightarrow> int \<Rightarrow> error + 'n"
    and pick :: "'e \<Rightarrow> string \<Rightarrow> error + 'n"
    and index :: "'e \<Rightarrow> 'n \<Rightarrow> int"
    and ok :: "'e \<Rightarrow> bool"
  assumes lookup_index: "ok e \<Longrightarrow> lookup e i = Inr n \<Longrightarrow> index e n = i"
    and pick_registered: "ok e \<Longrightarrow> pick e r = Inr n \<Longrightarrow> \<exists>i. lookup e i = Inr n"
begin

lemma pick_lookup: "ok e \<Longrightarrow> pick e r = Inr n \<Longrightarrow> lookup e (index e n) = Inr n"
  using pick_registered lookup_index by metis

lemma lookup_inj: "ok e \<Longrightarrow> lookup e i = Inr n \<Longrightarrow> lookup e j = Inr n \<Longrightarrow> i = j"
  using lookup_index by metis

end

lemma GetNodeByPodIndex_Inr [simp]: "GetNodeByPodIndex s i = Inr a \<longleftrightarrow> getNode s i = Some a"
  by (simp add: GetNodeByPodIndex_def split: option.split)

lemma GetNodeByPodIndex_Inl [simp]:
  "GetNodeByPodIndex s i = Inl e \<longleftrightarrow> getNode s i = None \<and> e = EEngine (EPodNotFound i)"
  by (auto simp: GetNodeByPodIndex_def split: option.split)

interpretation reg: node_registry GetNodeByPodIndex GetNodeForRoom
  "\<lambda>s a. PodIndex (nheap s a)" engine_wf
proof
  show "PodIndex (nheap s a) = i" if "engine_wf s" "GetNodeByPodIndex s i = Inr a"
    for s :: "('w, 'm) net_scheme" and a i
    using engine_wf_node that by (fastforce simp: node_ok_def)
  show "\<exists>i. GetNodeByPodIndex s i = Inr a" if "engine_wf s" "GetNodeForRoom s r = Inr a"
    for s :: "('w, 'm) net_scheme" and a r
    using that by (auto simp: GetNodeForRoom_def split: option.splits if_splits elim: pick_cases)
qed

section \<open>Status report\<close>

lemma set_mapFilter: "set (List.map_filter f xs) = {y. \<exists>x \<in> set xs. f x = Some y}"
  by (induction xs) (auto simp: map_filter_simps split: option.splits)

lemma status_nodes: "set (es_Nodes (GetStatus s)) =
    {snapshot (nheap s a) | i a. getNode s i = Some a \<and> (Healthy (nheap s a) \<or> ActiveRooms (nheap s a) \<noteq> 0)}"
  using getNode_indices
  by (fastforce simp: GetStatus_def Let_def snapshot_def set_mapFilter)

text \<open>The status report is consistent: the total is the number of listed nodes and the sum of
  the healthy and unhealthy counts, the healthy count is the number of listed nodes that are
  healthy; and exactly the nodes that are healthy or still hold rooms are listed.\<close>

lemma GetStatus_consistent:
  "es_Total (GetStatus s) = int (length (es_Nodes (GetStatus s)))
   \<and> es_Healthy (GetStatus s) + es_Unhealthy (GetStatus s) = es_Total (GetStatus s)
   \<and> es_Healthy (GetStatus s) = int (length (filter st_Healthy (es_Nodes (GetStatus s))))
   \<and> 0 \<le> es_Unhealthy (GetStatus s)
   \<and> set (es_Nodes (GetStatus s)) = {snapshot (nheap s a) | i a.
        getNode s i = Some a \<and> (Healthy (nheap s a) \<or> ActiveRooms (nheap s a) \<noteq> 0)}"
proof -
  have "length (filter st_Healthy (es_Nodes (GetStatus s))) \<le> length (es_Nodes (GetStatus s))"
    by (rule length_filter_le)
  then show ?thesis unfolding status_nodes by (simp add: GetStatus_def Let_def)
qed

section \<open>Replica count\<close>

lemma eng_reset [simp]: "eng (resetReconnectFailures i t) = eng t"
  by (simp add: resetReconnectFailures_def split: option.split)

lemma replicas_connect [simp]: "replicas (eng (snd (connectAndRegisterPod X i addr s))) = replicas (eng s)"
proof (cases "x_dial X addr (world s)")
  case (Pair r w)
  obtain a t where t: "ensureNode i (s\<lparr>world := w\<rparr>) = (a, t)" by (rule prod.exhaust)
  then have "replicas (eng t) = replicas (eng s)" by (auto simp: ensureNode_def split: option.splits)
  with Pair t show ?thesis
    by (simp add: connectAndRegisterPod_def Let_def split: sum.split prod.split)
qed

lemma replicas_connectD: "connectAndRegisterPod X i addr s = (r, t) \<Longrightarrow> replicas (eng t) = replicas (eng s)"
  using replicas_connect by (metis snd_conv)

lemma replicas_discoverPod: "replicas (eng (discoverPod X i s)) = replicas (eng s)"
proof (cases "getNode s i")
  case None
  let ?addr = "buildPodDNSAddr X (eng s) i"
  obtain r w where d: "x_dial X ?addr (world s) = (r, w)" by (rule prod.exhaust)
  show ?thesis
  proof (cases r)
    case (Inr c)
    obtain e t where t: "connectAndRegisterPod X i ?addr (closeClient X (Some c) (s\<lparr>world := w\<rparr>)) = (e, t)"
      by (rule prod.exhaust)
    from replicas_connectD [OF t] have "replicas (eng t) = replicas (eng s)" by simp
    then show ?thesis using None d Inr t
      by (simp add: discoverPod_def Let_def updateMaxPodIndex_def split: option.split)
  qed (simp add: None d discoverPod_def Let_def)
qed (simp add: discoverPod_def)

text \<open>Discovering pods never changes the replica count, whatever it finds (the comment in
  \<open>discoverNewPods\<close> says that it updates the replica count along with the largest index).\<close>

lemma discoverNewPods_keeps_replicas: "replicas (eng (discoverNewPods X s)) = replicas (eng s)"
proof -
  have "replicas (eng (fold (discoverPod X) js t)) = replicas (eng t)" for js t
    by (induction js arbitrary: t) (simp_all add: replicas_discoverPod)
  then show ?thesis by (simp add: discoverNewPods_def)
qed

definition healthyAt :: "('w, 'm) net_scheme \<Rightarrow> int \<Rightarrow> bool" where
  "healthyAt s i \<longleftrightarrow> (\<exists>a. getNode s i = Some a \<and> Healthy (nheap s a))"

lemma maxHealthy_fold:
  "fold (\<lambda>idx mx. if H idx \<and> idx > mx then idx else mx) js m = Max (insert m {i \<in> set js. H i})"
  for m :: int
proof (induction js arbitrary: m)
  case (Cons i js)
  have "Max (insert (if H i \<and> i > m then i else m) {j \<in> set js. H j}) = Max (insert m {j \<in> set (i # js). H j})"
  proof (cases "H i")
    case True
    have "{j \<in> set (i # js). H j} = insert i {j \<in> set js. H j}" using True by auto
    moreover have "Max (insert (max m i) A) = Max (insert m (insert i A))" if "finite A" for A
      using that by (cases "A = {}") (simp_all add: max.assoc)
    moreover have "(if H i \<and> i > m then i else m) = max m i" using True by (simp add: max_def)
    ultimately show ?thesis by (simp del: set_simps)
  next
    case False
    then have "{j \<in> set (i # js). H j} = {j \<in> set js. H j}" by auto
    then show ?thesis using False by simp
  qed
  with Cons show ?case by simp
qed simp

lemma maxHealthyIndex_eq:
  "maxHealthyIndex s = Max (insert (- 1) {i. \<exists>a. getNode s i = Some a \<and> Healthy (nheap s a)})"
proof -
  have "(\<lambda>idx mx. case getNode s idx of None \<Rightarrow> mx
      | Some a \<Rightarrow> if st_Healthy (snapshot (nheap s a)) \<and> idx > mx then idx else mx)
     = (\<lambda>idx mx. if healthyAt s idx \<and> idx > mx then idx else mx)"
    by (auto simp: fun_eq_iff healthyAt_def snapshot_def split: option.split)
  moreover have "{i \<in> set (snapshotPodIndices s). healthyAt s i}
      = {i. \<exists>a. getNode s i = Some a \<and> Healthy (nheap s a)}"
    using getNode_indices by (auto simp: healthyAt_def)
  ultimately show ?thesis unfolding maxHealthyIndex_def by (simp add: maxHealthy_fold)
qed

text \<open>Shrinking only lowers the replica count, and when it does, the new count is one more than
  the largest index of a healthy node, and the largest known pod index stays below it.\<close>

lemma shrink_spec:
  "let t = shrinkReplicaCountIfNeeded s; H = {i. \<exists>a. getNode s i = Some a \<and> Healthy (nheap s a)}
   in replicas (eng t) \<le> replicas (eng s)
    \<and> (replicas (eng t) \<noteq> replicas (eng s) \<longrightarrow>
        replicas (eng t) = Max (insert (- 1) H) + 1 \<and> 0 < replicas (eng t) \<and> maxPodIndex (eng t) < replicas (eng t))
    \<and> nodes (eng t) = nodes (eng s)"
  by (simp add: shrinkReplicaCountIfNeeded_def Let_def maxHealthyIndex_eq [symmetric])

section \<open>Dropping a node\<close>

lemma deleteNode_gone: "map_ok (nodes (eng s)) \<Longrightarrow> getNode (deleteNode X i s) i = None"
  by (simp add: deleteNode_def closeConn_def Let_def getNode_def closeClient_def upd_node_def
      split: option.split)

lemma deleteNode_closes: "getNode s i = Some a \<Longrightarrow> nclient (nheap (deleteNode X i s) a) = None"
  by (simp add: deleteNode_def closeConn_def Let_def split: option.split)

text \<open>C37: A node survives its first failed reconnection and is dropped at the second: then the
  failover callback runs first, on a state in which the node is still in the table, and only
  afterwards the node leaves the table and the hash ring and its connection is closed.\<close>

theorem second_failure_drops_node:
  assumes wf: "engine_wf s" and a: "getNode s i = Some a"
    and k: "0 \<le> reconnectFailures (nheap s a)"
  shows "let s1 = upd_node a (incrementReconnectFailures (x_now X (world s))) s in
     (reconnectFailures (nheap s a) = 0 \<longrightarrow>
        recordReconnectFailure X fn i s = Done () s1 \<and> getNode s1 i = Some a)
   \<and> (reconnectFailures (nheap s a) \<noteq> 0 \<longrightarrow>
        getNode s1 i = Some a \<and>
        recordReconnectFailure X fn i s
          = andthen (triggerReassignRooms fn s1) (\<lambda>_ s2. Done () (deleteNode X i s2))
      \<and> (\<forall>s2. triggerReassignRooms fn s1 = Done () s2 \<and> same_engine s2 s1 \<longrightarrow>
           (let t = deleteNode X i s2 in getNode t i = None \<and> nclient (nheap t a) = None
              \<and> map_of (Nodes (Mgr t)) i = None)))"
proof -
  let ?s1 = "upd_node a (incrementReconnectFailures (x_now X (world s))) s"
  have rec: "recordReconnectFailure X fn i s
      = andthen (if reconnectFailures (nheap s a) > 0 then triggerReassignRooms fn ?s1 else Done () ?s1)
          (\<lambda>_ s2. Done () (if reconnectFailures (nheap s a) \<ge> 1 then deleteNode X i s2 else s2))"
    using a by (simp add: recordReconnectFailure_def Let_def incrementReconnectFailures_def)
  have gone: "getNode (deleteNode X i s2) i = None \<and> nclient (nheap (deleteNode X i s2) a) = None
      \<and> map_of (Nodes (Mgr (deleteNode X i s2))) i = None" if "same_engine s2 ?s1" for s2
  proof -
    have wf2: "engine_wf s2" using wf by (simp add: engine_wf_same [OF that] engine_wf_upd_node)
    have "getNode s2 i = Some a" using that a by (simp add: same_engine_def getNode_def)
    with deleteNode_gone [OF engine_wf_ok [OF wf2], of X i] deleteNode_closes
      engine_wf_mirror [OF engine_wf_delete [OF wf2], of X i i]
    show ?thesis by simp
  qed
  show ?thesis using a k rec gone by (auto simp: Let_def)
qed

text \<open>No two pods share an address: the DNS address built for a pod determines its index.\<close>

lemma pod_addresses_distinct:
  "buildPodDNSAddr X e i = buildPodDNSAddr X e j \<longleftrightarrow> i = j"
proof
  assume "buildPodDNSAddr X e i = buildPodDNSAddr X e j"
  then have "Itoa i @ CHR ''.'' # headlessServiceName e @ ''.'' @ namespace e @ ''.svc.cluster.local:'' @ p
      = Itoa j @ CHR ''.'' # headlessServiceName e @ ''.'' @ namespace e @ ''.svc.cluster.local:'' @ p"
    if "p = getEnvString X ''K8S_ENGINE_PORT'' (Itoa CppStartPort)" for p
    using that by (simp add: buildPodDNSAddr_def Let_def)
  then have "Itoa i = Itoa j" by simp
  then show "i = j" by (simp add: Itoa_inject)
qed simp

end
