(* ===== verification/Store.thy ===== *)
theory Store
  imports Rpc
begin

text \<open>
  \<open>internal/store/redis_store.go\<close>: room snapshots and session bindings in Redis. The Redis
  server is the outside world (\<open>x_redis_set\<close>, \<open>x_redis_get\<close>, ...); the store adds key names, the
  JSON encoding of \<open>RoomSnapshot\<close>, argument checks and the SCAN loops. A SCAN loop ends when the
  server returns cursor 0, which the code cannot force: the loops are partial functions
  (\<open>None\<close>: the loop never ends).
\<close>

section \<open>Snapshots\<close>

type_synonym team_map = "(string, json) gomap"

record RoomSnapshot =
  sn_RoomID :: string
  sn_Status :: int
  sn_NodeID :: int
  sn_ServerID :: string
  sn_Players :: "string slice"
  sn_ReadyPlayers :: "(string, bool) gomap"
  sn_SelectedPokemon :: "(string, team_map slice) gomap"
  sn_UpdatedAt :: int

text \<open>\<open>RemainingTTL\<close> is kept as the duration in nanoseconds that \<open>Seconds()\<close> turns into a \<open>float64\<close>.\<close>

record DebugRoomInfo =
  di_Snapshot :: RoomSnapshot
  di_RemainingTTL :: int
  di_IsPersistent :: bool

definition zero_snapshot :: RoomSnapshot where
  "zero_snapshot = \<lparr>sn_RoomID = [], sn_Status = 0, sn_NodeID = 0, sn_ServerID = [],
     sn_Players = None, sn_ReadyPlayers = None, sn_SelectedPokemon = None, sn_UpdatedAt = 0\<rparr>"

definition enc_team :: "team_map slice \<Rightarrow> json" where
  "enc_team = enc_slice (enc_map enc_any)"

definition dec_team :: "team_map slice decoder" where
  "dec_team = dec_slice (dec_map dec_any JNull) None"

definition enc_RoomSnapshot :: "RoomSnapshot \<Rightarrow> json" where
  "enc_RoomSnapshot s = JObj (
     [(''room_id'', JStr (sn_RoomID s)), (''status'', jint (sn_Status s)), (''node_id'', jint (sn_NodeID s))]
     @ (if sn_ServerID s = [] then [] else [(''server_id'', JStr (sn_ServerID s))])
     @ [(''players'', enc_slice JStr (sn_Players s)),
        (''ready_players'', enc_map JBool (sn_ReadyPlayers s)),
        (''selected_pokemon'', enc_map enc_team (sn_SelectedPokemon s)),
        (''updated_at'', jint (sn_UpdatedAt s))])"

definition dec_RoomSnapshot :: "RoomSnapshot decoder" where
  "dec_RoomSnapshot = dec_struct
     [(''room_id'', dec_field sn_RoomID (\<lambda>v r. r\<lparr>sn_RoomID := v\<rparr>) dec_string),
      (''status'', dec_field sn_Status (\<lambda>v r. r\<lparr>sn_Status := v\<rparr>) dec_int),
      (''node_id'', dec_field sn_NodeID (\<lambda>v r. r\<lparr>sn_NodeID := v\<rparr>) dec_int),
      (''server_id'', dec_field sn_ServerID (\<lambda>v r. r\<lparr>sn_ServerID := v\<rparr>) dec_string),
      (''players'', dec_field sn_Players (\<lambda>v r. r\<lparr>sn_Players := v\<rparr>) (dec_slice dec_string [])),
      (''ready_players'', dec_field sn_ReadyPlayers (\<lambda>v r. r\<lparr>sn_ReadyPlayers := v\<rparr>) (dec_map dec_bool False)),
      (''selected_pokemon'', dec_field sn_SelectedPokemon (\<lambda>v r. r\<lparr>sn_SelectedPokemon := v\<rparr>)
         (dec_map dec_team None)),
      (''updated_at'', dec_field sn_UpdatedAt (\<lambda>v r. r\<lparr>sn_UpdatedAt := v\<rparr>) dec_int)]"

text \<open>\<open>json.Unmarshal\<close> of a Redis value: text the store printed itself, or other bytes.\<close>

definition parse_text :: "'w ext \<Rightarrow> rtext \<Rightarrow> json option" where
  "parse_text X t = (case t of TJson j \<Rightarrow> Some j | TBytes b \<Rightarrow> x_parse X b)"

definition unmarshal_snapshot :: "'w ext \<Rightarrow> rtext \<Rightarrow> RoomSnapshot \<times> bool" where
  "unmarshal_snapshot X t = (case parse_text X t of
      None \<Rightarrow> (zero_snapshot, False) | Some j \<Rightarrow> dec_RoomSnapshot j zero_snapshot)"

section \<open>Keys\<close>

definition roomKey :: "string \<Rightarrow> string" where
  "roomKey roomID = ''pokemon:room:'' @ roomID"

definition sessionKey :: "string \<Rightarrow> string" where
  "sessionKey userID = ''session:'' @ userID"

section \<open>Operations\<close>

definition SaveRoomSnapshot :: "'w ext \<Rightarrow> int \<Rightarrow> RoomSnapshot \<Rightarrow> 'w \<Rightarrow> error option \<times> 'w" where
  "SaveRoomSnapshot X ttl sn w =
     (if sn_RoomID sn = [] then (Some (EStore ERoomIDRequired), w)
      else let sn' = (if sn_UpdatedAt sn = 0 then sn\<lparr>sn_UpdatedAt := x_now X w\<rparr> else sn)
           in (case x_redis_set X (roomKey (sn_RoomID sn')) (TJson (enc_RoomSnapshot sn')) ttl w of
               (Some e, w') \<Rightarrow> (Some (EWrap ESave e), w')
             | (None, w') \<Rightarrow> (None, w')))"

definition LoadRoomSnapshot :: "'w ext \<Rightarrow> string \<Rightarrow> 'w \<Rightarrow> (error + RoomSnapshot) \<times> 'w" where
  "LoadRoomSnapshot X roomID w =
     (if roomID = [] then (Inl (EStore ERoomIDRequired), w)
      else (case x_redis_get X (roomKey roomID) w of
          (Inl e, w') \<Rightarrow> (Inl (EWrap ELoad e), w')
        | (Inr None, w') \<Rightarrow> (Inl (EStore ENotFound), w')
        | (Inr (Some t), w') \<Rightarrow> (case unmarshal_snapshot X t of
              (sn, True) \<Rightarrow> (Inr sn, w')
            | (_, False) \<Rightarrow> (Inl (EStore EUnmarshalSnapshot), w'))))"

definition DeleteRoomSnapshot :: "'w ext \<Rightarrow> string \<Rightarrow> 'w \<Rightarrow> error option \<times> 'w" where
  "DeleteRoomSnapshot X roomID w =
     (if roomID = [] then (Some (EStore ERoomIDRequired), w)
      else (case x_redis_del X (roomKey roomID) w of
          (Some e, w') \<Rightarrow> (Some (EWrap EDelete e), w')
        | (None, w') \<Rightarrow> (None, w')))"

definition SaveSessionBinding :: "'w ext \<Rightarrow> int \<Rightarrow> string \<Rightarrow> string \<Rightarrow> 'w \<Rightarrow> error option \<times> 'w" where
  "SaveSessionBinding X ttl userID roomID w =
     (if userID = [] then (Some (EStore EUserIDRequired), w)
      else if roomID = [] then (Some (EStore ERoomIDRequired), w)
      else (case x_redis_set X (sessionKey userID) (TBytes roomID) ttl w of
          (Some e, w') \<Rightarrow> (Some (EWrap ESave e), w')
        | (None, w') \<Rightarrow> (None, w')))"

definition LoadSessionBinding :: "'w ext \<Rightarrow> string \<Rightarrow> 'w \<Rightarrow> (error + rtext) \<times> 'w" where
  "LoadSessionBinding X userID w =
     (if userID = [] then (Inl (EStore EUserIDRequired), w)
      else (case x_redis_get X (sessionKey userID) w of
          (Inl e, w') \<Rightarrow> (Inl (EWrap ELoad e), w')
        | (Inr None, w') \<Rightarrow> (Inl (EStore ENotFound), w')
        | (Inr (Some t), w') \<Rightarrow> (Inr t, w')))"

definition DeleteSessionBinding :: "'w ext \<Rightarrow> string \<Rightarrow> 'w \<Rightarrow> error option \<times> 'w" where
  "DeleteSessionBinding X userID w =
     (if userID = [] then (Some (EStore EUserIDRequired), w)
      else (case x_redis_del X (sessionKey userID) w of
          (Some e, w') \<Rightarrow> (Some (EWrap EDelete e), w')
        | (None, w') \<Rightarrow> (None, w')))"

primrec loadKeys :: "'w ext \<Rightarrow> string list \<Rightarrow> RoomSnapshot list \<Rightarrow> 'w \<Rightarrow> (error + RoomSnapshot list) \<times> 'w" where
  "loadKeys X [] acc w = (Inr acc, w)"
| "loadKeys X (k # ks) acc w = (case x_redis_get X k w of
      (Inl e, w') \<Rightarrow> (Inl (EWrap ELoad e), w')
    | (Inr None, w') \<Rightarrow> loadKeys X ks acc w'
    | (Inr (Some t), w') \<Rightarrow> (case unmarshal_snapshot X t of (sn, ok) \<Rightarrow>
        if \<not> ok then (Inl (EStore EUnmarshalSnapshot), w')
        else if sn_RoomID sn = [] then loadKeys X ks acc w'
        else loadKeys X ks (acc @ [sn]) w'))"

partial_function (option) scanRooms ::
  "'w ext \<Rightarrow> nat \<Rightarrow> RoomSnapshot list \<Rightarrow> 'w \<Rightarrow> ((error + RoomSnapshot list) \<times> 'w) option" where
  "scanRooms X cursor acc w = (case x_redis_scan X cursor ''pokemon:room:*'' 100 w of
      (Inl e, w') \<Rightarrow> Some (Inl (EWrap EScan e), w')
    | (Inr (keys, nextCursor), w') \<Rightarrow> (case loadKeys X keys acc w' of
          (Inl e, w'') \<Rightarrow> Some (Inl e, w'')
        | (Inr acc', w'') \<Rightarrow> if nextCursor = 0 then Some (Inr acc', w'')
            else scanRooms X nextCursor acc' w''))"

definition ListRoomSnapshots :: "'w ext \<Rightarrow> 'w \<Rightarrow> ((error + RoomSnapshot list) \<times> 'w) option" where
  "ListRoomSnapshots X w = scanRooms X 0 [] w"

primrec inspectKeys :: "'w ext \<Rightarrow> string list \<Rightarrow> DebugRoomInfo list \<Rightarrow> 'w \<Rightarrow> DebugRoomInfo list \<times> 'w" where
  "inspectKeys X [] acc w = (acc, w)"
| "inspectKeys X (k # ks) acc w = (case x_redis_ttl X k w of (ttl, w1) \<Rightarrow>
     (case x_redis_get X k w1 of
        (Inr (Some t), w2) \<Rightarrow> inspectKeys X ks
           (acc @ [\<lparr>di_Snapshot = fst (unmarshal_snapshot X t), di_RemainingTTL = ttl,
             di_IsPersistent = (ttl = - 1)\<rparr>]) w2
      | (_, w2) \<Rightarrow> inspectKeys X ks acc w2))"

partial_function (option) scanInspect ::
  "'w ext \<Rightarrow> nat \<Rightarrow> DebugRoomInfo list \<Rightarrow> 'w \<Rightarrow> ((error + DebugRoomInfo list) \<times> 'w) option" where
  "scanInspect X cursor acc w = (case x_redis_scan X cursor ''pokemon:room:*'' 100 w of
      (Inl e, w') \<Rightarrow> Some (Inl e, w')
    | (Inr (keys, nextCursor), w') \<Rightarrow> (case inspectKeys X keys acc w' of (acc', w'') \<Rightarrow>
          if nextCursor = 0 then Some (Inr acc', w'') else scanInspect X nextCursor acc' w''))"

definition InspectAllRooms :: "'w ext \<Rightarrow> 'w \<Rightarrow> ((error + DebugRoomInfo list) \<times> 'w) option" where
  "InspectAllRooms X w = scanInspect X 0 [] w"

end
