(* ===== verification/Session.thy ===== *)
theory Session
  imports EngineProps Store
begin

text \<open>
  \<open>internal/room/session.go\<close>, the structs of \<open>internal/room/manager.go\<close> and \<open>room/player.go\<close>.

  \<open>'w server\<close> extends the engine's state with the room manager. Sessions and rooms are shared
  pointers in the code (a session sits in \<open>AllSessions\<close>, in the \<open>Sessions\<close> of a room, and in the
  goroutines of its connection), so both live in heaps, and the maps hold addresses. A
  session's \<open>Send\<close> channel is the list of its messages, at most 256; a goroutine that sends on a
  full channel blocks, while a broadcast drops the message. \<open>tasks\<close> are the goroutines that
  the room code has started and that have not finished.
\<close>

section \<open>State\<close>

record Session =
  sPlayer :: Player
  sRoomID :: string
  sConn :: "nat option"
  sSend :: "GameResponse list"
  sSelectedPokemon :: "poke_map slice"

record GameRoom =
  rID :: string
  rSessions :: "(string \<times> nat) list"
  rStatus :: int
  rNodeID :: int
  rReadyPlayers :: "(string \<times> bool) list"
  rEngineConn :: bool

definition RoomWaiting :: int where "RoomWaiting = 0"
definition RoomPlaying :: int where "RoomPlaying = 1"
definition RoomFinished :: int where "RoomFinished = 2"

lemmas status_defs = RoomWaiting_def RoomPlaying_def RoomFinished_def

text \<open>A goroutine of \<open>StartGame\<close> before it has a node, one between two RPC attempts, and one of
  \<open>sendDestroyRoomRequest\<close>.\<close>

datatype task = TStart nat int json | TStartTry nat nat json nat | TDestroy nat string

record 'w server = "'w net" +
  sheap :: "nat \<Rightarrow> Session"
  snext :: nat
  rheap :: "nat \<Rightarrow> GameRoom"
  rnext :: nat
  Rooms :: "(string \<times> nat) list"
  AllSessions :: "(string \<times> nat) list"
  rmStore :: bool
  rmEngine :: bool
  storeTTL :: int
  MatchQueue :: "nat list"
  tasks :: "task list"

definition sendCap :: nat where "sendCap = 256"

definition upd_sess :: "nat \<Rightarrow> (Session \<Rightarrow> Session) \<Rightarrow> 'w server \<Rightarrow> 'w server" where
  "upd_sess a f s = s\<lparr>sheap := (sheap s)(a := f (sheap s a))\<rparr>"

definition upd_room :: "nat \<Rightarrow> (GameRoom \<Rightarrow> GameRoom) \<Rightarrow> 'w server \<Rightarrow> 'w server" where
  "upd_room a f s = s\<lparr>rheap := (rheap s)(a := f (rheap s a))\<rparr>"

definition pid :: "'w server \<Rightarrow> nat \<Rightarrow> string" where
  "pid s a = ID (sPlayer (sheap s a))"

section \<open>Sessions\<close>

definition NewSession :: "Player \<Rightarrow> nat option \<Rightarrow> Session" where
  "NewSession p c = \<lparr>sPlayer = p, sRoomID = [], sConn = c, sSend = [], sSelectedPokemon = None\<rparr>"

text \<open>\<open>SendResponse\<close>: the data is given as the JSON it is marshalled to.\<close>

definition SendResponse :: "nat \<Rightarrow> string \<Rightarrow> int \<Rightarrow> msg \<Rightarrow> json \<Rightarrow> 'w server \<Rightarrow> (unit, 'w server) exec" where
  "SendResponse a cmd code msg data s =
     (if length (sSend (sheap s a)) < sendCap
      then Done () (upd_sess a (\<lambda>n. n\<lparr>sSend := sSend n @ [\<lparr>Cmd = cmd, Code = code, Msg = msg, Data = data\<rparr>]\<rparr>) s)
      else Stop Blocked s)"

definition offer :: "GameResponse \<Rightarrow> Session \<Rightarrow> Session" where
  "offer m n = (if length (sSend n) < sendCap then n\<lparr>sSend := sSend n @ [m]\<rparr> else n)"

definition BroadcastToRoom :: "nat \<Rightarrow> string \<Rightarrow> int \<Rightarrow> msg \<Rightarrow> json \<Rightarrow> 'w server \<Rightarrow> 'w server" where
  "BroadcastToRoom r cmd code msg data s =
     fold (\<lambda>e. upd_sess (snd e) (offer \<lparr>Cmd = cmd, Code = code, Msg = msg, Data = data\<rparr>))
       (rSessions (rheap s r)) s"

text \<open>One turn of \<open>WritePump\<close> for the connection \<open>c\<close> it was started with, on a non-empty channel:
  the message written to the connection, if any, and whether the pump goes on.\<close>

definition WritePump_turn :: "nat \<Rightarrow> nat \<Rightarrow> bool \<Rightarrow> 'w server \<Rightarrow> (GameResponse option \<times> bool) \<times> 'w server" where
  "WritePump_turn a c writeOk s = (case sSend (sheap s a) of
      [] \<Rightarrow> ((None, True), s)
    | m # ms \<Rightarrow> (let s1 = upd_sess a (\<lambda>n. n\<lparr>sSend := ms\<rparr>) s in
        if sConn (sheap s a) \<noteq> Some c then ((None, False), s1)
        else if writeOk then ((Some m, True), s1) else ((None, False), s1)))"

section \<open>Frame lemmas\<close>

lemma upd_sess_simps [simp]:
  "sheap (upd_sess a f s) = (sheap s)(a := f (sheap s a))" "snext (upd_sess a f s) = snext s"
  "rheap (upd_sess a f s) = rheap s" "rnext (upd_sess a f s) = rnext s"
  "Rooms (upd_sess a f s) = Rooms s" "AllSessions (upd_sess a f s) = AllSessions s"
  "tasks (upd_sess a f s) = tasks s" "world (upd_sess a f s) = world s"
  "eng (upd_sess a f s) = eng s" "nheap (upd_sess a f s) = nheap s" "nnext (upd_sess a f s) = nnext s"
  "Mgr (upd_sess a f s) = Mgr s" "loops (upd_sess a f s) = loops s"
  "rmEngine (upd_sess a f s) = rmEngine s" "rmStore (upd_sess a f s) = rmStore s"
  "MatchQueue (upd_sess a f s) = MatchQueue s" "storeTTL (upd_sess a f s) = storeTTL s"
  by (simp_all add: upd_sess_def)

lemma upd_room_simps [simp]:
  "rheap (upd_room a g s) = (rheap s)(a := g (rheap s a))" "rnext (upd_room a g s) = rnext s"
  "sheap (upd_room a g s) = sheap s" "snext (upd_room a g s) = snext s"
  "Rooms (upd_room a g s) = Rooms s" "AllSessions (upd_room a g s) = AllSessions s"
  "tasks (upd_room a g s) = tasks s" "world (upd_room a g s) = world s"
  "eng (upd_room a g s) = eng s" "nheap (upd_room a g s) = nheap s" "nnext (upd_room a g s) = nnext s"
  "Mgr (upd_room a g s) = Mgr s" "loops (upd_room a g s) = loops s"
  "rmEngine (upd_room a g s) = rmEngine s" "rmStore (upd_room a g s) = rmStore s"
  "MatchQueue (upd_room a g s) = MatchQueue s" "storeTTL (upd_room a g s) = storeTTL s"
  by (simp_all add: upd_room_def)

text \<open>What sending keeps: everything but the \<open>Send\<close> fields of sessions.\<close>

definition same_sess :: "Session \<Rightarrow> Session \<Rightarrow> bool" where
  "same_sess n n' \<longleftrightarrow> sPlayer n' = sPlayer n \<and> sRoomID n' = sRoomID n \<and> sConn n' = sConn n
     \<and> sSelectedPokemon n' = sSelectedPokemon n
     \<and> (length (sSend n) \<le> sendCap \<longrightarrow> length (sSend n') \<le> sendCap)"

definition only_sends :: "'w server \<Rightarrow> 'w server \<Rightarrow> bool" where
  "only_sends s t \<longleftrightarrow> (\<exists>h. t = s\<lparr>sheap := h\<rparr> \<and> (\<forall>a. same_sess (sheap s a) (h a)))"

lemma only_sendsD:
  assumes "only_sends s t"
  shows "snext t = snext s" "rheap t = rheap s" "rnext t = rnext s" "Rooms t = Rooms s"
    "AllSessions t = AllSessions s" "tasks t = tasks s" "world t = world s" "eng t = eng s"
    "nheap t = nheap s" "nnext t = nnext s" "Mgr t = Mgr s" "loops t = loops s"
    "rmEngine t = rmEngine s" "rmStore t = rmStore s" "MatchQueue t = MatchQueue s" "storeTTL t = storeTTL s"
    "same_sess (sheap s a) (sheap t a)"
  using assms by (auto simp: only_sends_def)

lemma only_sends_sess:
  assumes "only_sends s t"
  shows "sPlayer (sheap t a) = sPlayer (sheap s a)" "sRoomID (sheap t a) = sRoomID (sheap s a)"
    "sConn (sheap t a) = sConn (sheap s a)" "sSelectedPokemon (sheap t a) = sSelectedPokemon (sheap s a)"
    "length (sSend (sheap s a)) \<le> sendCap \<Longrightarrow> length (sSend (sheap t a)) \<le> sendCap"
  using only_sendsD(17) [OF assms, of a] by (simp_all add: same_sess_def)

lemma only_sends_refl [simp]: "only_sends s s"
  by (auto simp: only_sends_def same_sess_def intro!: exI [of _ "sheap s"])

lemma only_sends_trans: "only_sends s t \<Longrightarrow> only_sends t u \<Longrightarrow> only_sends s u"
  by (auto simp: only_sends_def same_sess_def)

lemma only_sends_upd:
  assumes "\<And>n. same_sess n (f n)" shows "only_sends s (upd_sess a f s)"
  unfolding only_sends_def upd_sess_def
  by (rule exI [of _ "(sheap s)(a := f (sheap s a))"]) (use assms in \<open>auto simp: same_sess_def\<close>)

lemma only_sends_offer: "only_sends s (upd_sess a (offer m) s)"
  by (rule only_sends_upd) (auto simp: offer_def same_sess_def)

lemma only_sends_Broadcast: "only_sends s (BroadcastToRoom r cmd code msg data s)"
proof -
  have "only_sends s (fold (\<lambda>e. upd_sess (snd e) (offer m)) es s)" for m es
    by (induction es arbitrary: s) (auto intro: only_sends_trans [OF only_sends_offer])
  then show ?thesis by (simp add: BroadcastToRoom_def)
qed

lemma only_sends_SendResponse: "only_sends s (final (SendResponse a cmd code msg data s))"
proof (cases "length (sSend (sheap s a)) < sendCap")
  case True
  then have "SendResponse a cmd code msg data s = Done () (upd_sess a (offer \<lparr>Cmd = cmd, Code = code, Msg = msg, Data = data\<rparr>) s)"
    by (simp add: SendResponse_def upd_sess_def offer_def)
  then show ?thesis by (simp add: only_sends_offer)
qed (simp add: SendResponse_def)

end
