(* ===== verification/Room.thy ===== *)
theory Room
  imports Session
begin

text \<open>
  \<open>internal/room/manager.go\<close> (all but the restore and failover functions, which are in theory
  \<open>Failover\<close>) and \<open>internal/room/match.go\<close>: creating, joining, leaving and destroying rooms, the
  session registry, and the match worker. An operation is one step; what it sends before it
  blocks or panics is kept in the state of its outcome.
\<close>

section \<open>Room ids\<close>

definition hexDigit :: "nat \<Rightarrow> char" where
  "hexDigit n = ''0123456789abcdef'' ! (n mod 16)"

definition hexEncode :: "string \<Rightarrow> string" where
  "hexEncode bs = concat (List.map (\<lambda>b. [hexDigit (of_char b div 16), hexDigit (of_char b)]) bs)"

definition generateRoomID :: "'w ext \<Rightarrow> 'w \<Rightarrow> string \<times> 'w" where
  "generateRoomID X w = (case x_rand X w of
      (Some buf, w') \<Rightarrow> (hexEncode buf, w')
    | (None, w') \<Rightarrow> (''room-'' @ Itoa (x_now X w'), w'))"

text \<open>The loop of \<open>CreateRoom\<close>; \<open>None\<close> when every drawn id is taken, for ever.\<close>

partial_function (option) freshRoomID :: "'w ext \<Rightarrow> (string \<times> nat) list \<Rightarrow> 'w \<Rightarrow> (string \<times> 'w) option" where
  "freshRoomID X rooms w = (case generateRoomID X w of (roomID, w') \<Rightarrow>
     if map_of rooms roomID = None then Some (roomID, w') else freshRoomID X rooms w')"

section \<open>Create and join\<close>

definition new_room :: "string \<Rightarrow> bool \<Rightarrow> GameRoom" where
  "new_room roomID hasEngine = \<lparr>rID = roomID, rSessions = [], rStatus = RoomWaiting, rNodeID = 0,
     rReadyPlayers = [], rEngineConn = hasEngine\<rparr>"

definition enterRoom :: "nat \<Rightarrow> string \<Rightarrow> nat \<Rightarrow> 'w server \<Rightarrow> 'w server" where
  "enterRoom r roomID a s =
     (let s1 = upd_sess a (\<lambda>n. n\<lparr>sRoomID := roomID\<rparr>) s
      in upd_room r (\<lambda>g. g\<lparr>rSessions := AList.update (pid s a) a (rSessions g),
           rReadyPlayers := AList.update (pid s a) False (rReadyPlayers g)\<rparr>) s1)"

definition CreateRoom :: "'w ext \<Rightarrow> nat \<Rightarrow> 'w server \<Rightarrow> (string \<times> bool, 'w server) exec" where
  "CreateRoom X a s = (case freshRoomID X (Rooms s) (world s) of
      None \<Rightarrow> Stop Diverged s
    | Some (roomID, w) \<Rightarrow>
        (let r = rnext s;
             s1 = s\<lparr>world := w, rheap := (rheap s)(r := new_room roomID (rmEngine s)), rnext := Suc r,
                    Rooms := AList.update roomID r (Rooms s)\<rparr>;
             s2 = enterRoom r roomID a s1
         in andthen (SendResponse a ''create_room_res'' CodeSuccess (MRoom RoomCreated)
                (JObj [(''room_id'', JStr roomID)]) s2)
              (\<lambda>_ s3. Done (roomID, True) s3)))"

definition JoinRoom :: "string \<Rightarrow> nat \<Rightarrow> 'w server \<Rightarrow> (bool \<times> string, 'w server) exec" where
  "JoinRoom roomID a s = (case map_of (Rooms s) roomID of
      None \<Rightarrow> andthen (SendResponse a ''join_room_res'' CodeRoomNotExist (MRoom CheckRoomNumber) JNull s)
        (\<lambda>_ s1. Done (False, ''Room does not exist'') s1)
    | Some r \<Rightarrow>
        if map_of (rSessions (rheap s r)) (pid s a) \<noteq> None
        then andthen (SendResponse a ''join_room_res'' CodeSendDuplicate (MRoom AlreadyInRoom) JNull s)
          (\<lambda>_ s1. Done (False, ''Duplicate cmd message'') s1)
        else if rStatus (rheap s r) \<noteq> RoomWaiting
        then andthen (SendResponse a ''join_room_res'' CodeRoomFull (MRoom RoomStartedOrEnded) JNull s)
          (\<lambda>_ s1. Done (False, ''Room started or finished'') s1)
        else if length (rSessions (rheap s r)) \<ge> MaxPlayersPerRoom
        then andthen (SendResponse a ''join_room_res'' CodeRoomFull (MRoom RoomFull) JNull s)
          (\<lambda>_ s1. Done (False, ''Room is full'') s1)
        else let s1 = enterRoom r roomID a s in
          andthen (SendResponse a ''join_room_res'' CodeSuccess (MRoom Joined) JNull s1)
            (\<lambda>_ s2. Done (True, [])
               (BroadcastToRoom r ''join_room'' CodeSuccess (MRoom (PlayerJoined (pid s2 a))) JNull s2)))"

section \<open>Destroying rooms\<close>

text \<open>Up to three attempts of \<open>sendDestroyRoomRequestSync\<close>.\<close>

primrec destroyAttempts :: "'w ext \<Rightarrow> nat \<Rightarrow> string \<Rightarrow> nat \<Rightarrow> 'w server \<Rightarrow> (bool, 'w server) exec" where
  "destroyAttempts X na roomID 0 s = Done False s"
| "destroyAttempts X na roomID (Suc k) s =
     (case CallDestroyRoom X (nclient (nheap s na)) roomID (world s) of
        None \<Rightarrow> Stop Panicked s
      | Some (Inl e, w) \<Rightarrow> destroyAttempts X na roomID k (s\<lparr>world := w\<rparr>)
      | Some (Inr resp, w) \<Rightarrow>
          if resp_Code resp \<noteq> 0 then destroyAttempts X na roomID k (s\<lparr>world := w\<rparr>)
          else Done True (s\<lparr>world := w\<rparr>))"

definition sendDestroyRoomRequestSync :: "'w ext \<Rightarrow> string \<Rightarrow> int \<Rightarrow> 'w server \<Rightarrow> (bool, 'w server) exec" where
  "sendDestroyRoomRequestSync X roomID nodeID s =
     (if \<not> rmEngine s then Done False s
      else (case GetNodeByPodIndex s nodeID of
          Inl e \<Rightarrow> Done False s
        | Inr na \<Rightarrow> destroyAttempts X na roomID 3 s))"

definition sendDestroyRoomRequest :: "string \<Rightarrow> int \<Rightarrow> 'w server \<Rightarrow> 'w server" where
  "sendDestroyRoomRequest roomID nodeID s =
     (if \<not> rmEngine s then s
      else (case GetNodeByPodIndex s nodeID of
          Inl e \<Rightarrow> s
        | Inr na \<Rightarrow> s\<lparr>tasks := tasks s @ [TDestroy na roomID]\<rparr>))"

text \<open>The goroutine it starts; a panic in it is recovered, so it only reaches the outside world.\<close>

definition runDestroy :: "'w ext \<Rightarrow> nat \<Rightarrow> string \<Rightarrow> 'w server \<Rightarrow> 'w server" where
  "runDestroy X na roomID s = (case CallDestroyRoom X (nclient (nheap s na)) roomID (world s) of
      None \<Rightarrow> s | Some (_, w) \<Rightarrow> s\<lparr>world := w\<rparr>)"

definition forgetRoom :: "string \<Rightarrow> 'w server \<Rightarrow> 'w server" where
  "forgetRoom roomID s = s\<lparr>Rooms := AList.delete roomID (Rooms s)\<rparr>"

definition DeleteRoom :: "'w ext \<Rightarrow> string \<Rightarrow> 'w server \<Rightarrow> (unit, 'w server) exec" where
  "DeleteRoom X roomID s = (case map_of (Rooms s) roomID of
      None \<Rightarrow> Done () s
    | Some r \<Rightarrow>
        if rStatus (rheap s r) \<noteq> RoomWaiting
        then andthen (sendDestroyRoomRequestSync X roomID (rNodeID (rheap s r)) s)
          (\<lambda>ok s1. if ok then Done () (forgetRoom roomID s1) else Done () (forgetRoom roomID s1))
        else Done () (forgetRoom roomID s))"

definition DestroyAllRooms :: "'w server \<Rightarrow> 'w server" where
  "DestroyAllRooms s =
     (let roomsToDestroy = List.map (\<lambda>e. (fst e, rNodeID (rheap s (snd e)))) (Rooms s);
          s1 = fold (\<lambda>e. sendDestroyRoomRequest (fst e) (snd e)) roomsToDestroy s
      in s1\<lparr>Rooms := []\<rparr>)"

section \<open>Leaving\<close>

definition LeaveRoom :: "'w ext \<Rightarrow> string \<Rightarrow> nat \<Rightarrow> 'w server \<Rightarrow> (unit, 'w server) exec" where
  "LeaveRoom X roomID a s = (case map_of (Rooms s) roomID of
      None \<Rightarrow> SendResponse a ''leave_room_res'' CodeRoomNotExist (MRoom RoomNotExist) JNull s
    | Some r \<Rightarrow>
        (let p = pid s a;
             s1 = upd_room r (\<lambda>g. g\<lparr>rSessions := AList.delete p (rSessions g),
                    rReadyPlayers := AList.delete p (rReadyPlayers g)\<rparr>) s;
             remainingCount = length (rSessions (rheap s1 r));
             s2 = upd_sess a (\<lambda>n. n\<lparr>sRoomID := []\<rparr>) s1
         in if remainingCount = 0 then DeleteRoom X roomID s2
            else let s3 = BroadcastToRoom r (''Player Left! (playerID: '' @ p @ '')'') CodeSuccess
                       (MRoom (PlayerLeft p)) JNull s2
              in if rStatus (rheap s3 r) = RoomPlaying
                 then Done () (BroadcastToRoom r ''room_status_change'' CodeSuccess (MRoom StoppedByLeave) JNull
                        (upd_room r (\<lambda>g. g\<lparr>rStatus := RoomFinished\<rparr>) s3))
                 else Done () s3))"

section \<open>Queries\<close>

definition GetRooms :: "'w server \<Rightarrow> (string \<times> bool) list" where
  "GetRooms s = List.map (\<lambda>e. (fst e, length (rSessions (rheap s (snd e))) \<ge> 2)) (Rooms s)"

definition enc_RoomInfo :: "string \<times> bool \<Rightarrow> json" where
  "enc_RoomInfo i = JObj [(''room_id'', JStr (fst i)), (''is_full'', JBool (snd i))]"

definition GetPlayersInRoom :: "nat \<Rightarrow> 'w server \<Rightarrow> Player list" where
  "GetPlayersInRoom r s = List.map (\<lambda>e. sPlayer (sheap s (snd e))) (rSessions (rheap s r))"

definition GetSnapshot :: "nat \<Rightarrow> 'w server \<Rightarrow> ReconnectResponse" where
  "GetSnapshot r s = \<lparr>rr_RoomID = rID (rheap s r), rr_RoomState = rStatus (rheap s r),
     rr_Players = List.map (\<lambda>e. sPlayer (sheap s (snd e))) (rSessions (rheap s r)),
     rr_GameData = JObj [(''status'', JStr ''waiting_cpp_integration'')]\<rparr>"

section \<open>Session registry\<close>

definition FindSession :: "string \<Rightarrow> 'w server \<Rightarrow> nat option" where
  "FindSession uid s = map_of (AllSessions s) uid"

definition RegisterSession :: "string \<Rightarrow> nat \<Rightarrow> 'w server \<Rightarrow> 'w server" where
  "RegisterSession uid a s = s\<lparr>AllSessions := AList.update uid a (AllSessions s)\<rparr>"

definition CleanUpIfStillOffline :: "'w ext \<Rightarrow> string \<Rightarrow> 'w server \<Rightarrow> (unit, 'w server) exec" where
  "CleanUpIfStillOffline X uid s = (case map_of (AllSessions s) uid of
      None \<Rightarrow> Done () s
    | Some a \<Rightarrow>
        if sConn (sheap s a) \<noteq> None then Done () s
        else let roomID = sRoomID (sheap s a);
                 s1 = s\<lparr>AllSessions := AList.delete uid (AllSessions s)\<rparr>
          in if roomID \<noteq> [] then LeaveRoom X roomID a s1 else Done () s1)"

definition SyncRoomState :: "nat \<Rightarrow> 'w server \<Rightarrow> (unit, 'w server) exec" where
  "SyncRoomState a s = (case map_of (Rooms s) (sRoomID (sheap s a)) of
      None \<Rightarrow> SendResponse a ''reconnect_error'' 404 (MRoom RoomDestroyed) JNull s
    | Some r \<Rightarrow>
        andthen (SendResponse a ''reconnect_res'' CodeSuccess (MRoom StateRestored)
            (enc_ReconnectResponse (GetSnapshot r s)) s)
          (\<lambda>_ s1. Done () (BroadcastToRoom r ''player_reconnect'' CodeSuccess
             (MRoom (PlayerReconnected (pid s1 a))) (JObj [(''uid'', JStr (pid s1 a))]) s1)))"

section \<open>Matching\<close>

text \<open>One turn of \<open>StartMatchWorker\<close> with two sessions in the queue.\<close>

definition matchTurn :: "'w ext \<Rightarrow> 'w server \<Rightarrow> (unit, 'w server) exec" where
  "matchTurn X s = (case MatchQueue s of
      p1 # p2 # q \<Rightarrow>
        andthen (CreateRoom X p1 (s\<lparr>MatchQueue := q\<rparr>)) (\<lambda>_ s1.
        andthen (JoinRoom (sRoomID (sheap s1 p1)) p2 s1) (\<lambda>_ s2. Done () s2))
    | _ \<Rightarrow> Stop Blocked s)"

end
