(* ===== verification/Game.thy ===== *)
theory Game
  imports Room
begin

text \<open>
  \<open>internal/room/game.go\<close>: choosing pokemon, starting a game, the goroutine that creates the
  room on an engine node, and forwarding battle actions.

  The goroutine of \<open>StartGame\<close> is cut where other goroutines can run: \<open>TStart\<close> before it looks
  its node up, \<open>TStartTry\<close> before each RPC attempt (it sleeps a second between two attempts and
  reads the client of the node it holds anew each time).
\<close>

section \<open>The initial battle state\<close>

definition enc_side :: "'w server \<Rightarrow> nat \<Rightarrow> json" where
  "enc_side s a = JObj [(''name'', JStr (pid s a)),
     (''pokemon'', enc_slice enc_poke_map (sSelectedPokemon (sheap s a)))]"

definition buildBattleInitJSON :: "string \<Rightarrow> nat list \<Rightarrow> 'w server \<Rightarrow> error + json" where
  "buildBattleInitJSON roomID sessions s =
     (if length sessions < 2 then Inl ESessionsFew
      else let sorted = sort_key (pid s) sessions;
               seed = hashInt roomID
           in Inr (enc_any (JObj [(''side_a'', enc_side s (sorted ! 0)),
                (''side_b'', enc_side s (sorted ! 1)), (''seed'', jint seed)])))"

section \<open>Starting a game\<close>

definition handleStartError :: "nat \<Rightarrow> start_msg \<Rightarrow> 'w server \<Rightarrow> 'w server" where
  "handleStartError r reason s = BroadcastToRoom r ''game_start_error'' CodeCppRPCError (MStart reason) JNull
     (upd_room r (\<lambda>g. g\<lparr>rStatus := RoomWaiting\<rparr>) s)"

definition StartGame :: "nat \<Rightarrow> 'w server \<Rightarrow> (unit, 'w server) exec" where
  "StartGame r s =
     (if rStatus (rheap s r) \<noteq> RoomWaiting then Done () s
      else let sessions = List.map snd (rSessions (rheap s r));
               s1 = upd_room r (\<lambda>g. g\<lparr>rStatus := RoomPlaying\<rparr>) s
        in if length sessions < 2 then Done () (handleStartError r TooFewPlayers s1)
        else (case buildBattleInitJSON (rID (rheap s1 r)) sessions s1 of
            Inl e \<Rightarrow> Done () (handleStartError r (InitJSONFailed e) s1)
          | Inr initJSON \<Rightarrow>
              if \<not> rEngineConn (rheap s1 r) then Stop Panicked s1
              else (case GetNodeForRoom s1 (rID (rheap s1 r)) of
                  Inl e \<Rightarrow> Done () (handleStartError r (AllocFailed e) s1)
                | Inr na \<Rightarrow>
                    (let s2 = upd_room r (\<lambda>g. g\<lparr>rNodeID := PodIndex (nheap s1 na)\<rparr>) s1;
                         targetNodeID = rNodeID (rheap s2 r)
                     in Done () (s2\<lparr>tasks := tasks s2 @ [TStart r targetNodeID initJSON]\<rparr>)))))"

text \<open>The goroutine: its lookup of the node, then one attempt at a time. The result holds the
  state and what is left to run.\<close>

definition runStart :: "nat \<Rightarrow> int \<Rightarrow> json \<Rightarrow> 'w server \<Rightarrow> (task option, 'w server) exec" where
  "runStart r targetNodeID initJSON s = (case GetNodeByPodIndex s targetNodeID of
      Inr na \<Rightarrow> Done (Some (TStartTry r na initJSON 1)) s
    | Inl _ \<Rightarrow> (case GetNodeForRoom s (rID (rheap s r)) of
          Inl e \<Rightarrow> Done None (handleStartError r (NoNode e) s)
        | Inr na \<Rightarrow> Done (Some (TStartTry r na initJSON 1)) s))"

definition maxRetries :: nat where "maxRetries = 3"

definition runStartTry :: "'w ext \<Rightarrow> nat \<Rightarrow> nat \<Rightarrow> json \<Rightarrow> nat \<Rightarrow> 'w server \<Rightarrow> (task option, 'w server) exec" where
  "runStartTry X r na initJSON attempt s =
     (case CallCreateRoom X (nclient (nheap s na)) (rID (rheap s r)) initJSON (world s) of
        None \<Rightarrow> Stop Panicked s
      | Some (res, w) \<Rightarrow>
          (let s1 = s\<lparr>world := w\<rparr> in
           case res of
             Inr resp \<Rightarrow>
               if resp_Code resp = 0
               then Done None (BroadcastToRoom r ''game_started'' CodeSuccess (MStart GameStarted) JNull s1)
               else if attempt < maxRetries then Done (Some (TStartTry r na initJSON (Suc attempt))) s1
               else Done None (handleStartError r (RespFailed (resp_Code resp) (resp_Message resp)) s1)
           | Inl rpcErr \<Rightarrow>
               if attempt < maxRetries then Done (Some (TStartTry r na initJSON (Suc attempt))) s1
               else Done None (handleStartError r (CallFailed rpcErr) s1)))"

definition StartGameForSession :: "nat \<Rightarrow> 'w server \<Rightarrow> (unit, 'w server) exec" where
  "StartGameForSession a s =
     (if sRoomID (sheap s a) = []
      then SendResponse a ''start_game_res'' CodeRoomNotExist (MRoom NotInRoom) JNull s
      else (case map_of (Rooms s) (sRoomID (sheap s a)) of
          None \<Rightarrow> SendResponse a ''start_game_res'' CodeRoomNotExist (MRoom RoomNotExist) JNull s
        | Some r \<Rightarrow> StartGame r s))"

section \<open>Battle actions\<close>

definition battleSideForPlayer :: "nat \<Rightarrow> string \<Rightarrow> 'w server \<Rightarrow> string option" where
  "battleSideForPlayer r playerID s =
     (let playerIDs = sort (mkeys (rSessions (rheap s r))) in
      if playerIDs = [] then None
      else if length playerIDs < 2 then (if playerIDs ! 0 = playerID then Some ''a'' else None)
      else if playerID = playerIDs ! 0 then Some ''a''
      else if playerID = playerIDs ! 1 then Some ''b''
      else None)"

text \<open>A JSON \<open>null\<close> leaves the map \<open>action\<close> nil, and writing to a nil map panics.\<close>

definition injectBattleSide :: "nat \<Rightarrow> raw \<Rightarrow> string \<Rightarrow> 'w server \<Rightarrow> (error + json, 'w server) exec" where
  "injectBattleSide r rawAction playerID s = (case battleSideForPlayer r playerID s of
      None \<Rightarrow> Done (Inl EPlayerSide) s
    | Some side \<Rightarrow> (case unmarshal_raw (dec_map dec_any JNull) rawAction None of
          (action, False) \<Rightarrow> Done (Inl EUnmarshal) s
        | (None, True) \<Rightarrow> Stop Panicked s
        | (Some action, True) \<Rightarrow>
            Done (Inr (enc_any (JObj (AList.update ''side'' (JStr side) action)))) s))"

definition go_bool :: "(string, json) gomap \<Rightarrow> string \<Rightarrow> bool" where
  "go_bool m k = (case m of None \<Rightarrow> False | Some kvs \<Rightarrow> map_of kvs k = Some (JBool True))"

definition enc_any_map :: "(string, json) gomap \<Rightarrow> json" where
  "enc_any_map m = (case m of None \<Rightarrow> JNull | Some kvs \<Rightarrow> enc_any (JObj kvs))"

definition parseTurn :: "'w ext \<Rightarrow> string \<Rightarrow> (string, json) gomap" where
  "parseTurn X message = (case x_parse X message of
      None \<Rightarrow> Some [(''raw'', JStr message)]
    | Some j \<Rightarrow> (case dec_map dec_any JNull j None of
          (m, True) \<Rightarrow> m
        | (_, False) \<Rightarrow> Some [(''raw'', JStr message)]))"

definition reportTurn :: "'w ext \<Rightarrow> nat \<Rightarrow> nat \<Rightarrow> string \<Rightarrow> 'w server \<Rightarrow> (unit, 'w server) exec" where
  "reportTurn X r a message s =
     (let turnResult = parseTurn X message in
      if go_bool turnResult ''waiting''
      then let t1 = the turnResult;
               t2 = (case battleSideForPlayer r (pid s a) s of
                       Some completedSide \<Rightarrow> AList.update ''completed_side'' (JStr completedSide) t1
                     | None \<Rightarrow> t1);
               t3 = AList.update ''completed_player_id'' (JStr (pid s a)) t2
        in andthen (SendResponse a ''battle_action_res'' CodeSuccess (MBattle ActionWaiting) (enc_any (JObj t3)) s)
             (\<lambda>_ s1. Done () (BroadcastToRoom r ''battle_state_push'' CodeSuccess (MBattle OpponentWaiting)
                (enc_any (JObj t3)) s1))
      else andthen (SendResponse a ''battle_action_res'' CodeSuccess (MBattle ActionDone) (enc_any_map turnResult) s)
             (\<lambda>_ s1. Done () (BroadcastToRoom r ''battle_state_push'' CodeSuccess (MBattle BattleUpdate)
                (enc_any_map turnResult) s1)))"

definition forwardBattleAction :: "'w ext \<Rightarrow> nat \<Rightarrow> nat \<Rightarrow> raw \<Rightarrow> 'w server \<Rightarrow> (unit, 'w server) exec" where
  "forwardBattleAction X r a rawAction s =
     (let status = rStatus (rheap s r);
          targetNodeID = rNodeID (rheap s r);
          inRoom = map_of (rSessions (rheap s r)) (pid s a) \<noteq> None;
          reply = (\<lambda>code m. SendResponse a ''battle_action_res'' code m JNull)
      in if \<not> inRoom then reply CodePlayerNotInRoom (MBattle NotInThisRoom) s
         else if status \<noteq> RoomPlaying then reply CodeRoomStarted (MBattle NotInBattle) s
         else if rawAction = RawEmpty then reply CodeDataInvalid (MBattle ActionEmpty) s
         else if \<not> json_Valid rawAction then reply CodeDataInvalid (MBattle ActionNotJSON) s
         else andthen (injectBattleSide r rawAction (pid s a) s) (\<lambda>res s1.
           case res of
             Inl e \<Rightarrow> reply CodeDataInvalid (MBattle (ActionFailed e)) s1
           | Inr actionWithSide \<Rightarrow>
               if \<not> rEngineConn (rheap s1 r) then Stop Panicked s1
               else (case GetNodeByPodIndex s1 targetNodeID of
                  Inl e \<Rightarrow> reply CodeCppRPCError (MBattle TargetUnavailable) s1
                | Inr na \<Rightarrow>
                    (case CallSendCommand X (nclient (nheap s1 na)) (rID (rheap s1 r)) (pid s1 a)
                        actionWithSide (world s1) of
                       None \<Rightarrow> Stop Panicked s1
                     | Some (Inl e, w) \<Rightarrow> reply CodeCppRPCError (MBattle (CppCallFailed e)) (s1\<lparr>world := w\<rparr>)
                     | Some (Inr resp, w) \<Rightarrow>
                         if resp_Code resp \<noteq> 0
                         then reply (resp_Code resp) (MBattle (CppMessage (resp_Message resp))) (s1\<lparr>world := w\<rparr>)
                         else reportTurn X r a (resp_Message resp) (s1\<lparr>world := w\<rparr>)))))"

definition HandleBattleAction :: "'w ext \<Rightarrow> nat \<Rightarrow> raw \<Rightarrow> 'w server \<Rightarrow> (unit, 'w server) exec" where
  "HandleBattleAction X a rawAction s =
     (if sRoomID (sheap s a) = []
      then SendResponse a ''battle_action_res'' CodeRoomNotExist (MRoom NotInRoom) JNull s
      else (case map_of (Rooms s) (sRoomID (sheap s a)) of
          None \<Rightarrow> SendResponse a ''battle_action_res'' CodeRoomNotExist (MRoom RoomNotExist) JNull s
        | Some r \<Rightarrow> forwardBattleAction X r a rawAction s))"

text \<open>\<open>HandleBattleActionAndPersist\<close> looks the room up again and does nothing with it.\<close>

definition HandleBattleActionAndPersist :: "'w ext \<Rightarrow> nat \<Rightarrow> raw \<Rightarrow> 'w server \<Rightarrow> (unit, 'w server) exec" where
  "HandleBattleActionAndPersist X a rawAction s =
     andthen (HandleBattleAction X a rawAction s) (\<lambda>_ s1.
       if sRoomID (sheap s1 a) = [] then Done () s1
       else (case map_of (Rooms s1) (sRoomID (sheap s1 a)) of None \<Rightarrow> Done () s1 | Some r \<Rightarrow> Done () s1))"

section \<open>Choosing pokemon\<close>

definition stats_map :: "PokemonStats \<Rightarrow> json" where
  "stats_map v = JObj [(''hp'', jint (HP v)), (''attack'', jint (Attack v)), (''defense'', jint (Defense v)),
     (''specialAttack'', jint (SpecialAttack v)), (''specialDefense'', jint (SpecialDefense v)),
     (''speed'', jint (Speed v))]"

definition pokeMap :: "Pokemon \<Rightarrow> int \<Rightarrow> poke_map" where
  "pokeMap poke ability =
     [(''speciesID'', jint (SpeciesID poke)), (''level'', jint (Level poke)), (''nature'', jint (Nature poke)),
      (''ability'', jint ability), (''item'', jint (Item poke)), (''ivs'', stats_map (IVs poke)),
      (''evs'', stats_map (EVs poke)), (''moves'', enc_slice jint (Moves poke))]"

fun as_float64 :: "json \<Rightarrow> float64 option" where
  "as_float64 (JNum (Num i f)) = Some f"
| "as_float64 _ = None"

text \<open>The loop over the request: the team so far, and whether every ability was a number.\<close>

fun selectTeam :: "Pokemon list \<Rightarrow> poke_map list \<Rightarrow> poke_map list \<times> bool" where
  "selectTeam [] team = (team, True)"
| "selectTeam (poke # ps) team = (case as_float64 (Ability poke) of
      None \<Rightarrow> (team, False)
    | Some ability \<Rightarrow> selectTeam ps (team @ [pokeMap poke (float_trunc ability)]))"

definition readyCount :: "GameRoom \<Rightarrow> nat" where
  "readyCount g = length (filter snd (rReadyPlayers g))"

definition allPlayersReady :: "GameRoom \<Rightarrow> bool" where
  "allPlayersReady g \<longleftrightarrow> length (rSessions g) = 2 \<and> readyCount g = 2"

definition broadcastSummary :: "nat \<Rightarrow> 'w server \<Rightarrow> 'w server" where
  "broadcastSummary r s =
     (let sessions = sort_key (pid s) (List.map snd (rSessions (rheap s r)))
      in case buildBattleInitJSON (rID (rheap s r)) sessions s of
           Inl e \<Rightarrow> s
         | Inr initJSON \<Rightarrow> BroadcastToRoom r ''pokemon_selection_summary'' CodeSuccess
             (MSelect SelectionSummary) initJSON s)"

definition HandleSelectPokemon :: "nat \<Rightarrow> nat \<Rightarrow> raw \<Rightarrow> 'w server \<Rightarrow> (unit, 'w server) exec" where
  "HandleSelectPokemon r a rawData s =
     (let status = rStatus (rheap s r);
          inRoom = map_of (rSessions (rheap s r)) (pid s a) \<noteq> None;
          reply = (\<lambda>code m. SendResponse a ''select_pokemon_res'' code m JNull)
      in if \<not> inRoom then reply CodePlayerNotInRoom (MBattle NotInThisRoom) s
         else if status \<noteq> RoomWaiting then reply CodeRoomStarted (MSelect GameAlreadyStarted) s
         else if rawData = RawEmpty then reply CodeDataInvalid (MSelect PokemonEmpty) s
         else (case unmarshal_raw dec_SelectPokemonRequest rawData \<lparr>req_Pokemon = None\<rparr> of
             (req, False) \<Rightarrow> reply CodeDataInvalid (MSelect ParseFailed) s
           | (req, True) \<Rightarrow>
             (let pokemon = (case req_Pokemon req of None \<Rightarrow> [] | Some ps \<Rightarrow> ps) in
              if length pokemon > 6 then reply CodeDataInvalid (MSelect TooManyPokemon) s
              else (case selectTeam pokemon [] of
                  (team, False) \<Rightarrow> reply CodeDataInvalid (MSelect AbilityNotNumber)
                      (upd_sess a (\<lambda>n. n\<lparr>sSelectedPokemon := Some team\<rparr>) s)
                | (team, True) \<Rightarrow>
                    (let s1 = upd_sess a (\<lambda>n. n\<lparr>sSelectedPokemon := Some team\<rparr>) s;
                         s2 = upd_room r (\<lambda>g. g\<lparr>rReadyPlayers := AList.update (pid s1 a) True (rReadyPlayers g)\<rparr>) s1;
                         ready = allPlayersReady (rheap s2 r)
                     in andthen (reply CodeSuccess (MSelect PokemonSelected) s2) (\<lambda>_ s3.
                        let s4 = BroadcastToRoom r ''player_ready'' CodeSuccess (MSelect (PlayerReady (pid s3 a))) JNull s3
                        in if ready then StartGame r (broadcastSummary r s4) else Done () s4))))))"

definition HandleSelectPokemonAndPersist :: "nat \<Rightarrow> raw \<Rightarrow> 'w server \<Rightarrow> (unit, 'w server) exec" where
  "HandleSelectPokemonAndPersist a rawData s =
     (if sRoomID (sheap s a) = []
      then SendResponse a ''select_pokemon_res'' CodeRoomNotExist (MRoom NotInRoom) JNull s
      else (case map_of (Rooms s) (sRoomID (sheap s a)) of
          None \<Rightarrow> SendResponse a ''select_pokemon_res'' CodeRoomNotExist (MRoom RoomNotExist) JNull s
        | Some r \<Rightarrow> HandleSelectPokemon r a rawData s))"

end
