(* ===== verification/Failover.thy ===== *)
theory Failover
  imports Game
begin

text \<open>
  The parts of \<open>internal/room/manager.go\<close> that deal with lost state: rebuilding rooms from their
  Redis snapshots when the server starts, and moving rooms away from engine nodes that are gone,
  unhealthy or restarted under a new server id.
\<close>

section \<open>Restoring rooms\<close>

definition copyMap :: "team_map \<Rightarrow> poke_map" where
  "copyMap pokemon = fold (\<lambda>kv m. AList.update (fst kv) (snd kv) m) (case pokemon of None \<Rightarrow> [] | Some kvs \<Rightarrow> kvs) []"

definition copySelectedPokemon :: "team_map slice \<Rightarrow> poke_map slice" where
  "copySelectedPokemon team = (case team of None \<Rightarrow> None
     | Some ps \<Rightarrow> if ps = [] then None else Some (List.map copyMap ps))"

definition slice_list :: "'a slice \<Rightarrow> 'a list" where
  "slice_list xs = (case xs of None \<Rightarrow> [] | Some ys \<Rightarrow> ys)"

definition go_get :: "('k, 'v) gomap \<Rightarrow> 'k \<Rightarrow> 'v option" where
  "go_get m k = (case m of None \<Rightarrow> None | Some kvs \<Rightarrow> map_of kvs k)"

definition addPlayerID :: "string \<Rightarrow> (string \<times> unit) list \<Rightarrow> (string \<times> unit) list" where
  "addPlayerID playerID m = (if playerID = [] then m else AList.update playerID () m)"

definition snapshotPlayerIDs :: "RoomSnapshot \<Rightarrow> (string \<times> unit) list" where
  "snapshotPlayerIDs sn =
     fold addPlayerID (mkeys (slice_list (sn_SelectedPokemon sn)))
       (fold addPlayerID (mkeys (slice_list (sn_ReadyPlayers sn)))
         (fold addPlayerID (slice_list (sn_Players sn)) []))"

definition restorePlayer :: "RoomSnapshot \<Rightarrow> nat \<Rightarrow> string \<Rightarrow> 'w server \<Rightarrow> 'w server" where
  "restorePlayer sn r playerID s =
     (let a = snext s;
          session = \<lparr>sPlayer = \<lparr>ID = playerID, Username = []\<rparr>, sRoomID = sn_RoomID sn, sConn = None,
            sSend = [], sSelectedPokemon = (case go_get (sn_SelectedPokemon sn) playerID of
               None \<Rightarrow> None | Some team \<Rightarrow> copySelectedPokemon team)\<rparr>;
          ready = (case go_get (sn_ReadyPlayers sn) playerID of None \<Rightarrow> False | Some b \<Rightarrow> b)
      in s\<lparr>sheap := (sheap s)(a := session), snext := Suc a,
           rheap := (rheap s)(r := (rheap s r)\<lparr>rSessions := AList.update playerID a (rSessions (rheap s r)),
             rReadyPlayers := AList.update playerID ready (rReadyPlayers (rheap s r))\<rparr>),
           AllSessions := AList.update playerID a (AllSessions s)\<rparr>)"

definition restoreRoomSnapshot :: "RoomSnapshot \<Rightarrow> 'w server \<Rightarrow> 'w server" where
  "restoreRoomSnapshot sn s =
     (let r = rnext s;
          s0 = s\<lparr>rheap := (rheap s)(r := \<lparr>rID = sn_RoomID sn, rSessions = [], rStatus = sn_Status sn,
                   rNodeID = sn_NodeID sn, rReadyPlayers = [], rEngineConn = rmEngine s\<rparr>),
                 rnext := Suc r\<rparr>;
          s1 = fold (restorePlayer sn r) (mkeys (snapshotPlayerIDs sn)) s0
      in s1\<lparr>Rooms := AList.update (rID (rheap s1 r)) r (Rooms s1)\<rparr>)"

section \<open>Choosing another node\<close>

definition pickHealthyNodeForRoom :: "string \<Rightarrow> int \<Rightarrow> 'w server \<Rightarrow> error + nat" where
  "pickHealthyNodeForRoom roomID excludePodIndex s =
     (if \<not> rmEngine s then Inl (EEngine EEngineNil)
      else let healthyIndices = List.map st_PodIndex
                 (filter (\<lambda>node. \<not> (\<not> st_Healthy node \<or> st_PodIndex node = excludePodIndex)) (es_Nodes (GetStatus s)))
           in if healthyIndices = [] then Inl (EEngine ENoHealthyNodes)
              else GetNodeByPodIndex s (chooseByHash roomID healthyIndices))"

section \<open>Moving rooms\<close>

definition healthyPods :: "EngineStatus \<Rightarrow> int list" where
  "healthyPods status = List.map st_PodIndex (filter st_Healthy (es_Nodes status))"

definition podServerIDs :: "EngineStatus \<Rightarrow> (int \<times> string) list" where
  "podServerIDs status = fold (\<lambda>node. AList.update (st_PodIndex node) (st_ServerID node)) (es_Nodes status) []"

text \<open>Whether a room must move: its node is not healthy, or the node restarted under another
  server id than the one in the room's snapshot.\<close>

definition mustMove :: "'w ext \<Rightarrow> bool \<Rightarrow> EngineStatus \<Rightarrow> GameRoom \<Rightarrow> 'w \<Rightarrow> bool \<times> 'w" where
  "mustMove X hasStore status g w =
     (if rNodeID g \<notin> set (healthyPods status) then (True, w)
      else if hasStore then
        (case LoadRoomSnapshot X (rID g) w of
           (Inr snap, w') \<Rightarrow>
             (if sn_ServerID snap \<noteq> [] then
                (case map_of (podServerIDs status) (rNodeID g) of
                   Some podSID \<Rightarrow> podSID \<noteq> sn_ServerID snap | None \<Rightarrow> False)
              else False, w')
         | (Inl e, w') \<Rightarrow> (False, w'))
      else (False, w))"

primrec targetRooms :: "'w ext \<Rightarrow> EngineStatus \<Rightarrow> nat list \<Rightarrow> nat list \<Rightarrow> 'w server \<Rightarrow> nat list \<times> 'w server" where
  "targetRooms X status [] acc s = (acc, s)"
| "targetRooms X status (r # rs) acc s = (case mustMove X (rmStore s) status (rheap s r) (world s) of
     (move, w) \<Rightarrow> targetRooms X status rs (if move then acc @ [r] else acc) (s\<lparr>world := w\<rparr>))"

definition saveSnapshot :: "'w ext \<Rightarrow> RoomSnapshot \<Rightarrow> 'w server \<Rightarrow> 'w server" where
  "saveSnapshot X sn s = s\<lparr>world := snd (SaveRoomSnapshot X (storeTTL s) sn (world s))\<rparr>"

text \<open>One turn of the loop over the target rooms: \<open>True\<close> counts as moved, \<open>False\<close> as skipped.\<close>

definition reassignRoom :: "'w ext \<Rightarrow> nat \<Rightarrow> 'w server \<Rightarrow> (bool, 'w server) exec" where
  "reassignRoom X r s =
     (case pickHealthyNodeForRoom (rID (rheap s r)) (rNodeID (rheap s r)) s of
        Inl e \<Rightarrow> Done False s
      | Inr newNode \<Rightarrow>
          let oldNodeID = rNodeID (rheap s r); roomStatus = rStatus (rheap s r) in
          if roomStatus = RoomPlaying
          then if \<not> rmStore s then Done False s
            else (case LoadRoomSnapshot X (rID (rheap s r)) (world s) of
                (Inl e, w) \<Rightarrow> Done False (s\<lparr>world := w\<rparr>)
              | (Inr snap, w) \<Rightarrow>
                  (case CallCreateRoom X (nclient (nheap s newNode)) (rID (rheap s r)) (enc_RoomSnapshot snap) w of
                     None \<Rightarrow> Stop Panicked (s\<lparr>world := w\<rparr>)
                   | Some (Inl e, w') \<Rightarrow> Done False (s\<lparr>world := w'\<rparr>)
                   | Some (Inr resp, w') \<Rightarrow>
                       if resp_Code resp \<noteq> 0 then Done False (s\<lparr>world := w'\<rparr>)
                       else let n = nheap s newNode;
                                s1 = upd_room r (\<lambda>g. g\<lparr>rNodeID := PodIndex n\<rparr>) (s\<lparr>world := w'\<rparr>);
                                updatedSnapshot = \<lparr>sn_RoomID = rID (rheap s r), sn_Status = roomStatus,
                                  sn_NodeID = PodIndex n, sn_ServerID = ServerID n, sn_Players = sn_Players snap,
                                  sn_ReadyPlayers = sn_ReadyPlayers snap,
                                  sn_SelectedPokemon = sn_SelectedPokemon snap,
                                  sn_UpdatedAt = x_now X (world s1)\<rparr>;
                                s2 = saveSnapshot X updatedSnapshot s1;
                                s3 = sendDestroyRoomRequest (rID (rheap s r)) oldNodeID s2
                            in Done True (saveSnapshot X updatedSnapshot s3)))
          else Done True s)"

primrec reassignRooms :: "'w ext \<Rightarrow> nat list \<Rightarrow> int \<times> int \<Rightarrow> 'w server \<Rightarrow> (int \<times> int, 'w server) exec" where
  "reassignRooms X [] n s = Done n s"
| "reassignRooms X (r # rs) n s = andthen (reassignRoom X r s) (\<lambda>moved s1.
     reassignRooms X rs (if moved then (fst n + 1, snd n) else (fst n, snd n + 1)) s1)"

definition ReassignRunningRoomsFromUnavailableNodes :: "'w ext \<Rightarrow> 'w server \<Rightarrow> (int \<times> int, 'w server) exec" where
  "ReassignRunningRoomsFromUnavailableNodes X s =
     (if \<not> rmEngine s then Done (0, 0) s
      else let status = GetStatus s in
        if healthyPods status = [] then Done (0, 0) s
        else case targetRooms X status (List.map snd (Rooms s)) [] s of
            (targets, s1) \<Rightarrow> reassignRooms X targets (0, 0) s1)"

text \<open>The function that \<open>main\<close> registers with \<open>SetReassignRoomsFunc\<close>.\<close>

definition reassignFunc :: "'w ext \<Rightarrow> 'w server \<Rightarrow> (unit, 'w server) exec" where
  "reassignFunc X s = andthen (ReassignRunningRoomsFromUnavailableNodes X s) (\<lambda>_ s1. Done () s1)"

section \<open>Start-up\<close>

definition NewRoomManager :: "bool \<Rightarrow> bool \<Rightarrow> int \<Rightarrow> 'w net \<Rightarrow> 'w server" where
  "NewRoomManager redisStore engineConn ttl n = net.extend n (server.fields
     (\<lambda>_. NewSession \<lparr>ID = [], Username = []\<rparr> None) 0 (\<lambda>_. new_room [] engineConn) 0 [] []
     redisStore engineConn ttl [] [])"

definition RestoreFromStore :: "'w ext \<Rightarrow> int \<Rightarrow> 'w server \<Rightarrow> (error option, 'w server) exec" where
  "RestoreFromStore X nodeID s =
     (if \<not> rmStore s then Done None s
      else (case ListRoomSnapshots X (world s) of
          None \<Rightarrow> Stop Diverged s
        | Some (Inl e, w) \<Rightarrow> Done (Some (EListFailed e)) (s\<lparr>world := w\<rparr>)
        | Some (Inr snapshots, w) \<Rightarrow>
            let wanted = filter (\<lambda>sn. \<not> (sn_RoomID sn = [] \<or> (nodeID > 0 \<and> sn_NodeID sn \<noteq> nodeID))) snapshots;
                s1 = fold restoreRoomSnapshot wanted (s\<lparr>world := w\<rparr>)
            in andthen (ReassignRunningRoomsFromUnavailableNodes X s1) (\<lambda>_ s2. Done None s2)))"

end
