(* ===== verification/Handler.thy ===== *)
theory Handler
  imports Failover Store
begin

text \<open>
  \<open>internal/handler\<close>: the command router (\<open>router.go\<close>) with the handlers that \<open>InitGameRouters\<close>
  registers, and the life of a WebSocket connection (\<open>websocket.go\<close>). The HTTP upgrade and the
  socket itself are outside: a connection is a number.
\<close>

section \<open>What the status commands print\<close>

text \<open>The standard library prints times, errors, \<open>float32\<close> values and durations in seconds; how is a parameter.\<close>

record gofmt =
  fm_time :: "int \<Rightarrow> json"
  fm_error :: "error \<Rightarrow> string"
  fm_float32 :: "float32 \<Rightarrow> json"
  fm_seconds :: "int \<Rightarrow> json"

definition enc_EngineNodeStatus :: "gofmt \<Rightarrow> EngineNodeStatus \<Rightarrow> json" where
  "enc_EngineNodeStatus F st =
     (let err = (case st_LastError st of None \<Rightarrow> [] | Some e \<Rightarrow> fm_error F e) in JObj (
       [(''pod_index'', jint (st_PodIndex st)), (''pod_name'', JStr (st_PodName st)),
        (''addr'', JStr (st_Addr st)), (''healthy'', JBool (st_Healthy st))]
       @ (if err = [] then [] else [(''last_error'', JStr err)])
       @ [(''last_heartbeat'', fm_time F (st_LastHeartbeat st)), (''active_rooms'', jint (st_ActiveRooms st)),
          (''cpu_usage'', fm_float32 F (st_CPUUsage st)), (''memory_used'', jint (st_MemoryUsed st)),
          (''max_capacity'', jint (st_MaxCapacity st))]
       @ (if st_ServerID st = [] then [] else [(''server_id'', JStr (st_ServerID st))])))"

definition enc_EngineStatus :: "gofmt \<Rightarrow> EngineStatus \<Rightarrow> json" where
  "enc_EngineStatus F st = JObj
     [(''total'', jint (es_Total st)), (''healthy'', jint (es_Healthy st)), (''unhealthy'', jint (es_Unhealthy st)),
      (''nodes'', JArr (List.map (enc_EngineNodeStatus F) (es_Nodes st))), (''replicas'', jint (es_Replicas st)),
      (''namespace'', JStr (es_Namespace st)), (''service_name'', JStr (es_ServiceName st)),
      (''stateful_set_name'', JStr (es_StatefulSetName st)),
      (''headless_service_name'', JStr (es_HeadlessServiceName st))]"

definition enc_DebugRoomInfo :: "gofmt \<Rightarrow> DebugRoomInfo \<Rightarrow> json" where
  "enc_DebugRoomInfo F d = JObj [(''snapshot'', enc_RoomSnapshot (di_Snapshot d)),
     (''remaining_ttl_sec'', fm_seconds F (di_RemainingTTL d)), (''is_persistent'', JBool (di_IsPersistent d))]"

section \<open>Handlers\<close>

type_synonym 'w HandlerFunc = "nat \<Rightarrow> GameRequest \<Rightarrow> 'w server \<Rightarrow> (unit, 'w server) exec"

definition do_cluster_status :: "gofmt \<Rightarrow> 'w HandlerFunc" where
  "do_cluster_status F a req s = SendResponse a ''cluster_status_res'' CodeSuccess (MRouter ClusterStatus)
     (enc_EngineStatus F (GetStatus s)) s"

definition do_get_redis :: "'w ext \<Rightarrow> gofmt \<Rightarrow> 'w HandlerFunc" where
  "do_get_redis X F a req s =
     (if \<not> rmStore s then SendResponse a ''get_redis_res'' CodeServerErr (MRouter RedisNotInit) JNull s
      else (case InspectAllRooms X (world s) of
          None \<Rightarrow> Stop Diverged s
        | Some (Inl e, w) \<Rightarrow> SendResponse a ''get_redis_res'' CodeServerErr (MRouter RedisUnreadable) JNull (s\<lparr>world := w\<rparr>)
        | Some (Inr debugInfos, w) \<Rightarrow>
            let s1 = s\<lparr>world := w\<rparr>;
                resp = JObj (sort_key fst
                  [(''type'', JStr ''get_redis_res''), (''count'', jint (int (length debugInfos))),
                   (''timestamp'', jint (x_now X w)), (''rooms'', JArr (List.map (enc_DebugRoomInfo F) debugInfos)),
                   (''engine_status'', enc_EngineStatus F (GetStatus s1))])
            in SendResponse a ''get_redis_res'' CodeSuccess (MRouter RedisData) resp s1))"

definition do_create_room :: "'w ext \<Rightarrow> 'w HandlerFunc" where
  "do_create_room X a req s = andthen (CreateRoom X a s) (\<lambda>_ s1. Done () s1)"

definition dec_joinData :: "string decoder" where
  "dec_joinData = dec_struct [(''room_id'', dec_field id (\<lambda>v r. v) dec_string)]"

definition do_join_room :: "'w HandlerFunc" where
  "do_join_room a req s = andthen (JoinRoom (fst (unmarshal_raw dec_joinData (req_Data req) [])) a s) (\<lambda>_ s1. Done () s1)"

definition do_leave_room :: "'w ext \<Rightarrow> 'w HandlerFunc" where
  "do_leave_room X a req s =
     (let roomID = sRoomID (sheap s a)
      in andthen (LeaveRoom X roomID a s)
           (\<lambda>_. SendResponse a ''leave_room_res'' CodeSuccess (MRouter LeftRoom) JNull))"

definition do_list_rooms :: "'w HandlerFunc" where
  "do_list_rooms a req s = SendResponse a ''list_rooms_res'' CodeSuccess (MRouter RoomListed)
     (JArr (List.map enc_RoomInfo (GetRooms s))) s"

definition do_match :: "'w HandlerFunc" where
  "do_match a req s =
     (if length (MatchQueue s) < MatchQueueSize
      then SendResponse a ''match_res'' CodeSuccess (MRouter MatchQueued) JNull (s\<lparr>MatchQueue := MatchQueue s @ [a]\<rparr>)
      else Stop Blocked s)"

definition do_start_game :: "'w HandlerFunc" where
  "do_start_game a req s = StartGameForSession a s"

definition do_select_pokemon :: "'w HandlerFunc" where
  "do_select_pokemon a req s = HandleSelectPokemonAndPersist a (req_Data req) s"

definition do_battle_action :: "'w ext \<Rightarrow> 'w HandlerFunc" where
  "do_battle_action X a req s = HandleBattleActionAndPersist X a (req_Data req) s"

section \<open>The router\<close>

type_synonym 'w Router = "(string \<times> 'w HandlerFunc) list"

definition Register :: "string \<Rightarrow> 'w HandlerFunc \<Rightarrow> 'w Router \<Rightarrow> 'w Router" where
  "Register cmd handler r = AList.update cmd handler r"

definition InitGameRouters :: "'w ext \<Rightarrow> gofmt \<Rightarrow> 'w Router" where
  "InitGameRouters X F =
     Register ''battle_action'' (do_battle_action X) (
     Register ''select_pokemon'' do_select_pokemon (
     Register ''start_game'' do_start_game (
     Register ''match'' do_match (
     Register ''list_rooms'' do_list_rooms (
     Register ''leave_room'' (do_leave_room X) (
     Register ''join_room'' do_join_room (
     Register ''create_room'' (do_create_room X) (
     Register ''get_redis'' (do_get_redis X F) (
     Register ''cluster_status'' (do_cluster_status F) [])))))))))"

definition Dispatch :: "'w ext \<Rightarrow> 'w Router \<Rightarrow> nat \<Rightarrow> string \<Rightarrow> 'w server \<Rightarrow> (unit, 'w server) exec" where
  "Dispatch X handlers a payload s = (case x_parse X payload of
      None \<Rightarrow> Done () s
    | Some j \<Rightarrow> (case dec_GameRequest j \<lparr>req_Cmd = [], req_Data = RawEmpty\<rparr> of
        (req, False) \<Rightarrow> Done () s
      | (req, True) \<Rightarrow> (case map_of handlers (req_Cmd req) of
            Some handler \<Rightarrow> handler a req s
          | None \<Rightarrow> SendResponse a (req_Cmd req @ ''_res'') CodeSendInvalid (MRouter UnknownCmd) JNull s)))"

section \<open>A connection\<close>

text \<open>\<open>HandleWS\<close> up to its read loop, for a query with a non-empty \<open>uid\<close> and the upgraded connection
  \<open>c\<close>: the session it serves and whether it started a \<open>SyncRoomState\<close> goroutine.\<close>

definition HandleWS_open :: "string \<Rightarrow> nat \<Rightarrow> 'w server \<Rightarrow> (nat \<times> bool, 'w server) exec" where
  "HandleWS_open uid currentConn s = (case FindSession uid s of
      Some oldSession \<Rightarrow>
        (let a = oldSession;
             s1 = upd_sess a (\<lambda>n. n\<lparr>sConn := Some currentConn\<rparr>) s;
             roomID = sRoomID (sheap s1 a)
         in if roomID \<noteq> [] \<and> map_of (Rooms s1) roomID \<noteq> None then Done (a, True) s1
            else andthen (SendResponse a ''reconnect_success'' CodeSuccess (MRouter BackToLobby) JNull s1)
                   (\<lambda>_ s2. Done (a, False) s2))
    | None \<Rightarrow>
        (let a = snext s;
             s1 = s\<lparr>sheap := (sheap s)(a := NewSession \<lparr>ID = uid, Username = []\<rparr> (Some currentConn)), snext := Suc a\<rparr>
         in Done (a, False) (RegisterSession uid a s1)))"

text \<open>Its deferred function: whether the retention timer of the player starts.\<close>

definition HandleWS_close :: "nat \<Rightarrow> nat \<Rightarrow> 'w server \<Rightarrow> bool \<times> 'w server" where
  "HandleWS_close a currentConn s =
     (if sConn (sheap s a) = Some currentConn
      then (True, upd_sess a (\<lambda>n. n\<lparr>sConn := None\<rparr>) s)
      else (False, s))"

end
