(* ===== verification/RoomInv.thy ===== *)
theory RoomInv
  imports Room
begin

text \<open>
  The invariant of the room manager and its preservation by every operation of theory \<open>Room\<close>:
  rooms are filed under their own id, the ready flags of a room range over exactly its players,
  every session is filed under its player's id, and no channel exceeds its capacity. On top of
  it: a room never has more than two players, and a room in the table is never empty, unless a
  snapshot of another kind was restored. No operation here touches the engine's tables.
\<close>

section \<open>The invariant\<close>

definition room_ok :: "'w server \<Rightarrow> GameRoom \<Rightarrow> bool" where
  "room_ok s g \<longleftrightarrow> map_ok (rSessions g) \<and> map_ok (rReadyPlayers g)
     \<and> dom (map_of (rReadyPlayers g)) = dom (map_of (rSessions g))
     \<and> (\<forall>p a. map_of (rSessions g) p = Some a \<longrightarrow> a < snext s \<and> pid s a = p)"

definition server_wf :: "'w server \<Rightarrow> bool" where
  "server_wf s \<longleftrightarrow> map_ok (Rooms s) \<and> map_ok (AllSessions s)
     \<and> (\<forall>i r. map_of (Rooms s) i = Some r \<longrightarrow> r < rnext s \<and> rID (rheap s r) = i)
     \<and> (\<forall>r < rnext s. room_ok s (rheap s r))
     \<and> (\<forall>u a. map_of (AllSessions s) u = Some a \<longrightarrow> a < snext s \<and> pid s a = u)
     \<and> (\<forall>a. length (sSend (sheap s a)) \<le> sendCap) \<and> (\<forall>a \<in> set (MatchQueue s). a < snext s)"

definition at_most_two :: "'w server \<Rightarrow> bool" where
  "at_most_two s \<longleftrightarrow> (\<forall>r < rnext s. length (rSessions (rheap s r)) \<le> MaxPlayersPerRoom)"

definition no_empty_room :: "'w server \<Rightarrow> bool" where
  "no_empty_room s \<longleftrightarrow> (\<forall>i r. map_of (Rooms s) i = Some r \<longrightarrow> rSessions (rheap s r) \<noteq> [])"

lemma server_wfD:
  assumes "server_wf s"
  shows "map_ok (Rooms s)" "map_ok (AllSessions s)"
    "map_of (Rooms s) i = Some r \<Longrightarrow> r < rnext s"
    "map_of (Rooms s) i = Some r \<Longrightarrow> rID (rheap s r) = i"
    "r < rnext s \<Longrightarrow> room_ok s (rheap s r)"
    "map_of (AllSessions s) u = Some a \<Longrightarrow> a < snext s"
    "map_of (AllSessions s) u = Some a \<Longrightarrow> pid s a = u"
    "length (sSend (sheap s a)) \<le> sendCap"
    "a \<in> set (MatchQueue s) \<Longrightarrow> a < snext s"
  using assms unfolding server_wf_def by blast+

lemma room_okD:
  assumes "room_ok s g"
  shows "map_ok (rSessions g)" "map_ok (rReadyPlayers g)"
    "dom (map_of (rReadyPlayers g)) = dom (map_of (rSessions g))"
    "map_of (rSessions g) p = Some a \<Longrightarrow> a < snext s"
    "map_of (rSessions g) p = Some a \<Longrightarrow> pid s a = p"
  using assms unfolding room_ok_def by blast+

lemma server_wf_room: "server_wf s \<Longrightarrow> map_of (Rooms s) i = Some r \<Longrightarrow> room_ok s (rheap s r)"
  using server_wfD(3,5) by blast

lemma Rooms_inj: "server_wf s \<Longrightarrow> map_of (Rooms s) i = Some r \<Longrightarrow> map_of (Rooms s) j = Some r \<Longrightarrow> i = j"
  using server_wfD(4) by metis

text \<open>Three predicates that only read room tables and player ids.\<close>

definition same_rooms :: "'w server \<Rightarrow> 'w server \<Rightarrow> bool" where
  "same_rooms s t \<longleftrightarrow> rheap t = rheap s \<and> rnext t = rnext s \<and> Rooms t = Rooms s
     \<and> AllSessions t = AllSessions s \<and> snext t = snext s \<and> rmEngine t = rmEngine s
     \<and> (\<forall>a. sPlayer (sheap t a) = sPlayer (sheap s a)) \<and> set (MatchQueue t) \<subseteq> set (MatchQueue s)
     \<and> ((\<forall>a. length (sSend (sheap s a)) \<le> sendCap) \<longrightarrow> (\<forall>a. length (sSend (sheap t a)) \<le> sendCap))"

lemma same_rooms_refl [simp]: "same_rooms s s"
  by (simp add: same_rooms_def)

lemma same_rooms_trans: "same_rooms s t \<Longrightarrow> same_rooms t u \<Longrightarrow> same_rooms s u"
  by (auto simp: same_rooms_def)

lemma same_rooms_pid: "same_rooms s t \<Longrightarrow> pid t a = pid s a"
  by (simp add: same_rooms_def pid_def)

lemma same_rooms_wf:
  assumes "same_rooms s t"
  shows "server_wf s \<Longrightarrow> server_wf t" "at_most_two s \<Longrightarrow> at_most_two t" "no_empty_room s \<Longrightarrow> no_empty_room t"
proof -
  have p: "pid t a = pid s a" for a using assms by (rule same_rooms_pid)
  have g: "rheap t = rheap s" "rnext t = rnext s" "Rooms t = Rooms s" "AllSessions t = AllSessions s" "snext t = snext s"
    using assms by (simp_all add: same_rooms_def)
  have "room_ok t = room_ok s" by (simp add: fun_eq_iff room_ok_def p g)
  then show "server_wf s \<Longrightarrow> server_wf t"
    using assms by (auto simp: server_wf_def p g same_rooms_def)
  show "at_most_two s \<Longrightarrow> at_most_two t" "no_empty_room s \<Longrightarrow> no_empty_room t"
    by (simp_all add: at_most_two_def no_empty_room_def g)
qed

lemma only_sends_same_rooms: "only_sends s t \<Longrightarrow> same_rooms s t"
  by (simp add: same_rooms_def only_sendsD only_sends_sess)

lemma only_sends_same_engine: "only_sends s t \<Longrightarrow> same_engine t s"
  by (simp add: same_engine_def only_sendsD)

lemma same_engine_refl [simp]: "same_engine s s"
  by (simp add: same_engine_def)

lemma same_engine_trans: "same_engine s t \<Longrightarrow> same_engine t u \<Longrightarrow> same_engine s u"
  by (simp add: same_engine_def)

lemmas Send_rooms = only_sends_same_rooms [OF only_sends_SendResponse]
  and Send_engine = only_sends_same_engine [OF only_sends_SendResponse]
  and Broadcast_rooms = only_sends_same_rooms [OF only_sends_Broadcast]
  and Broadcast_engine = only_sends_same_engine [OF only_sends_Broadcast]

lemma same_rooms_upds [simp]:
  "same_rooms s (s\<lparr>world := w\<rparr>)" "same_rooms s (s\<lparr>tasks := t\<rparr>)" "set q \<subseteq> set (MatchQueue s) \<Longrightarrow> same_rooms s (s\<lparr>MatchQueue := q\<rparr>)"
  "same_engine (s\<lparr>world := w\<rparr>) s" "same_engine (s\<lparr>tasks := t\<rparr>) s" "same_engine (s\<lparr>MatchQueue := q\<rparr>) s"
  by (simp_all add: same_rooms_def same_engine_def)

lemma same_rooms_upd_sess:
  "(\<And>n. sPlayer (f n) = sPlayer n \<and> sSend (f n) = sSend n) \<Longrightarrow> same_rooms s (upd_sess a f s)"
  by (simp add: same_rooms_def)

section \<open>Elementary steps\<close>

lemma wf_upd_room:
  assumes wf: "server_wf s" and ok: "r < rnext s \<Longrightarrow> room_ok s (f (rheap s r))"
    and id: "rID (f (rheap s r)) = rID (rheap s r)"
  shows "server_wf (upd_room r f s)"
proof -
  have p: "pid (upd_room r f s) = pid s" by (simp add: pid_def fun_eq_iff)
  have "room_ok (upd_room r f s) = room_ok s" by (simp add: room_ok_def fun_eq_iff p)
  then show ?thesis using wf ok id by (auto simp: server_wf_def p)
qed

lemma length_update_le: "length (AList.update k v m) \<le> Suc (length m)"
  by (induction m) auto

lemma room_ok_enter:
  assumes "room_ok s g" and "a < snext s"
  shows "room_ok s (g\<lparr>rSessions := AList.update (pid s a) a (rSessions g),
     rReadyPlayers := AList.update (pid s a) b (rReadyPlayers g)\<rparr>)"
  using assms by (auto simp: room_ok_def)

lemma room_ok_leave:
  assumes "room_ok s g"
  shows "room_ok s (g\<lparr>rSessions := AList.delete p (rSessions g), rReadyPlayers := AList.delete p (rReadyPlayers g)\<rparr>)"
  using assms by (auto simp: room_ok_def)

lemma enterRoom_same: "same_engine (enterRoom r i a s) s"
  by (simp add: enterRoom_def same_engine_def)

lemma enterRoom_simps [simp]:
  "rnext (enterRoom r i a s) = rnext s" "snext (enterRoom r i a s) = snext s" "Rooms (enterRoom r i a s) = Rooms s"
  "rheap (enterRoom r i a s) = (rheap s)(r := (rheap s r)\<lparr>rSessions := AList.update (pid s a) a (rSessions (rheap s r)),
     rReadyPlayers := AList.update (pid s a) False (rReadyPlayers (rheap s r))\<rparr>)"
  "sheap (enterRoom r i a s) = (sheap s)(a := (sheap s a)\<lparr>sRoomID := i\<rparr>)"
  "AllSessions (enterRoom r i a s) = AllSessions s" "MatchQueue (enterRoom r i a s) = MatchQueue s"
  by (simp_all add: enterRoom_def Let_def)

lemma wf_enterRoom:
  assumes wf: "server_wf s" and a: "a < snext s" shows "server_wf (enterRoom r i a s)"
proof -
  let ?s1 = "upd_sess a (\<lambda>n. n\<lparr>sRoomID := i\<rparr>) s"
  have same: "same_rooms s ?s1" by (rule same_rooms_upd_sess) simp
  then have wf1: "server_wf ?s1" using wf by (rule same_rooms_wf)
  have p: "pid ?s1 a = pid s a" using same by (rule same_rooms_pid)
  show ?thesis unfolding enterRoom_def Let_def
    by (rule wf_upd_room [OF wf1]) (use room_ok_enter [of ?s1 _ a False] server_wfD(5) [OF wf1] a p in auto)
qed

lemma at_most_two_enterRoom:
  assumes "at_most_two s" and "length (rSessions (rheap s r)) < MaxPlayersPerRoom"
  shows "at_most_two (enterRoom r i a s)"
  using assms length_update_le [of "pid s a" a "rSessions (rheap s r)"]
  by (auto simp: at_most_two_def)

lemma forgetRoom_simps [simp]:
  "rheap (forgetRoom i s) = rheap s" "rnext (forgetRoom i s) = rnext s" "snext (forgetRoom i s) = snext s"
  "sheap (forgetRoom i s) = sheap s" "AllSessions (forgetRoom i s) = AllSessions s"
  "Rooms (forgetRoom i s) = AList.delete i (Rooms s)" "MatchQueue (forgetRoom i s) = MatchQueue s"
  by (simp_all add: forgetRoom_def)

lemma wf_forgetRoom: "server_wf s \<Longrightarrow> server_wf (forgetRoom i s)"
  by (auto simp: server_wf_def room_ok_def pid_def split: if_splits)

lemma two_forgetRoom: "at_most_two (forgetRoom i s) \<longleftrightarrow> at_most_two s"
  by (simp add: at_most_two_def)

lemma forgetRoom_engine [simp]: "same_engine (forgetRoom i s) s"
  by (simp add: same_engine_def forgetRoom_def)

lemma wf_setStatus: "server_wf s \<Longrightarrow> server_wf (upd_room r (\<lambda>g. g\<lparr>rStatus := st\<rparr>) s)"
  by (rule wf_upd_room) (auto simp: room_ok_def server_wf_def)

lemma wf_setNode: "server_wf s \<Longrightarrow> server_wf (upd_room r (\<lambda>g. g\<lparr>rNodeID := i\<rparr>) s)"
  by (rule wf_upd_room) (auto simp: room_ok_def server_wf_def)

lemma two_upd_room: "(\<And>g. rSessions (f g) = rSessions g) \<Longrightarrow> at_most_two (upd_room r f s) \<longleftrightarrow> at_most_two s"
proof -
  assume "\<And>g. rSessions (f g) = rSessions g"
  then have "rSessions (rheap (upd_room r f s) x) = rSessions (rheap s x)" for x by simp
  then show ?thesis by (simp add: at_most_two_def del: upd_room_simps(1))
qed

lemma upd_room_engine [simp]: "same_engine (upd_room r f s) s"
  and upd_sess_engine [simp]: "same_engine (upd_sess a h s) s"
  by (simp_all add: same_engine_def)

section \<open>Destroying\<close>

lemma destroyAttempts_same:
  "same_rooms s (final (destroyAttempts X na i k s)) \<and> same_engine (final (destroyAttempts X na i k s)) s"
proof (induction k arbitrary: s)
  case (Suc k)
  have "same_rooms s (final (destroyAttempts X na i k (s\<lparr>world := w\<rparr>)))
      \<and> same_engine (final (destroyAttempts X na i k (s\<lparr>world := w\<rparr>))) s" for w
    using Suc [of "s\<lparr>world := w\<rparr>"] same_rooms_trans [of s "s\<lparr>world := w\<rparr>"]
      same_engine_trans [of _ "s\<lparr>world := w\<rparr>" s] by simp
  then show ?case by (simp split: option.split sum.split prod.split)
qed simp

lemma destroySync_same:
  "same_rooms s (final (sendDestroyRoomRequestSync X i n s))
   \<and> same_engine (final (sendDestroyRoomRequestSync X i n s)) s"
  by (simp add: sendDestroyRoomRequestSync_def destroyAttempts_same split: sum.split)

lemma DeleteRoom_cases:
  obtains t where "same_rooms s t" "same_engine t s" "DeleteRoom X i s = Done () (forgetRoom i t)"
    | "map_of (Rooms s) i = None" "DeleteRoom X i s = Done () s"
    | t where "same_rooms s t" "same_engine t s" "DeleteRoom X i s = Stop Panicked t"
proof (cases "map_of (Rooms s) i")
  case None
  then show thesis using that(2) by (simp add: DeleteRoom_def)
next
  case (Some r)
  show thesis
  proof (cases "rStatus (rheap s r) \<noteq> RoomWaiting")
    case True
    have same: "same_rooms s (final m)" "same_engine (final m) s"
      if "m = sendDestroyRoomRequestSync X i (rNodeID (rheap s r)) s" for m
      using that destroySync_same by blast+
    have stop: "c = Panicked" if "sendDestroyRoomRequestSync X i n s = Stop c t" for c n t
    proof -
      have "destroyAttempts X na i k u = Stop c t \<Longrightarrow> c = Panicked" for na k u
        by (induction k arbitrary: u) (auto split: option.splits sum.splits prod.splits if_splits)
      with that show ?thesis
        by (auto simp: sendDestroyRoomRequestSync_def simp del: destroyAttempts.simps split: if_splits sum.splits)
    qed
    show thesis
    proof (cases "sendDestroyRoomRequestSync X i (rNodeID (rheap s r)) s")
      case (Done ok t)
      with same [OF refl] have "same_rooms s t" "same_engine t s" by simp_all
      then show thesis using that(1) Some True Done by (simp add: DeleteRoom_def split: if_splits)
    next
      case (Stop c t)
      with same [OF refl] have "same_rooms s t" "same_engine t s" by simp_all
      then show thesis using that(3) Some True Stop stop [OF Stop] by (simp add: DeleteRoom_def)
    qed
  next
    case False
    then show thesis using that(1) [of s] Some by (simp add: DeleteRoom_def)
  qed
qed

lemma wf_DeleteRoom: "server_wf s \<Longrightarrow> server_wf (final (DeleteRoom X i s))"
  by (rule DeleteRoom_cases [of s X i]) (auto intro: wf_forgetRoom dest: same_rooms_wf(1))

lemma two_DeleteRoom: "at_most_two s \<Longrightarrow> at_most_two (final (DeleteRoom X i s))"
  by (rule DeleteRoom_cases [of s X i]) (auto simp: two_forgetRoom dest: same_rooms_wf(2))

lemma engine_DeleteRoom: "same_engine (final (DeleteRoom X i s)) s"
  by (rule DeleteRoom_cases [of s X i]) (auto intro: same_engine_trans [OF forgetRoom_engine])

text \<open>While the engine's own invariant holds, a node of the table has a client.\<close>

lemma destroyAttempts_returns:
  "nclient (nheap s na) \<noteq> None \<Longrightarrow> returns (destroyAttempts X na i k s)"
proof (induction k arbitrary: s)
  case (Suc k)
  then have "CallDestroyRoom X (nclient (nheap s na)) i (world s) \<noteq> None" by simp
  then obtain q where "CallDestroyRoom X (nclient (nheap s na)) i (world s) = Some q" by blast
  then obtain r w where c: "CallDestroyRoom X (nclient (nheap s na)) i (world s) = Some (r, w)" by (cases q) simp
  have "returns (destroyAttempts X na i k (s\<lparr>world := w\<rparr>))" using Suc by simp
  then show ?case by (simp add: c split: sum.split)
qed simp

lemma engine_wf_client: "engine_wf s \<Longrightarrow> getNode s i = Some na \<Longrightarrow> nclient (nheap s na) \<noteq> None"
  using engine_wf_node by (fastforce simp: node_ok_def isConnected_def)

lemma destroySync_returns: "engine_wf s \<Longrightarrow> returns (sendDestroyRoomRequestSync X i n s)"
  by (auto simp: sendDestroyRoomRequestSync_def simp del: destroyAttempts.simps split: sum.split
      intro!: destroyAttempts_returns dest: engine_wf_client)

lemma DeleteRoom_returns: "engine_wf s \<Longrightarrow> returns (DeleteRoom X i s)"
  by (auto simp: DeleteRoom_def split: option.split intro!: returns_andthen destroySync_returns)

lemma destroySync_sheap: "sheap (final (sendDestroyRoomRequestSync X i n s)) = sheap s"
proof -
  have "sheap (final (destroyAttempts X na i k u)) = sheap u" for na k u
    by (induction k arbitrary: u) (auto split: option.split sum.split prod.split)
  then show ?thesis by (simp add: sendDestroyRoomRequestSync_def del: destroyAttempts.simps split: sum.split)
qed

lemma DeleteRoom_heaps:
  "rheap (final (DeleteRoom X i s)) = rheap s \<and> sheap (final (DeleteRoom X i s)) = sheap s"
proof (cases "map_of (Rooms s) i")
  case (Some r)
  let ?m = "sendDestroyRoomRequestSync X i (rNodeID (rheap s r)) s"
  have "rheap (final ?m) = rheap s" using destroySync_same [of s X i] by (simp add: same_rooms_def)
  with Some show ?thesis using destroySync_sheap [of X i "rNodeID (rheap s r)" s]
    by (cases ?m) (simp_all add: DeleteRoom_def)
qed (simp add: DeleteRoom_def)

lemma DeleteRoom_gone:
  assumes "engine_wf s" and "map_ok (Rooms s)"
  shows "Rooms (final (DeleteRoom X i s)) = AList.delete i (Rooms s) \<and> rheap (final (DeleteRoom X i s)) = rheap s
    \<and> sheap (final (DeleteRoom X i s)) = sheap s"
proof -
  have miss: "AList.delete i (Rooms s) = Rooms s" if "map_of (Rooms s) i = None"
    using that by (simp add: map_of_eq_None_iff)
  show ?thesis
  proof (cases "map_of (Rooms s) i")
    case None
    then show ?thesis by (simp add: DeleteRoom_def miss)
  next
    case (Some r)
    obtain ok t where t: "sendDestroyRoomRequestSync X i (rNodeID (rheap s r)) s = Done ok t"
      using destroySync_returns [OF assms(1), of X i "rNodeID (rheap s r)"] by (auto simp: returns_iff)
    then have "same_rooms s t" "sheap t = sheap s"
      using destroySync_same [of s X i "rNodeID (rheap s r)"] destroySync_sheap [of X i "rNodeID (rheap s r)" s] by simp_all
    then show ?thesis using Some t by (simp add: DeleteRoom_def same_rooms_def)
  qed
qed

end
