(* ===== verification/RoomSafety.thy ===== *)
theory RoomSafety
  imports RoomInv
begin

text \<open>
  The contract between the room operations and an invariant over the server's state: locale
  \<open>room_invariant\<close> lists the elementary changes that the operations of \<open>Room\<close>, \<open>Game\<close>, \<open>Failover\<close>
  and \<open>Handler\<close> are made of, and every operation is shown once to keep any invariant that
  survives them. Invariants that do not look at a room's status have the shorter contract
  \<open>status_free_invariant\<close>. Theory \<open>RoomProps\<close> interprets it for the capacity and the occupancy of
  rooms and their attachment to the engine; theory \<open>Lobby\<close> interprets the full contract for the
  simulation of the abstract lobby.
\<close>

section \<open>Elementary changes\<close>

definition quiet :: "'w server \<Rightarrow> 'w server \<Rightarrow> bool" where
  "quiet s t \<longleftrightarrow> same_rooms s t \<and> same_engine t s"

definition keeps_players :: "GameRoom \<Rightarrow> GameRoom \<Rightarrow> bool" where
  "keeps_players g g' \<longleftrightarrow> rSessions g' = rSessions g \<and> rID g' = rID g \<and> rEngineConn g' = rEngineConn g
     \<and> (map_ok (rReadyPlayers g) \<longrightarrow> map_ok (rReadyPlayers g'))
     \<and> dom (map_of (rReadyPlayers g')) = dom (map_of (rReadyPlayers g))"

definition without :: "string \<Rightarrow> GameRoom \<Rightarrow> GameRoom" where
  "without p g = g\<lparr>rSessions := AList.delete p (rSessions g), rReadyPlayers := AList.delete p (rReadyPlayers g)\<rparr>"

definition add_room :: "string \<Rightarrow> 'w server \<Rightarrow> 'w server" where
  "add_room i s = s\<lparr>rheap := (rheap s)(rnext s := new_room i (rmEngine s)), rnext := Suc (rnext s),
     Rooms := AList.update i (rnext s) (Rooms s)\<rparr>"

definition add_session :: "Session \<Rightarrow> 'w server \<Rightarrow> 'w server" where
  "add_session n s = s\<lparr>sheap := (sheap s)(snext s := n), snext := Suc (snext s)\<rparr>"

lemma quiet_refl [simp, intro]: "quiet s s" by (simp add: quiet_def)

lemma quiet_trans: "quiet s t \<Longrightarrow> quiet t u \<Longrightarrow> quiet s u"
  unfolding quiet_def using same_rooms_trans same_engine_trans by blast

lemma quietI: "only_sends s t \<Longrightarrow> quiet s t"
  by (simp add: quiet_def only_sends_same_rooms only_sends_same_engine)

lemmas quiet_Send = quietI [OF only_sends_SendResponse]
  and quiet_Broadcast = quietI [OF only_sends_Broadcast]

lemma quiet_upds [simp]: "quiet s (s\<lparr>world := w\<rparr>)" "quiet s (s\<lparr>tasks := t\<rparr>)"
  by (simp_all add: quiet_def)

lemma quiet_queue: "set q \<subseteq> set (MatchQueue s) \<Longrightarrow> quiet s (s\<lparr>MatchQueue := q\<rparr>)"
  by (simp add: quiet_def)

lemma quiet_upd_sess:
  "(\<And>n. sPlayer (f n) = sPlayer n \<and> sSend (f n) = sSend n) \<Longrightarrow> quiet s (upd_sess a f s)"
  by (simp add: quiet_def same_rooms_upd_sess)

lemma quiet_snext: "quiet s t \<Longrightarrow> snext t = snext s"
  and quiet_rnext: "quiet s t \<Longrightarrow> rnext t = rnext s"
  and quiet_rheap: "quiet s t \<Longrightarrow> rheap t = rheap s"
  and quiet_Rooms: "quiet s t \<Longrightarrow> Rooms t = Rooms s"
  and quiet_pid: "quiet s t \<Longrightarrow> pid t a = pid s a"
  by (simp_all add: quiet_def same_rooms_def pid_def)

lemma keeps_players_simps [simp]:
  "keeps_players g (g\<lparr>rStatus := st\<rparr>)" "keeps_players g (g\<lparr>rNodeID := i\<rparr>)"
  by (simp_all add: keeps_players_def)

lemma keeps_players_ready:
  "map_of (rReadyPlayers g) p \<noteq> None \<Longrightarrow> keeps_players g (g\<lparr>rReadyPlayers := AList.update p b (rReadyPlayers g)\<rparr>)"
  by (auto simp: keeps_players_def insert_absorb)

lemma same_engine_adds [simp]:
  "same_engine (enterRoom r i a s) s" "same_engine (add_room i s) s" "same_engine (add_session n s) s"
  "same_engine (RegisterSession u a s) s" "same_engine (s\<lparr>AllSessions := m\<rparr>) s" "same_engine (s\<lparr>Rooms := rs\<rparr>) s"
  by (simp_all add: same_engine_def enterRoom_def add_room_def add_session_def RegisterSession_def)

lemma freshRoomID_fresh:
  assumes "freshRoomID X rooms w = Some r" shows "map_of rooms (fst r) = None"
  by (rule freshRoomID.raw_induct [where P = "\<lambda>X rooms w r. map_of rooms (fst r) = None", OF _ assms])
    (auto split: prod.splits if_splits)

lemma LeaveRoom_some:
  assumes "map_of (Rooms s) i = Some r"
  shows "LeaveRoom X i a s =
    (let s2 = upd_sess a (\<lambda>n. n\<lparr>sRoomID := []\<rparr>) (upd_room r (without (pid s a)) s)
     in if rSessions (without (pid s a) (rheap s r)) = [] then DeleteRoom X i s2
        else let s3 = BroadcastToRoom r (''Player Left! (playerID: '' @ pid s a @ '')'') CodeSuccess
               (MRoom (PlayerLeft (pid s a))) JNull s2
          in if rStatus (rheap s3 r) = RoomPlaying
             then Done () (BroadcastToRoom r ''room_status_change'' CodeSuccess (MRoom StoppedByLeave) JNull
                    (upd_room r (\<lambda>g. g\<lparr>rStatus := RoomFinished\<rparr>) s3))
             else Done () s3)"
proof -
  have w: "(\<lambda>g. g\<lparr>rSessions := AList.delete p (rSessions g), rReadyPlayers := AList.delete p (rReadyPlayers g)\<rparr>) = without p"
    for p by (simp add: without_def [abs_def])
  show ?thesis
    by (simp only: LeaveRoom_def assms option.case w Let_def upd_room_simps length_0_conv fun_upd_same)
qed

lemma LeaveRoom_returns:
  assumes "engine_wf s" and "map_of (Rooms s) i = Some r" shows "returns (LeaveRoom X i a s)"
proof -
  let ?s2 = "upd_sess a (\<lambda>n. n\<lparr>sRoomID := []\<rparr>) (upd_room r (without (pid s a)) s)"
  have "engine_wf ?s2" using assms(1) engine_wf_same [of ?s2 s] by (simp add: same_engine_def)
  then have "returns (DeleteRoom X i ?s2)" by (rule DeleteRoom_returns)
  then show ?thesis by (simp add: LeaveRoom_some [OF assms(2)] Let_def)
qed

lemma snext_Send [simp]: "snext (final (SendResponse a c k m d s)) = snext s"
  using only_sendsD(1) [OF only_sends_SendResponse] .

lemma snext_CreateRoom: "snext (final (CreateRoom X a s)) = snext s"
  by (auto simp: CreateRoom_def Let_def enterRoom_def SendResponse_def split: option.split)

section \<open>The contract\<close>

locale room_invariant =
  fixes I :: "'w server \<Rightarrow> bool"
  assumes I_wf: "I s \<Longrightarrow> server_wf s" and I_engine: "I s \<Longrightarrow> engine_wf s"
    and I_quiet: "I s \<Longrightarrow> same_rooms s t \<Longrightarrow> engine_wf t \<Longrightarrow> I t"
    and I_node: "I s \<Longrightarrow> I (upd_room r (\<lambda>g. g\<lparr>rNodeID := nid\<rparr>) s)"
    and I_ready: "I s \<Longrightarrow> r < rnext s \<Longrightarrow> rStatus (rheap s r) = RoomWaiting \<Longrightarrow> map_of (rSessions (rheap s r)) p \<noteq> None
      \<Longrightarrow> I (upd_room r (\<lambda>g. g\<lparr>rReadyPlayers := AList.update p True (rReadyPlayers g)\<rparr>) s)"
    and I_start: "I s \<Longrightarrow> rStatus (rheap s r) = RoomWaiting \<Longrightarrow> 2 \<le> length (rSessions (rheap s r))
      \<Longrightarrow> I (upd_room r (\<lambda>g. g\<lparr>rStatus := RoomPlaying\<rparr>) s)"
    and I_reopen: "I s \<Longrightarrow> I (upd_room r (\<lambda>g. g\<lparr>rStatus := RoomWaiting\<rparr>) s)"
    and I_enter: "I s \<Longrightarrow> a < snext s \<Longrightarrow> map_of (Rooms s) i = Some r \<Longrightarrow> rStatus (rheap s r) = RoomWaiting
      \<Longrightarrow> map_of (rSessions (rheap s r)) (pid s a) = None \<Longrightarrow> length (rSessions (rheap s r)) < MaxPlayersPerRoom
      \<Longrightarrow> I (enterRoom r i a s)"
    and I_open: "I s \<Longrightarrow> map_of (Rooms s) i = None \<Longrightarrow> a < snext s \<Longrightarrow> I (enterRoom (rnext s) i a (add_room i s))"
    and I_stay: "I s \<Longrightarrow> map_of (Rooms s) i = Some r \<Longrightarrow> rSessions (without p (rheap s r)) \<noteq> []
      \<Longrightarrow> rStatus (rheap s r) \<noteq> RoomPlaying \<Longrightarrow> I (upd_room r (without p) s)"
    and I_stop: "I s \<Longrightarrow> map_of (Rooms s) i = Some r \<Longrightarrow> rSessions (without p (rheap s r)) \<noteq> []
      \<Longrightarrow> rStatus (rheap s r) = RoomPlaying \<Longrightarrow> I (upd_room r (\<lambda>g. (without p g)\<lparr>rStatus := RoomFinished\<rparr>) s)"
    and I_close: "I s \<Longrightarrow> map_of (Rooms s) i = Some r \<Longrightarrow> rSessions (without p (rheap s r)) = []
      \<Longrightarrow> I (forgetRoom i (upd_room r (without p) s))"
    and I_session: "I s \<Longrightarrow> sSend n = [] \<Longrightarrow> I (add_session n s)"
    and I_register: "I s \<Longrightarrow> a < snext s \<Longrightarrow> pid s a = u \<Longrightarrow> I (RegisterSession u a s)"
    and I_unregister: "I s \<Longrightarrow> I (s\<lparr>AllSessions := AList.delete u (AllSessions s)\<rparr>)"
    and I_push: "I s \<Longrightarrow> a < snext s \<Longrightarrow> I (s\<lparr>MatchQueue := MatchQueue s @ [a]\<rparr>)"
begin

lemma I_quiet': "I s \<Longrightarrow> quiet s t \<Longrightarrow> I t"
  unfolding quiet_def using I_quiet I_engine engine_wf_same by blast

lemma I_Send: "I s \<Longrightarrow> I (final (SendResponse a c k m d s))"
  and I_Broadcast: "I s \<Longrightarrow> I (BroadcastToRoom r c k m d s)"
  by (blast intro: I_quiet' quiet_Send quiet_Broadcast)+

lemma I_Send_then:
  assumes "I s" and "\<And>t. I t \<Longrightarrow> only_sends s t \<Longrightarrow> I (final (k () t))"
  shows "I (final (andthen (SendResponse a c cd m d s) k))"
proof (rule final_andthen_inv [where P = I])
  show "I (final (SendResponse a c cd m d s))" using assms(1) by (rule I_Send)
  show "I (final (k x t))" if "SendResponse a c cd m d s = Done x t" "I t" for x t
    using assms(2) [of t] that only_sends_SendResponse [of s a c cd m d] by simp
qed

lemma I_CreateRoom:
  assumes I: "I s" and a: "a < snext s"
  shows "I (final (CreateRoom X a s))"
proof (cases "freshRoomID X (Rooms s) (world s)")
  case None
  then show ?thesis using I by (simp add: CreateRoom_def)
next
  case (Some p)
  obtain i w where p: "p = (i, w)" by (cases p)
  let ?s = "s\<lparr>world := w\<rparr>"
  have "map_of (Rooms s) i = None"
    using freshRoomID_fresh [OF Some] p by simp
  moreover have "I ?s" using I by (rule I_quiet') simp
  ultimately have "I (enterRoom (rnext ?s) i a (add_room i ?s))" using a by (intro I_open) simp_all
  then show ?thesis using Some p
    by (auto simp: CreateRoom_def Let_def add_room_def intro!: I_Send_then)
qed

lemma I_JoinRoom:
  assumes I: "I s" and a: "a < snext s"
  shows "I (final (JoinRoom i a s))"
proof (cases "map_of (Rooms s) i")
  case None
  then show ?thesis using I by (auto simp: JoinRoom_def intro!: I_Send_then)
next
  case (Some r)
  then show ?thesis using I a
    by (auto simp: JoinRoom_def Let_def not_le intro!: I_Send_then I_Broadcast I_enter)
qed

lemma I_LeaveRoom:
  assumes I: "I s"
  shows "I (final (LeaveRoom X i a s))"
proof (cases "map_of (Rooms s) i")
  case None
  then show ?thesis using I by (simp add: LeaveRoom_def I_Send)
next
  case (Some r)
  let ?s1 = "upd_room r (without (pid s a)) s"
  let ?s2 = "upd_sess a (\<lambda>n. n\<lparr>sRoomID := []\<rparr>) ?s1"
  have q: "quiet ?s1 ?s2" by (rule quiet_upd_sess) simp
  note leave_eq = LeaveRoom_some [OF Some]
  show ?thesis
  proof (cases "rSessions (without (pid s a) (rheap s r)) = []")
    case True
    have del: "final (LeaveRoom X i a s) = final (DeleteRoom X i ?s2)"
      using Some True by (simp only: leave_eq) simp
    have e2: "engine_wf ?s2" using I_engine [OF I] engine_wf_same [of ?s2 s] by (simp add: same_engine_def)
    obtain t where t: "same_rooms ?s2 t" "same_engine t ?s2" "DeleteRoom X i ?s2 = Done () (forgetRoom i t)"
    proof (rule DeleteRoom_cases [of ?s2 X i])
      assume "map_of (Rooms ?s2) i = None" with Some show thesis by simp
    next
      fix t assume "DeleteRoom X i ?s2 = Stop Panicked t"
      with DeleteRoom_returns [OF e2, of X i] show thesis by simp
    qed (rule that)
    let ?c = "forgetRoom i ?s1"
    have "I ?c" by (rule I_close [OF I Some True])
    moreover have "quiet ?c (forgetRoom i t)"
      using t(1,2) q by (auto simp: quiet_def same_rooms_def same_engine_def forgetRoom_def)
    ultimately show ?thesis using I_quiet' del t(3) by simp
  next
    case False
    let ?s3 = "BroadcastToRoom r (''Player Left! (playerID: '' @ pid s a @ '')'') CodeSuccess
                       (MRoom (PlayerLeft (pid s a))) JNull ?s2"
    let ?finish = "upd_room r (\<lambda>g. g\<lparr>rStatus := RoomFinished\<rparr>)"
    have q3: "quiet ?s1 ?s3" using q quiet_Broadcast by (rule quiet_trans)
    then have g3: "rheap ?s3 r = without (pid s a) (rheap s r)" using quiet_rheap by fastforce
    have st: "rStatus (rheap ?s3 r) = rStatus (rheap s r)" unfolding g3 by (simp add: without_def)
    have leave: "final (LeaveRoom X i a s) = (if rStatus (rheap s r) = RoomPlaying
        then BroadcastToRoom r ''room_status_change'' CodeSuccess (MRoom StoppedByLeave) JNull (?finish ?s3) else ?s3)"
      using False st by (simp only: leave_eq Let_def if_False final.simps split: if_split) simp
    show ?thesis
    proof (cases "rStatus (rheap s r) = RoomPlaying")
      case playing: True
      have eq: "upd_room r (\<lambda>g. (without (pid s a) g)\<lparr>rStatus := RoomFinished\<rparr>) s = ?finish ?s1" by (simp add: upd_room_def)
      have "I (?finish ?s1)" using I_stop [OF I Some False playing] unfolding eq .
      moreover have "quiet (?finish ?s1) (?finish ?s3)"
        using q3 by (auto simp: quiet_def same_rooms_def same_engine_def)
      ultimately show ?thesis unfolding leave using playing I_quiet' I_Broadcast by simp
    next
      case False
      with I_stay [OF I Some \<open>rSessions (without (pid s a) (rheap s r)) \<noteq> []\<close>] q3 show ?thesis
        unfolding leave using I_quiet' by simp
    qed
  qed
qed

lemma I_CleanUp: "I s \<Longrightarrow> I (final (CleanUpIfStillOffline X u s))"
  by (auto simp: CleanUpIfStillOffline_def Let_def split: option.split intro!: I_LeaveRoom I_unregister)

lemma I_SyncRoomState: "I s \<Longrightarrow> I (final (SyncRoomState a s))"
  by (auto simp: SyncRoomState_def split: option.split intro!: I_Send I_Send_then I_Broadcast)

end

text \<open>Most invariants do not look at the status or the ready flags, and have a shorter contract.\<close>

locale status_free_invariant =
  fixes J :: "'w server \<Rightarrow> bool"
  assumes F_wf: "J s \<Longrightarrow> server_wf s" and F_engine: "J s \<Longrightarrow> engine_wf s"
    and F_quiet: "J s \<Longrightarrow> same_rooms s t \<Longrightarrow> engine_wf t \<Longrightarrow> J t"
    and F_room: "J s \<Longrightarrow> keeps_players (rheap s r) (f (rheap s r)) \<Longrightarrow> J (upd_room r f s)"
    and F_enter: "J s \<Longrightarrow> a < snext s \<Longrightarrow> length (rSessions (rheap s r)) < MaxPlayersPerRoom \<Longrightarrow> J (enterRoom r i a s)"
    and F_open: "J s \<Longrightarrow> map_of (Rooms s) i = None \<Longrightarrow> a < snext s \<Longrightarrow> J (enterRoom (rnext s) i a (add_room i s))"
    and F_stay: "J s \<Longrightarrow> rSessions (without p (rheap s r)) \<noteq> [] \<Longrightarrow> J (upd_room r (without p) s)"
    and F_close: "J s \<Longrightarrow> map_of (Rooms s) i = Some r \<Longrightarrow> J (forgetRoom i (upd_room r (without p) s))"
    and F_session: "J s \<Longrightarrow> sSend n = [] \<Longrightarrow> J (add_session n s)"
    and F_register: "J s \<Longrightarrow> a < snext s \<Longrightarrow> pid s a = u \<Longrightarrow> J (RegisterSession u a s)"
    and F_unregister: "J s \<Longrightarrow> J (s\<lparr>AllSessions := AList.delete u (AllSessions s)\<rparr>)"
    and F_push: "J s \<Longrightarrow> a < snext s \<Longrightarrow> J (s\<lparr>MatchQueue := MatchQueue s @ [a]\<rparr>)"

sublocale status_free_invariant \<subseteq> room_invariant J
proof unfold_locales
  fix s r p assume J: "J s"
  show "J (upd_room r (\<lambda>g. g\<lparr>rReadyPlayers := AList.update p True (rReadyPlayers g)\<rparr>) s)"
    if "r < rnext s" "map_of (rSessions (rheap s r)) p \<noteq> None"
  proof (rule F_room [OF J], rule keeps_players_ready)
    show "map_of (rReadyPlayers (rheap s r)) p \<noteq> None"
      using room_okD(3) [OF server_wfD(5) [OF F_wf [OF J] that(1)]] that(2) by blast
  qed
  show "J (upd_room r (\<lambda>g. (without p g)\<lparr>rStatus := RoomFinished\<rparr>) s)" if "rSessions (without p (rheap s r)) \<noteq> []"
  proof -
    have eq: "upd_room r (\<lambda>g. (without p g)\<lparr>rStatus := RoomFinished\<rparr>) s = upd_room r (\<lambda>g. g\<lparr>rStatus := RoomFinished\<rparr>) (upd_room r (without p) s)"
      by (simp add: upd_room_def)
    show ?thesis unfolding eq by (rule F_room [OF F_stay [OF J that]]) simp
  qed
qed (auto intro: F_wf F_engine F_quiet F_room F_enter F_open F_stay F_close F_session F_register F_unregister F_push)

end
