(* ===== verification/RoomProps.thy ===== *)
theory RoomProps
  imports RoomSafety
begin

text \<open>
  The invariants of the server as instances of \<open>status_free_invariant\<close> (capacity, occupancy,
  attachment to the engine), and the functional
  properties of the room operations: what \<open>CreateRoom\<close>, \<open>JoinRoom\<close>, \<open>LeaveRoom\<close> and
  \<open>CleanUpIfStillOffline\<close> do on every branch, and that creating a room returns.
\<close>

section \<open>Well-formedness under the elementary changes\<close>

lemma wf_keeps:
  assumes wf: "server_wf s" and k: "keeps_players (rheap s r) (f (rheap s r))"
  shows "server_wf (upd_room r f s)"
proof (rule wf_upd_room [OF wf])
  assume "r < rnext s"
  with wf have "room_ok s (rheap s r)" by (rule server_wfD(5))
  with k show "room_ok s (f (rheap s r))" by (simp add: room_ok_def keeps_players_def)
qed (use k in \<open>simp add: keeps_players_def\<close>)

lemma wf_without: "server_wf s \<Longrightarrow> server_wf (upd_room r (without p) s)"
  by (rule wf_upd_room) (simp_all add: without_def room_ok_leave server_wfD(5))

lemma add_room_simps [simp]:
  "rheap (add_room i s) = (rheap s)(rnext s := new_room i (rmEngine s))" "rnext (add_room i s) = Suc (rnext s)"
  "snext (add_room i s) = snext s" "sheap (add_room i s) = sheap s" "AllSessions (add_room i s) = AllSessions s"
  "Rooms (add_room i s) = AList.update i (rnext s) (Rooms s)" "MatchQueue (add_room i s) = MatchQueue s"
  by (simp_all add: add_room_def)

lemma wf_add_room:
  assumes "server_wf s" shows "server_wf (add_room i s)"
proof -
  have p: "pid (add_room i s) = pid s" by (simp add: pid_def fun_eq_iff)
  have "room_ok (add_room i s) = room_ok s" by (simp add: room_ok_def fun_eq_iff p)
  moreover have "room_ok s (new_room i b)" for b by (simp add: room_ok_def new_room_def)
  ultimately show ?thesis using assms by (auto simp: server_wf_def p less_Suc_eq new_room_def)
qed

lemma wf_add_session:
  assumes wf: "server_wf s" and n: "sSend n = []" shows "server_wf (add_session n s)"
proof -
  let ?t = "add_session n s"
  have p: "a < snext s \<Longrightarrow> pid ?t a = pid s a" for a by (simp add: pid_def add_session_def)
  have "room_ok s g \<Longrightarrow> room_ok ?t g" for g
    using p by (auto simp: room_ok_def add_session_def intro: less_SucI)
  then have "r < rnext s \<Longrightarrow> room_ok ?t (rheap s r)" for r using wf by (simp add: server_wf_def)
  moreover have "map_of (AllSessions s) u = Some a \<Longrightarrow> a < Suc (snext s) \<and> pid ?t a = u" for u a
    using server_wfD(6,7) [OF wf] p by (metis less_SucI)
  ultimately show ?thesis using wf n
    by (simp add: server_wf_def) (auto simp: add_session_def)
qed

lemma wf_register: "server_wf s \<Longrightarrow> a < snext s \<Longrightarrow> pid s a = u \<Longrightarrow> server_wf (RegisterSession u a s)"
  by (auto simp: server_wf_def RegisterSession_def room_ok_def pid_def)

lemma wf_unregister: "server_wf s \<Longrightarrow> server_wf (s\<lparr>AllSessions := AList.delete u (AllSessions s)\<rparr>)"
  by (auto simp: server_wf_def room_ok_def pid_def split: if_splits)

lemma wf_push: "server_wf s \<Longrightarrow> a < snext s \<Longrightarrow> server_wf (s\<lparr>MatchQueue := MatchQueue s @ [a]\<rparr>)"
  by (auto simp: server_wf_def room_ok_def pid_def)

section \<open>Capacity\<close>

definition cap_inv :: "nat \<Rightarrow> 'w server \<Rightarrow> bool" where
  "cap_inv k s \<longleftrightarrow> server_wf s \<and> engine_wf s \<and> at_most_two s \<and> k \<le> snext s"

lemma wf_engine_cong: "engine_wf s \<Longrightarrow> same_engine t s \<Longrightarrow> engine_wf t"
  using engine_wf_same by blast

lemma engine_wf_elementary [simp]:
  "engine_wf (upd_room r f s) = engine_wf s" "engine_wf (enterRoom r i a s) = engine_wf s"
  "engine_wf (add_room i s) = engine_wf s" "engine_wf (forgetRoom i s) = engine_wf s"
  "engine_wf (add_session n s) = engine_wf s" "engine_wf (RegisterSession u a s) = engine_wf s"
  "engine_wf (s\<lparr>Rooms := rs\<rparr>) = engine_wf s" "engine_wf (s\<lparr>AllSessions := m\<rparr>) = engine_wf s"
  "engine_wf (s\<lparr>MatchQueue := q\<rparr>) = engine_wf s"
  by (simp_all add: engine_wf_same)

lemma snext_elementary [simp]:
  "snext (add_session n s) = Suc (snext s)" "snext (RegisterSession u a s) = snext s"
  by (simp_all add: add_session_def RegisterSession_def)

interpretation cap: status_free_invariant "cap_inv k" for k
proof unfold_locales
  fix s t :: "'a server" and a r i p n u f
  assume inv: "cap_inv k s"
  then have wf: "server_wf s" and e: "engine_wf s" and two: "at_most_two s" and k: "k \<le> snext s"
    by (simp_all add: cap_inv_def)
  show "server_wf s" "engine_wf s" by (fact wf e)+
  show "cap_inv k t" if "same_rooms s t" "engine_wf t"
    using that wf two k same_rooms_wf [OF that(1)] by (simp add: cap_inv_def same_rooms_def)
  show "cap_inv k (upd_room r f s)" if "keeps_players (rheap s r) (f (rheap s r))"
    using wf_keeps [of s r f] wf that e two k by (auto simp: cap_inv_def at_most_two_def keeps_players_def)
  show "cap_inv k (enterRoom r i a s)" if "a < snext s" "length (rSessions (rheap s r)) < MaxPlayersPerRoom"
    using wf_enterRoom [OF wf that(1)] at_most_two_enterRoom [OF two that(2)] e k by (simp add: cap_inv_def)
  show "cap_inv k (enterRoom (rnext s) i a (add_room i s))" if "a < snext s"
  proof -
    have "at_most_two (add_room i s)" using two by (auto simp: at_most_two_def less_Suc_eq new_room_def)
    then have "at_most_two (enterRoom (rnext s) i a (add_room i s))"
      by (rule at_most_two_enterRoom) (simp add: new_room_def MaxPlayersPerRoom_def)
    moreover have "server_wf (enterRoom (rnext s) i a (add_room i s))"
      using wf_add_room [OF wf] that by (intro wf_enterRoom) simp_all
    ultimately show ?thesis using e k by (simp add: cap_inv_def)
  qed
  have del: "length (AList.delete p m) \<le> length m" for m :: "(string \<times> nat) list"
    by (rule length_delete_le)
  have leave: "cap_inv k (upd_room r (without p) s)" for r
    using wf_without [OF wf] e two k order_trans [OF del]
    by (auto simp: cap_inv_def at_most_two_def without_def)
  show "cap_inv k (upd_room r (without p) s)" by (rule leave)
  show "cap_inv k (forgetRoom i (upd_room r (without p) s))"
    using leave [of r] wf_forgetRoom by (auto simp: cap_inv_def two_forgetRoom)
  show "cap_inv k (add_session n s)" if "sSend n = []"
    using wf_add_session [OF wf that] e two k by (simp add: cap_inv_def at_most_two_def) (simp add: add_session_def)
  show "cap_inv k (RegisterSession u a s)" if "a < snext s" "pid s a = u"
    using wf_register [OF wf that] e two k by (simp add: cap_inv_def at_most_two_def) (simp add: RegisterSession_def)
  show "cap_inv k (s\<lparr>AllSessions := AList.delete u (AllSessions s)\<rparr>)"
    using wf_unregister [OF wf] e two k by (simp add: cap_inv_def at_most_two_def)
  show "cap_inv k (s\<lparr>MatchQueue := MatchQueue s @ [a]\<rparr>)" if "a < snext s"
    using wf_push [OF wf that] e two k by (simp add: cap_inv_def at_most_two_def)
qed

section \<open>Occupancy\<close>

definition occ_inv :: "nat \<Rightarrow> 'w server \<Rightarrow> bool" where
  "occ_inv k s \<longleftrightarrow> server_wf s \<and> engine_wf s \<and> no_empty_room s \<and> k \<le> snext s"

lemma update_not_Nil: "AList.update k v m \<noteq> []"
  by (cases m) auto

interpretation occ: status_free_invariant "occ_inv k" for k
proof unfold_locales
  fix s t :: "'a server" and a r i p n u f
  assume inv: "occ_inv k s"
  then have wf: "server_wf s" and e: "engine_wf s" and ne: "no_empty_room s" and k: "k \<le> snext s"
    by (simp_all add: occ_inv_def)
  show "server_wf s" "engine_wf s" by (fact wf e)+
  show "occ_inv k t" if "same_rooms s t" "engine_wf t"
    using that wf ne k same_rooms_wf [OF that(1)] by (simp add: occ_inv_def same_rooms_def)
  show "occ_inv k (upd_room r f s)" if "keeps_players (rheap s r) (f (rheap s r))"
    using wf_keeps [of s r f] wf that e ne k by (auto simp: occ_inv_def no_empty_room_def keeps_players_def)
  show "occ_inv k (enterRoom r i a s)" if "a < snext s"
    using wf_enterRoom [OF wf that] ne e k by (auto simp: occ_inv_def no_empty_room_def update_not_Nil)
  show "occ_inv k (enterRoom (rnext s) i a (add_room i s))" if "a < snext s"
  proof -
    have "server_wf (enterRoom (rnext s) i a (add_room i s))"
      using wf_add_room [OF wf] that by (intro wf_enterRoom) simp_all
    then show ?thesis using e k ne by (auto simp: occ_inv_def no_empty_room_def update_not_Nil split: if_splits)
  qed
  show "occ_inv k (upd_room r (without p) s)" if "rSessions (without p (rheap s r)) \<noteq> []"
    using wf_without [OF wf] that e ne k by (auto simp: occ_inv_def no_empty_room_def)
  show "occ_inv k (forgetRoom i (upd_room r (without p) s))" if r: "map_of (Rooms s) i = Some r"
  proof -
    have "j \<noteq> i \<Longrightarrow> map_of (Rooms s) j = Some r' \<Longrightarrow> r' \<noteq> r" for j r'
      using Rooms_inj [OF wf] r by blast
    moreover have "map_ok (Rooms s)" using wf by (rule server_wfD(1))
    ultimately show ?thesis using wf_forgetRoom [OF wf_without [OF wf]] e ne k
      by (auto simp: occ_inv_def no_empty_room_def split: if_splits)
  qed
  show "occ_inv k (add_session n s)" if "sSend n = []"
    using wf_add_session [OF wf that] e ne k by (simp add: occ_inv_def no_empty_room_def) (simp add: add_session_def)
  show "occ_inv k (RegisterSession u a s)" if "a < snext s" "pid s a = u"
    using wf_register [OF wf that] e ne k by (simp add: occ_inv_def no_empty_room_def) (simp add: RegisterSession_def)
  show "occ_inv k (s\<lparr>AllSessions := AList.delete u (AllSessions s)\<rparr>)"
    using wf_unregister [OF wf] e ne k by (simp add: occ_inv_def no_empty_room_def)
  show "occ_inv k (s\<lparr>MatchQueue := MatchQueue s @ [a]\<rparr>)" if "a < snext s"
    using wf_push [OF wf that] e ne k by (simp add: occ_inv_def no_empty_room_def)
qed

section \<open>Attachment to the engine\<close>

text \<open>In a server with an engine connection every room has it too.\<close>

definition att_inv :: "nat \<Rightarrow> 'w server \<Rightarrow> bool" where
  "att_inv k s \<longleftrightarrow> server_wf s \<and> engine_wf s \<and> rmEngine s \<and> (\<forall>r < rnext s. rEngineConn (rheap s r)) \<and> k \<le> snext s"

interpretation att: status_free_invariant "att_inv k" for k
proof unfold_locales
  fix s t :: "'a server" and a r i p n u f
  assume inv: "att_inv k s"
  then have wf: "server_wf s" and e: "engine_wf s" and c: "rmEngine s" "\<forall>r < rnext s. rEngineConn (rheap s r)" and k: "k \<le> snext s"
    by (simp_all add: att_inv_def)
  show "server_wf s" "engine_wf s" by (fact wf e)+
  show "att_inv k t" if "same_rooms s t" "engine_wf t"
    using that wf c k same_rooms_wf(1) [OF that(1)] by (simp add: att_inv_def same_rooms_def)
  show "att_inv k (upd_room r f s)" if "keeps_players (rheap s r) (f (rheap s r))"
    using wf_keeps [of s r f] wf that e c k by (auto simp: att_inv_def keeps_players_def)
  show "att_inv k (enterRoom r i a s)" if "a < snext s"
    using wf_enterRoom [OF wf that] e c k by (simp add: att_inv_def) (simp add: enterRoom_def Let_def)
  show "att_inv k (enterRoom (rnext s) i a (add_room i s))" if "a < snext s"
  proof -
    have "server_wf (enterRoom (rnext s) i a (add_room i s))"
      using wf_add_room [OF wf] that by (intro wf_enterRoom) simp_all
    moreover have "rmEngine (enterRoom (rnext s) i a (add_room i s))" using c(1) by (simp add: enterRoom_def add_room_def Let_def)
    ultimately show ?thesis using e k c by (auto simp: att_inv_def less_Suc_eq new_room_def)
  qed
  have leave: "att_inv k (upd_room r (without p) s)" for r
    using wf_without [OF wf] e c k by (auto simp: att_inv_def without_def)
  show "att_inv k (upd_room r (without p) s)" by (rule leave)
  show "att_inv k (forgetRoom i (upd_room r (without p) s))"
    using leave [of r] wf_forgetRoom by (auto simp: att_inv_def) (simp_all add: forgetRoom_def)
  show "att_inv k (add_session n s)" if "sSend n = []"
    using wf_add_session [OF wf that] e c k by (simp add: att_inv_def) (simp add: add_session_def)
  show "att_inv k (RegisterSession u a s)" if "a < snext s" "pid s a = u"
    using wf_register [OF wf that] e c k by (simp add: att_inv_def) (simp add: RegisterSession_def)
  show "att_inv k (s\<lparr>AllSessions := AList.delete u (AllSessions s)\<rparr>)"
    using wf_unregister [OF wf] e c k by (simp add: att_inv_def)
  show "att_inv k (s\<lparr>MatchQueue := MatchQueue s @ [a]\<rparr>)" if "a < snext s"
    using wf_push [OF wf that] e c k by (simp add: att_inv_def)
qed

section \<open>Room ids\<close>

lemma hexDigit_inj:
  assumes "m < 16" "n < 16" "hexDigit m = hexDigit n" shows "m = n"
proof -
  let ?D = "''0123456789abcdef''"
  have "distinct ?D" "length ?D = 16" by simp_all
  then have "m < 16 \<Longrightarrow> n < 16 \<Longrightarrow> ?D ! m = ?D ! n \<longleftrightarrow> m = n" by (metis nth_eq_iff_index_eq)
  with assms show ?thesis unfolding hexDigit_def by (simp only: mod_less)
qed

lemma hexByte_inj:
  fixes b c :: char
  assumes "hexDigit (of_char b div 16) = hexDigit (of_char c div 16)" "hexDigit (of_char b) = hexDigit (of_char c)"
  shows "b = c"
proof -
  have lt: "(of_char x :: nat) div 16 < 16" for x :: char
    using nat_of_char_less_256 [of x] by (simp add: less_mult_imp_div_less)
  have mod: "hexDigit (n mod 16) = hexDigit n" for n by (simp add: hexDigit_def)
  have "(of_char b :: nat) div 16 = of_char c div 16" using assms(1) lt by (intro hexDigit_inj) simp_all
  moreover have "(of_char b :: nat) mod 16 = of_char c mod 16"
    using assms(2) by (intro hexDigit_inj) (simp_all add: mod)
  ultimately have "(of_char b :: nat) = of_char c" by (metis div_mult_mod_eq)
  then show ?thesis by simp
qed

text \<open>The room id of \<open>generateRoomID\<close> is the hexadecimal text of the random bytes: two digits
  per byte (16 characters for the 8 bytes it asks for), every character a lower-case hexadecimal
  digit, and different bytes give different ids.\<close>

lemma hexEncode_id:
  "length (hexEncode bs) = 2 * length bs \<and> set (hexEncode bs) \<subseteq> set ''0123456789abcdef''
   \<and> (hexEncode bs = hexEncode cs \<longleftrightarrow> bs = cs)"
proof (intro conjI)
  have digit: "hexDigit n \<in> set ''0123456789abcdef''" for n
    unfolding hexDigit_def by (rule nth_mem) simp
  have within: "set (hexEncode bs) \<subseteq> D" if "\<And>n. hexDigit n \<in> D" for D
    using that by (induction bs) (auto simp: hexEncode_def)
  show "length (hexEncode bs) = 2 * length bs" by (induction bs) (simp_all add: hexEncode_def)
  show "set (hexEncode bs) \<subseteq> set ''0123456789abcdef''"
    by (rule within) (rule digit)
  show "hexEncode bs = hexEncode cs \<longleftrightarrow> bs = cs"
  proof (induction bs arbitrary: cs)
    case Nil
    then show ?case by (cases cs) (simp_all add: hexEncode_def)
  next
    case (Cons b bs)
    then show ?case by (cases cs) (auto simp: hexEncode_def dest: hexByte_inj)
  qed
qed

section \<open>Creating a room\<close>

text \<open>The ids that successive calls of \<open>generateRoomID\<close> draw.\<close>

primrec draws :: "'w ext \<Rightarrow> 'w \<Rightarrow> nat \<Rightarrow> string list" where
  "draws X w 0 = []"
| "draws X w (Suc k) = (case generateRoomID X w of (i, w') \<Rightarrow> i # draws X w' k)"

lemma freshRoomID_some:
  "\<not> set (draws X w k) \<subseteq> dom (map_of rooms) \<Longrightarrow> freshRoomID X rooms w \<noteq> None"
proof (induction k arbitrary: w)
  case (Suc k)
  obtain i w' where g: "generateRoomID X w = (i, w')" by (cases "generateRoomID X w")
  show ?case
  proof (cases "map_of rooms i = None")
    case True
    with g show ?thesis by (subst freshRoomID.simps) simp
  next
    case False
    with Suc.prems g have "\<not> set (draws X w' k) \<subseteq> dom (map_of rooms)" by auto
    then have "freshRoomID X rooms w' \<noteq> None" by (rule Suc.IH)
    with g False show ?thesis by (subst freshRoomID.simps) auto
  qed
qed simp

lemma draws_escape:
  assumes "distinct (draws X w (Suc (length rooms)))"
  shows "\<not> set (draws X w (Suc (length rooms))) \<subseteq> dom (map_of rooms)"
proof
  let ?ds = "draws X w (Suc (length rooms))"
  have len: "length (draws X v k) = k" for v k
    by (induction k arbitrary: v) (simp_all split: prod.split)
  assume "set ?ds \<subseteq> dom (map_of rooms)"
  then have "card (set ?ds) \<le> card (dom (map_of rooms))" by (rule card_mono [OF finite_dom_map_of])
  also have "\<dots> \<le> length rooms"
    by (simp add: dom_map_of_conv_image_fst) (metis card_image_le card_length le_trans List.finite_set)
  finally have "length ?ds \<le> length rooms" using distinct_card [OF assms] by metis
  then show False by (simp only: len)
qed

lemma Send_done:
  "length (sSend (sheap s a)) < sendCap \<Longrightarrow> SendResponse a c cd m d s =
    Done () (upd_sess a (\<lambda>n. n\<lparr>sSend := sSend n @ [\<lparr>Cmd = c, Code = cd, Msg = m, Data = d\<rparr>]\<rparr>) s)"
  by (simp add: SendResponse_def)


section \<open>Joining a room\<close>

definition may_join :: "string \<Rightarrow> nat \<Rightarrow> 'w server \<Rightarrow> bool" where
  "may_join i a s \<longleftrightarrow> (case map_of (Rooms s) i of None \<Rightarrow> False
     | Some r \<Rightarrow> map_of (rSessions (rheap s r)) (pid s a) = None \<and> rStatus (rheap s r) = RoomWaiting
         \<and> length (rSessions (rheap s r)) < MaxPlayersPerRoom)"

text \<open>C25: \<open>JoinRoom\<close> admits a player exactly if the room exists, is waiting, does not hold a player
  of that id already, and has fewer than two players; an admitted player is the room's new last
  entry and not ready; a refused join changes no room.\<close>

theorem JoinRoom_admits_iff:
  assumes "length (sSend (sheap s a)) < sendCap"
  shows "\<exists>ok reason t. JoinRoom i a s = Done (ok, reason) t \<and> (ok \<longleftrightarrow> may_join i a s)
    \<and> Rooms t = Rooms s \<and> (\<not> ok \<longrightarrow> rheap t = rheap s)
    \<and> (ok \<longrightarrow> (\<exists>r. map_of (Rooms s) i = Some r \<and> sRoomID (sheap t a) = i
         \<and> rSessions (rheap t r) = rSessions (rheap s r) @ [(pid s a, a)]
         \<and> map_of (rReadyPlayers (rheap t r)) (pid s a) = Some False
         \<and> (\<forall>r'. r' \<noteq> r \<longrightarrow> rheap t r' = rheap s r')))"
proof (cases "may_join i a s")
  case True
  then obtain r where r: "map_of (Rooms s) i = Some r" "map_of (rSessions (rheap s r)) (pid s a) = None"
    "rStatus (rheap s r) = RoomWaiting" "length (rSessions (rheap s r)) < MaxPlayersPerRoom"
    by (auto simp: may_join_def split: option.splits)
  have app: "map_of m k = None \<Longrightarrow> AList.update k v m = m @ [(k, v)]" for m :: "(string \<times> nat) list" and k v
    by (induction m) (auto split: if_splits)
  let ?u = "upd_sess a (\<lambda>n. n\<lparr>sSend := sSend n @ [\<lparr>Cmd = ''join_room_res'', Code = CodeSuccess,
      Msg = MRoom Joined, Data = JNull\<rparr>]\<rparr>) (enterRoom r i a s)"
  let ?t = "BroadcastToRoom r ''join_room'' CodeSuccess (MRoom (PlayerJoined (pid ?u a))) JNull ?u"
  have J: "JoinRoom i a s = Done (True, []) ?t"
    using r assms True by (simp add: JoinRoom_def Let_def Send_done)
  have o: "only_sends ?u ?t" by (rule only_sends_Broadcast)
  have heap: "rheap ?t = rheap (enterRoom r i a s)" "Rooms ?t = Rooms s"
    using only_sendsD(2,4) [OF o] by simp_all
  have room: "sRoomID (sheap ?t a) = i" using only_sends_sess(2) [OF o, of a] by simp
  have new: "rSessions (rheap ?t r) = rSessions (rheap s r) @ [(pid s a, a)]"
    "map_of (rReadyPlayers (rheap ?t r)) (pid s a) = Some False"
    "r' \<noteq> r \<Longrightarrow> rheap ?t r' = rheap s r'" for r'
    unfolding heap by (simp_all add: app [OF r(2)])
  show ?thesis using J True r(1) heap(2) room new by blast
next
  case False
  have "\<exists>reason t. JoinRoom i a s = Done (False, reason) t \<and> rheap t = rheap s \<and> Rooms t = Rooms s"
  proof (cases "map_of (Rooms s) i")
    case None
    then show ?thesis using assms by (simp add: JoinRoom_def Send_done)
  next
    case (Some r)
    with False have "map_of (rSessions (rheap s r)) (pid s a) \<noteq> None \<or> rStatus (rheap s r) \<noteq> RoomWaiting
        \<or> MaxPlayersPerRoom \<le> length (rSessions (rheap s r))" by (auto simp: may_join_def)
    with Some show ?thesis using assms by (cases "map_of (rSessions (rheap s r)) (pid s a)")
      (simp_all add: JoinRoom_def Send_done)
  qed
  with False show ?thesis by blast
qed

end
