(* ===== verification/GameInv.thy ===== *)
theory GameInv
  imports Game RoomProps
begin

text \<open>
  The operations of theory \<open>Game\<close> keep every invariant of the contract \<open>room_invariant\<close>.
\<close>

lemma quiet_addTask: "quiet s (s\<lparr>tasks := ts\<rparr>)" by simp

lemma injectBattleSide_final: "final (injectBattleSide r raw p s) = s"
  by (simp add: injectBattleSide_def split: option.split prod.split bool.split)

text \<open>A start that fails leaves the room as it was: it was waiting.\<close>

lemma quiet_failed_start:
  assumes "rStatus (rheap s r) = RoomWaiting"
  shows "quiet s (handleStartError r e (upd_room r (\<lambda>g. g\<lparr>rStatus := RoomPlaying\<rparr>) s))"
proof -
  have "(rheap s r)\<lparr>rStatus := RoomWaiting\<rparr> = rheap s r" using assms by (cases "rheap s r") simp
  then have "upd_room r (\<lambda>g. g\<lparr>rStatus := RoomWaiting\<rparr>) (upd_room r (\<lambda>g. g\<lparr>rStatus := RoomPlaying\<rparr>) s) = s"
    by (simp add: upd_room_def fun_upd_idem)
  then show ?thesis by (simp add: handleStartError_def quiet_Broadcast)
qed

context room_invariant begin

lemma I_tasks: "I s \<Longrightarrow> I (s\<lparr>tasks := ts\<rparr>)"
  and I_world: "I s \<Longrightarrow> I (s\<lparr>world := w\<rparr>)"
  using I_quiet' by (blast intro: quiet_upds)+

lemma I_handleStartError: "I s \<Longrightarrow> I (handleStartError r reason s)"
  by (simp add: handleStartError_def I_Broadcast I_reopen)

lemma I_StartGame:
  assumes I: "I s" shows "I (final (StartGame r s))"
proof (cases "rStatus (rheap s r) = RoomWaiting")
  case w: True
  have fail: "I (handleStartError r e (upd_room r (\<lambda>g. g\<lparr>rStatus := RoomPlaying\<rparr>) s))" for e
    using I quiet_failed_start [OF w] by (rule I_quiet')
  show ?thesis
  proof (cases "length (rSessions (rheap s r)) < 2")
    case False
    then have "I (upd_room r (\<lambda>g. g\<lparr>rStatus := RoomPlaying\<rparr>) s)" using I_start [OF I w] by simp
    then show ?thesis using False fail by (auto simp: StartGame_def Let_def w split: sum.split intro!: I_tasks I_node)
  qed (simp add: StartGame_def Let_def w fail)
qed (simp add: StartGame_def I)

lemma I_runStart: "I s \<Longrightarrow> I (final (runStart r n js s))"
  by (auto simp: runStart_def split: sum.split intro!: I_handleStartError)

lemma I_runStartTry: "I s \<Longrightarrow> I (final (runStartTry X r na js k s))"
  by (auto simp: runStartTry_def Let_def split: option.split prod.split sum.split
      intro!: I_handleStartError I_Broadcast I_world)

lemma I_StartGameForSession: "I s \<Longrightarrow> I (final (StartGameForSession a s))"
  by (auto simp: StartGameForSession_def split: option.split intro!: I_Send I_StartGame)

lemma I_reportTurn: "I s \<Longrightarrow> I (final (reportTurn X r a m s))"
  by (auto simp: reportTurn_def Let_def intro!: I_Send_then I_Broadcast)

lemma I_forward_sent:
  assumes "I s"
  shows "I (final (case res of Inl e \<Rightarrow> SendResponse a c k (f e) d s
     | Inr act \<Rightarrow> if \<not> rEngineConn (rheap s r) then Stop Panicked s
         else (case GetNodeByPodIndex s n of
            Inl e \<Rightarrow> SendResponse a c k1 m1 d s
          | Inr na \<Rightarrow> (case CallSendCommand X (nclient (nheap s na)) i p act (world s) of
                None \<Rightarrow> Stop Panicked s
              | Some (Inl e, w) \<Rightarrow> SendResponse a c k2 (m2 e) d (s\<lparr>world := w\<rparr>)
              | Some (Inr resp, w) \<Rightarrow>
                  if resp_Code resp \<noteq> 0 then SendResponse a c (resp_Code resp) (m3 resp) d (s\<lparr>world := w\<rparr>)
                  else reportTurn X r a (resp_Message resp) (s\<lparr>world := w\<rparr>)))))"
  using assms by (auto split: sum.split option.split prod.split intro!: I_Send I_reportTurn I_world)

lemma I_forwardBattleAction:
  assumes "I s" shows "I (final (forwardBattleAction X r a raw s))"
proof -
  have inject: "I (final (andthen (injectBattleSide r raw p s) k))"
    if "\<And>res. I (final (k res s))" for p k
  proof (cases "injectBattleSide r raw p s")
    case (Done res t)
    with injectBattleSide_final [of r raw p s] that show ?thesis by simp
  next
    case (Stop c t)
    with injectBattleSide_final [of r raw p s] assms show ?thesis by simp
  qed
  with assms show ?thesis
    by (auto simp: forwardBattleAction_def Let_def intro!: I_Send inject I_forward_sent)
qed

lemma I_HandleBattleAction: "I s \<Longrightarrow> I (final (HandleBattleAction X a raw s))"
  by (auto simp: HandleBattleAction_def split: option.split intro!: I_Send I_forwardBattleAction)

lemma I_HandleBattleActionAndPersist: "I s \<Longrightarrow> I (final (HandleBattleActionAndPersist X a raw s))"
  unfolding HandleBattleActionAndPersist_def
  by (rule final_andthen_inv [where P = I, OF I_HandleBattleAction]) (auto split: option.split)

lemma I_broadcastSummary: "I s \<Longrightarrow> I (broadcastSummary r s)"
  by (auto simp: broadcastSummary_def Let_def split: sum.split intro!: I_Broadcast)

lemma I_setTeam: "I s \<Longrightarrow> I (upd_sess a (\<lambda>n. n\<lparr>sSelectedPokemon := t\<rparr>) s)"
  by (erule I_quiet') (rule quiet_upd_sess, simp)

lemma I_HandleSelectPokemon:
  assumes I: "I s" and r: "r < rnext s"
  shows "I (final (HandleSelectPokemon r a raw s))"
proof -
  let ?s1 = "\<lambda>team. upd_sess a (\<lambda>n. n\<lparr>sSelectedPokemon := Some team\<rparr>) s"
  have I1: "I (?s1 team)" for team using I by (rule I_setTeam)
  have p: "pid (?s1 team) a = pid s a" for team by (simp add: pid_def)
  have I2: "I (upd_room r (\<lambda>g. g\<lparr>rReadyPlayers := AList.update (pid s a) True (rReadyPlayers g)\<rparr>) (?s1 team))"
    if "map_of (rSessions (rheap s r)) (pid s a) \<noteq> None" "rStatus (rheap s r) = RoomWaiting" for team
    using I_ready [where p = "pid s a" and r = r, OF I1] that r by simp
  have fin: "I (final (andthen (SendResponse a c k m d v) (\<lambda>_ s3.
        if b then StartGame r (broadcastSummary r (BroadcastToRoom r c' k' (m' s3) d' s3))
        else Done () (BroadcastToRoom r c' k' (m' s3) d' s3))))"
    if "I v" for v c k m d b c' k' m' d'
    by (rule I_Send_then [OF that]) (auto intro: I_StartGame I_broadcastSummary I_Broadcast)
  show ?thesis
    unfolding HandleSelectPokemon_def Let_def p
    using I I1 I2 by (auto simp del: andthen.simps split: prod.split bool.split intro!: I_Send fin)
qed

lemma I_HandleSelectPokemonAndPersist:
  assumes "I s" shows "I (final (HandleSelectPokemonAndPersist a raw s))"
proof (cases "map_of (Rooms s) (sRoomID (sheap s a))")
  case (Some r)
  have "r < rnext s" using I_wf [OF assms] Some by (rule server_wfD(3))
  with Some assms show ?thesis
    by (simp add: HandleSelectPokemonAndPersist_def I_Send I_HandleSelectPokemon)
qed (use assms in \<open>simp add: HandleSelectPokemonAndPersist_def I_Send\<close>)

end

end
