(* ===== verification/Membership.thy ===== *)
theory Membership
  imports RoomProps
begin

text \<open>
  Who is in a room, and who hears of it: delivery of broadcasts, leaving a room, the clean-up
  of a session that stayed offline, and what happens to the first room of a player who enters a
  second one.
\<close>

section \<open>Broadcasts\<close>

lemma room_ok_distinct:
  assumes "room_ok s g" shows "distinct (List.map snd (rSessions g))"
proof -
  have "inj_on snd (set (rSessions g))"
  proof (rule inj_onI)
    fix x y assume x: "x \<in> set (rSessions g)" and y: "y \<in> set (rSessions g)" and eq: "snd x = snd y"
    have "pid s (snd z) = fst z" if "z \<in> set (rSessions g)" for z
      using room_okD(5) [OF assms, of "fst z" "snd z"] map_of_in_set [OF room_okD(1) [OF assms]] that by simp
    with x y eq show "x = y" by (metis prod.expand)
  qed
  moreover have "distinct (rSessions g)"
    using room_okD(1) [OF assms] by (simp add: map_ok_def distinct_map)
  ultimately show ?thesis by (simp add: distinct_map)
qed

lemma fold_offer:
  "distinct (List.map snd es) \<Longrightarrow>
   sheap (fold (\<lambda>e. upd_sess (snd e) f) es s) a = (if a \<in> snd ` set es then f (sheap s a) else sheap s a)"
proof (induction es arbitrary: s)
  case (Cons e es)
  then show ?case by (cases "a = snd e") auto
qed simp

definition member_of :: "'w server \<Rightarrow> nat \<Rightarrow> nat \<Rightarrow> bool" where
  "member_of s r a \<longleftrightarrow> a \<in> ran (map_of (rSessions (rheap s r)))"

lemma ran_map_of: "map_ok m \<Longrightarrow> ran (map_of m) = snd ` set m"
  by (simp add: map_ok_def ran_distinct)

text \<open>A broadcast appends its message to the channel of every session in the room that has
  space, exactly once, and to no other: a full channel loses the message, and nothing else of the
  state changes.\<close>

lemma BroadcastToRoom_delivery:
  assumes "server_wf s" and "r < rnext s"
  shows "sSend (sheap (BroadcastToRoom r cmd code m d s) a) = sSend (sheap s a) @
      (if member_of s r a \<and> length (sSend (sheap s a)) < sendCap
       then [\<lparr>Cmd = cmd, Code = code, Msg = m, Data = d\<rparr>] else [])
    \<and> only_sends s (BroadcastToRoom r cmd code m d s)"
proof -
  have ok: "room_ok s (rheap s r)" using assms by (rule server_wfD(5))
  have "sheap (BroadcastToRoom r cmd code m d s) a
    = (if member_of s r a then offer \<lparr>Cmd = cmd, Code = code, Msg = m, Data = d\<rparr> (sheap s a) else sheap s a)"
    unfolding BroadcastToRoom_def member_of_def ran_map_of [OF room_okD(1) [OF ok]]
    by (rule fold_offer [OF room_ok_distinct [OF ok]])
  then show ?thesis by (simp add: offer_def only_sends_Broadcast)
qed

section \<open>Leaving\<close>

lemma AllSessions_DeleteRoom: "AllSessions (final (DeleteRoom X i s)) = AllSessions s"
  by (rule DeleteRoom_cases [of s X i]) (auto simp: same_rooms_def)

lemma AllSessions_LeaveRoom: "AllSessions (final (LeaveRoom X i a s)) = AllSessions s"
proof (cases "map_of (Rooms s) i")
  case None
  then show ?thesis by (simp add: LeaveRoom_def only_sendsD(5) [OF only_sends_SendResponse])
next
  case (Some r)
  then show ?thesis
    by (simp add: LeaveRoom_some [OF Some] Let_def AllSessions_DeleteRoom only_sendsD(5) [OF only_sends_Broadcast])
qed

definition leaves :: "nat \<Rightarrow> nat \<Rightarrow> 'w server \<Rightarrow> 'w server \<Rightarrow> bool" where
  "leaves r a s t \<longleftrightarrow> rSessions (rheap t r) = rSessions (without (pid s a) (rheap s r))
     \<and> (\<forall>q. q \<noteq> r \<longrightarrow> rheap t q = rheap s q) \<and> AllSessions t = AllSessions s
     \<and> (\<forall>b. sPlayer (sheap t b) = sPlayer (sheap s b) \<and> sConn (sheap t b) = sConn (sheap s b)
          \<and> sRoomID (sheap t b) = (if b = a then [] else sRoomID (sheap s b)))"

lemma leaves_only_sends:
  assumes "leaves r a s t" "only_sends t u" shows "leaves r a s u"
  using assms(1) only_sendsD(2,5) [OF assms(2)] only_sends_sess(1-3) [OF assms(2)] by (simp add: leaves_def)

lemma leaves_start: "leaves r a s (upd_sess a (\<lambda>n. n\<lparr>sRoomID := []\<rparr>) (upd_room r (without (pid s a)) s))"
  by (simp add: leaves_def)

lemma leaves_finish: "leaves r a s t \<Longrightarrow> leaves r a s (upd_room r (\<lambda>g. g\<lparr>rStatus := st\<rparr>) t)"
  by (simp add: leaves_def)

text \<open>What \<open>LeaveRoom\<close> does to a room that exists: the last player takes it away, another leaves it
  behind.\<close>

lemma LeaveRoom_last:
  assumes "engine_wf s" "map_of (Rooms s) i = Some r" "map_ok (Rooms s)" "rSessions (without (pid s a) (rheap s r)) = []"
  shows "\<exists>t. LeaveRoom X i a s = Done () t \<and> Rooms t = AList.delete i (Rooms s) \<and> leaves r a s t \<and> engine_wf t"
proof -
  let ?s2 = "upd_sess a (\<lambda>n. n\<lparr>sRoomID := []\<rparr>) (upd_room r (without (pid s a)) s)"
  have e2: "engine_wf ?s2" by (rule wf_engine_cong [OF assms(1)]) (simp add: same_engine_def)
  obtain t where t: "DeleteRoom X i ?s2 = Done () t"
    using DeleteRoom_returns [OF e2, of X i] by (auto simp: returns_iff)
  have "Rooms t = AList.delete i (Rooms s)" using DeleteRoom_gone [OF e2, of X i] t assms(3) by simp
  moreover have "leaves r a s t"
    using leaves_start [of r a s] DeleteRoom_heaps [of X i ?s2] AllSessions_DeleteRoom [of X i ?s2] t by (simp add: leaves_def)
  moreover have "engine_wf t" using wf_engine_cong [OF e2 engine_DeleteRoom [of X i ?s2]] t by simp
  ultimately show ?thesis using t assms(4) by (simp add: LeaveRoom_some [OF assms(2)] Let_def)
qed

lemma LeaveRoom_stays:
  assumes "engine_wf s" "map_of (Rooms s) i = Some r" "rSessions (without (pid s a) (rheap s r)) \<noteq> []"
  shows "\<exists>t. LeaveRoom X i a s = Done () t \<and> Rooms t = Rooms s \<and> leaves r a s t \<and> engine_wf t
    \<and> rStatus (rheap t r) = (if rStatus (rheap s r) = RoomPlaying then RoomFinished else rStatus (rheap s r))"
proof -
  let ?s2 = "upd_sess a (\<lambda>n. n\<lparr>sRoomID := []\<rparr>) (upd_room r (without (pid s a)) s)"
  let ?s3 = "BroadcastToRoom r (''Player Left! (playerID: '' @ pid s a @ '')'') CodeSuccess
             (MRoom (PlayerLeft (pid s a))) JNull ?s2"
  let ?f = "upd_room r (\<lambda>g. g\<lparr>rStatus := RoomFinished\<rparr>) ?s3"
  let ?t = "BroadcastToRoom r ''room_status_change'' CodeSuccess (MRoom StoppedByLeave) JNull ?f"
  have o: "only_sends ?s2 ?s3" and o': "only_sends ?f ?t" by (rule only_sends_Broadcast)+
  have l3: "leaves r a s ?s3" using leaves_start o by (rule leaves_only_sends)
  then have l: "leaves r a s ?t" using leaves_finish leaves_only_sends o' by blast
  have st: "rStatus (rheap ?s3 r) = rStatus (rheap s r)" "rStatus (rheap ?t r) = RoomFinished"
    using only_sendsD(2) [OF o] only_sendsD(2) [OF o'] by (simp_all add: without_def)
  have rooms: "Rooms ?s3 = Rooms s" "Rooms ?t = Rooms s" using only_sendsD(4) [OF o] only_sendsD(4) [OF o'] by simp_all
  have "engine_wf ?s2" by (rule wf_engine_cong [OF assms(1)]) (simp add: same_engine_def)
  then have e3: "engine_wf ?s3" using only_sends_same_engine [OF o] by (rule wf_engine_cong)
  then have "engine_wf ?f" by simp
  then have e: "engine_wf ?t" using only_sends_same_engine [OF o'] by (rule wf_engine_cong)
  have eq: "LeaveRoom X i a s = (if rStatus (rheap s r) = RoomPlaying then Done () ?t else Done () ?s3)"
    using assms(3) st(1) by (simp add: LeaveRoom_some [OF assms(2)] Let_def)
  show ?thesis
  proof (cases "rStatus (rheap s r) = RoomPlaying")
    case True
    then show ?thesis using eq l st rooms e by (intro exI [of _ ?t]) simp
  next
    case False
    then show ?thesis using eq l3 st rooms e3 by (intro exI [of _ ?s3]) simp
  qed
qed

lemma last_iff:
  assumes "map_ok (rSessions g)"
  shows "rSessions (without p g) = [] \<longleftrightarrow> dom (map_of (rSessions g)) \<subseteq> {p}"
  using am.get_del [OF assms, of p]
  by (auto simp: without_def map_of_None_Nil [symmetric] fun_eq_iff dom_def split: if_splits)

text \<open>C24: \<open>LeaveRoom\<close> on a room that exists returns, and the leaver's session points to no room.
  If nobody is left the room is gone from the table, and only that room, even when the RPCs that
  destroy it on the engine fail; else the room loses exactly the leaver, and a game in progress
  becomes finished.\<close>

theorem LeaveRoom_spec:
  assumes wf: "server_wf s" and engine: "engine_wf s" and r: "map_of (Rooms s) i = Some r"
  shows "\<exists>t. LeaveRoom X i a s = Done () t \<and> sRoomID (sheap t a) = []
    \<and> (if dom (map_of (rSessions (rheap s r))) \<subseteq> {pid s a}
       then map_of (Rooms t) = (map_of (Rooms s))(i := None)
       else Rooms t = Rooms s
         \<and> map_of (rSessions (rheap t r)) = (map_of (rSessions (rheap s r)))(pid s a := None)
         \<and> rStatus (rheap t r) = (if rStatus (rheap s r) = RoomPlaying then RoomFinished else rStatus (rheap s r)))"
proof -
  have ok: "map_ok (rSessions (rheap s r))" using room_okD(1) [OF server_wf_room [OF wf r]] .
  have rooms: "map_ok (Rooms s)" using wf by (rule server_wfD(1))
  show ?thesis
  proof (cases "rSessions (without (pid s a) (rheap s r)) = []")
    case True
    then obtain t where "LeaveRoom X i a s = Done () t" "Rooms t = AList.delete i (Rooms s)" "leaves r a s t"
      using LeaveRoom_last [OF engine r rooms] by blast
    with True show ?thesis using am.get_del [OF rooms, of i] by (simp add: leaves_def last_iff [OF ok])
  next
    case False
    then obtain t where "LeaveRoom X i a s = Done () t" "Rooms t = Rooms s" "leaves r a s t"
      "rStatus (rheap t r) = (if rStatus (rheap s r) = RoomPlaying then RoomFinished else rStatus (rheap s r))"
      using LeaveRoom_stays [OF engine r] by blast
    moreover have "map_of (rSessions (without (pid s a) (rheap s r))) = (map_of (rSessions (rheap s r)))(pid s a := None)"
      using am.get_del [OF ok] by (simp add: without_def)
    ultimately show ?thesis using False last_iff [OF ok] by (intro exI [of _ t]) (simp add: leaves_def)
  qed
qed

section \<open>Sessions that stay offline\<close>

text \<open>\<open>CleanUpIfStillOffline\<close> touches nothing while the player is unknown or connected; if the
  session has no connection it is removed from the registry, and only it.\<close>

lemma CleanUp_only_offline:
  assumes "server_wf s"
  shows "(if \<exists>a. FindSession u s = Some a \<and> sConn (sheap s a) = None
     then AllSessions (final (CleanUpIfStillOffline X u s)) = AList.delete u (AllSessions s)
       \<and> FindSession u (final (CleanUpIfStillOffline X u s)) = None
     else CleanUpIfStillOffline X u s = Done () s)"
  using server_wfD(2) [OF assms]
  by (auto simp: FindSession_def CleanUpIfStillOffline_def Let_def AllSessions_LeaveRoom am.get_del_same
      split: option.split)

section \<open>Entering a second room\<close>

lemma andthen_Done: "andthen m k = Done x t \<Longrightarrow> \<exists>y u. m = Done y u \<and> k y u = Done x t"
  by (cases m) auto

lemma JoinRoom_success:
  assumes "JoinRoom i a s = Done (True, m) t"
  shows "\<exists>r. map_of (Rooms s) i = Some r \<and> only_sends (enterRoom r i a s) t"
proof (cases "map_of (Rooms s) i")
  case None
  with assms show ?thesis by (auto simp: JoinRoom_def dest: andthen_Done)
next
  case (Some r)
  let ?s = "enterRoom r i a s"
  have "\<exists>y u. SendResponse a ''join_room_res'' CodeSuccess (MRoom Joined) JNull ?s = Done y u
      \<and> t = BroadcastToRoom r ''join_room'' CodeSuccess (MRoom (PlayerJoined (pid u a))) JNull u"
    using assms Some by (auto simp: JoinRoom_def Let_def split: if_splits dest!: andthen_Done)
  then obtain y u where u: "SendResponse a ''join_room_res'' CodeSuccess (MRoom Joined) JNull ?s = Done y u"
    and t: "t = BroadcastToRoom r ''join_room'' CodeSuccess (MRoom (PlayerJoined (pid u a))) JNull u" by blast
  have "only_sends ?s u" using only_sends_SendResponse [of ?s a] u by (metis final.simps(1))
  then have "only_sends ?s t" unfolding t by (rule only_sends_trans) (rule only_sends_Broadcast)
  with Some show ?thesis by blast
qed

text \<open>\<open>JoinRoom\<close> does not look at the room a player is in already: a player of a room who joins
  another one is a member of both, and after leaving the second room the session points to no
  room while the first room, which \<open>leave_room\<close> can no longer reach, still holds the player.\<close>

lemma second_room_keeps_first:
  assumes wf: "server_wf s" and r1: "map_of (Rooms s) i1 = Some r1"
    and mem: "map_of (rSessions (rheap s r1)) (pid s a) = Some a" and i: "i2 \<noteq> i1"
    and join: "JoinRoom i2 a s = Done (True, m) t"
    and leave: "LeaveRoom X (sRoomID (sheap t a)) a t = Done () u"
  shows "map_of (rSessions (rheap t r1)) (pid s a) = Some a \<and> sRoomID (sheap t a) = i2
    \<and> sRoomID (sheap u a) = [] \<and> map_of (rSessions (rheap u r1)) (pid s a) = Some a"
proof -
  obtain r2 where r2: "map_of (Rooms s) i2 = Some r2" and o: "only_sends (enterRoom r2 i2 a s) t"
    using JoinRoom_success [OF join] by blast
  have ne: "r2 \<noteq> r1" using Rooms_inj [OF wf r1] r2 i by blast
  have t: "rheap t r1 = rheap s r1" "sRoomID (sheap t a) = i2" "Rooms t = Rooms s" "pid t a = pid s a"
    using only_sendsD(2,4) [OF o] only_sends_sess(1,2) [OF o, of a] ne by (simp_all add: pid_def)
  let ?s2 = "upd_sess a (\<lambda>n. n\<lparr>sRoomID := []\<rparr>) (upd_room r2 (without (pid t a)) t)"
  have keep: "rheap ?s2 r1 = rheap s r1" using t(1) ne by simp
  have u: "rheap u r1 = rheap s r1 \<and> sRoomID (sheap u a) = []"
  proof (cases "rSessions (without (pid t a) (rheap t r2)) = []")
    case True
    then have d: "DeleteRoom X i2 ?s2 = Done () u"
      using leave r2 t(2,3) by (simp add: LeaveRoom_some Let_def)
    have "rheap (final (DeleteRoom X i2 ?s2)) = rheap ?s2 \<and> sheap (final (DeleteRoom X i2 ?s2)) = sheap ?s2"
      by (rule DeleteRoom_heaps)
    with d keep show ?thesis by simp
  next
    case False
    let ?b = "\<lambda>c cd m d v. BroadcastToRoom r2 c cd m d v"
    have b: "rheap (?b c cd m d v) = rheap v" "sRoomID (sheap (?b c cd m d v) a) = sRoomID (sheap v a)"
      for c cd m d and v :: "'a server"
      using only_sendsD(2) [OF only_sends_Broadcast] only_sends_sess(2) [OF only_sends_Broadcast] by blast+
    show ?thesis using leave r2 t(1,2,3) False ne
      by (auto simp: LeaveRoom_some Let_def b split: if_splits)
  qed
  show ?thesis using u t mem by simp
qed

end
