(* ===== verification/Launch.thy ===== *)
theory Launch
  imports GameInv Membership
begin

text \<open>
  The start of a game: \<open>StartGame\<close>, the goroutine it leaves behind, and the selection of pokemon
  that triggers it. \<open>runTask\<close> is one turn of a background goroutine, \<open>runToEnd\<close> runs one with
  nothing in between.
\<close>

section \<open>Background goroutines\<close>

definition runTask :: "'w ext \<Rightarrow> task \<Rightarrow> 'w server \<Rightarrow> (task option, 'w server) exec" where
  "runTask X t s = (case t of
      TStart r targetNodeID initJSON \<Rightarrow> runStart r targetNodeID initJSON s
    | TStartTry r na initJSON attempt \<Rightarrow> runStartTry X r na initJSON attempt s
    | TDestroy na roomID \<Rightarrow> Done None (runDestroy X na roomID s))"

primrec runToEnd :: "'w ext \<Rightarrow> nat \<Rightarrow> task \<Rightarrow> 'w server \<Rightarrow> (unit, 'w server) exec option" where
  "runToEnd X 0 t s = None"
| "runToEnd X (Suc n) t s = (case runTask X t s of
      Stop c s' \<Rightarrow> Some (Stop c s')
    | Done None s' \<Rightarrow> Some (Done () s')
    | Done (Some t') s' \<Rightarrow> runToEnd X n t' s')"

text \<open>How a launch can end: the game runs, or the room waits again.\<close>

definition launched :: "nat \<Rightarrow> 'w server \<Rightarrow> 'w server \<Rightarrow> bool" where
  "launched r s t \<longleftrightarrow> rheap t = rheap s \<or> rheap t = (rheap s)(r := (rheap s r)\<lparr>rStatus := RoomWaiting\<rparr>)"

lemma rheap_Broadcast [simp]: "rheap (BroadcastToRoom r c cd m d s) = rheap s"
  and tasks_Broadcast [simp]: "tasks (BroadcastToRoom r c cd m d s) = tasks s"
  and nheap_Broadcast [simp]: "nheap (BroadcastToRoom r c cd m d s) = nheap s"
  and world_Broadcast [simp]: "world (BroadcastToRoom r c cd m d s) = world s"
  and snext_Broadcast [simp]: "snext (BroadcastToRoom r c cd m d s) = snext s"
  by (simp_all add: only_sendsD [OF only_sends_Broadcast])

lemma handleStartError_simps [simp]:
  "rheap (handleStartError r e s) = (rheap s)(r := (rheap s r)\<lparr>rStatus := RoomWaiting\<rparr>)"
  "tasks (handleStartError r e s) = tasks s" "nheap (handleStartError r e s) = nheap s"
  "world (handleStartError r e s) = world s"
  by (simp_all add: handleStartError_def)

lemma runStartTry_cases:
  assumes "nclient (nheap s na) \<noteq> None"
  obtains t where "runStartTry X r na js k s = Done None t" "launched r s t"
    | t where "k < maxRetries" "runStartTry X r na js k s = Done (Some (TStartTry r na js (Suc k))) t"
      "rheap t = rheap s" "nheap t = nheap s"
proof -
  have "CallCreateRoom X (nclient (nheap s na)) (rID (rheap s r)) js (world s) \<noteq> None" using assms by simp
  then obtain q where "CallCreateRoom X (nclient (nheap s na)) (rID (rheap s r)) js (world s) = Some q" by blast
  moreover obtain res w where "q = (res, w)" by (cases q)
  ultimately have c: "CallCreateRoom X (nclient (nheap s na)) (rID (rheap s r)) js (world s) = Some (res, w)" by simp
  consider e where "res = Inl e" | resp where "res = Inr resp" "resp_Code resp = 0"
    | resp where "res = Inr resp" "resp_Code resp \<noteq> 0" by (cases res) auto
  then show thesis
    by cases (cases "k < maxRetries"; use c in \<open>simp add: that runStartTry_def launched_def Let_def\<close>)+
qed

lemma runToEnd_tries:
  "nclient (nheap s na) \<noteq> None \<Longrightarrow> k \<le> maxRetries \<Longrightarrow> maxRetries - k < n \<Longrightarrow>
   \<exists>t. runToEnd X n (TStartTry r na js k) s = Some (Done () t) \<and> launched r s t"
proof (induction n arbitrary: k s)
  case (Suc n)
  show ?case
  proof (rule runStartTry_cases [OF Suc.prems(1), of X r js k])
    fix t assume t: "k < maxRetries" "runStartTry X r na js k s = Done (Some (TStartTry r na js (Suc k))) t"
      "rheap t = rheap s" "nheap t = nheap s"
    have "\<exists>u. runToEnd X n (TStartTry r na js (Suc k)) t = Some (Done () u) \<and> launched r t u"
      by (rule Suc.IH) (use Suc.prems t in auto)
    with t show ?thesis by (auto simp: runTask_def launched_def)
  qed (auto simp: runTask_def)
qed simp

lemma GetNodeForRoom_registered: "GetNodeForRoom s i = Inr na \<Longrightarrow> \<exists>j. getNode s j = Some na"
  by (auto simp: GetNodeForRoom_def pickPreferredNodeForRoom_def GetNodeByPodIndex_def Let_def
      split: option.splits if_splits sum.splits)

text \<open>C23: The goroutine of \<open>StartGame\<close> ends: after its lookup of a node it makes at most three
  RPC attempts (four turns in all), and if no other goroutine interferes it neither panics nor
  blocks, whatever the engine answers; then either no room has changed or its room, and only it,
  waits again.\<close>

theorem launch_terminates:
  assumes "engine_wf s"
  shows "\<exists>t. runToEnd X 4 (TStart r target js) s = Some (Done () t) \<and> launched r s t"
proof -
  have tries: "\<exists>t. runToEnd X 3 (TStartTry r na js 1) s = Some (Done () t) \<and> launched r s t"
    if "getNode s i = Some na" for i na
    using engine_wf_client [OF assms that] by (rule runToEnd_tries) (simp_all add: maxRetries_def)
  show ?thesis
  proof (cases "GetNodeByPodIndex s target")
    case (Inr na)
    then have "getNode s target = Some na" by simp
    with tries Inr show ?thesis
      by (simp add: numeral_eq_Suc runTask_def runStart_def del: GetNodeByPodIndex_Inr)
  next
    case (Inl e)
    show ?thesis
    proof (cases "GetNodeForRoom s (rID (rheap s r))")
      case (Inl e')
      with \<open>GetNodeByPodIndex s target = Inl e\<close> show ?thesis
        by (simp add: numeral_eq_Suc runTask_def runStart_def launched_def del: GetNodeByPodIndex_Inl)
    next
      case (Inr na)
      with GetNodeForRoom_registered tries \<open>GetNodeByPodIndex s target = Inl e\<close> show ?thesis
        by (fastforce simp: numeral_eq_Suc runTask_def runStart_def simp del: GetNodeByPodIndex_Inl)
    qed
  qed
qed

text \<open>The goroutine holds a pointer to its node across the pauses between attempts. If the node
  is dropped from the engine's table meanwhile (\<open>deleteNode\<close>, after a failed reconnection), its
  client is nil and the next attempt panics; nothing recovers a panic of this goroutine.\<close>

lemma dropped_node_panics:
  assumes "getNode s i = Some na"
  shows "runTask X (TStartTry r na js k) (deleteNode Y i s) = Stop Panicked (deleteNode Y i s)"
  using deleteNode_closes [OF assms, of Y] by (simp add: runTask_def runStartTry_def)

text \<open>When the last attempt fails, the goroutine sets the room to waiting without looking at its
  status: a room that a leaving player has finished meanwhile is open again.\<close>

lemma failed_launch_reopens_room:
  assumes "CallCreateRoom X (nclient (nheap s na)) (rID (rheap s r)) js (world s) = Some (Inl e, w)"
  shows "\<exists>t. runTask X (TStartTry r na js maxRetries) s = Done None t
    \<and> rheap t = (rheap s)(r := (rheap s r)\<lparr>rStatus := RoomWaiting\<rparr>)"
  using assms by (simp add: runTask_def runStartTry_def Let_def)

section \<open>StartGame\<close>

lemma start_room_eq: "rStatus g = RoomWaiting \<Longrightarrow> g\<lparr>rStatus := RoomWaiting\<rparr> = g"
  by (cases g) simp

lemma upd_room_twice: "upd_room r f (upd_room r g s) = upd_room r (\<lambda>x. f (g x)) s"
  by (simp add: upd_room_def)

lemma GetNodeForRoom_cong:
  assumes h: "nheap t = nheap s" and e: "eng t = eng s"
  shows "GetNodeForRoom t i = GetNodeForRoom s i"
proof -
  have n: "getNode t = getNode s" by (simp add: fun_eq_iff getNode_def e)
  have "notFull t = notFull s" "underLoad t = underLoad s"
    by (simp_all add: fun_eq_iff notFull_def underLoad_def n h split: option.split)
  then show ?thesis
    by (simp only: GetNodeForRoom_def pickPreferredNodeForRoom_def snapshotPodIndices_def
      GetNodeByPodIndex_def hashRoom_def e n)
qed

lemma GetNodeForRoom_upd [simp]: "GetNodeForRoom (upd_room r f s) i = GetNodeForRoom s i"
  by (rule GetNodeForRoom_cong) simp_all

lemma pid_upd_room [simp]: "pid (upd_room r f s) = pid s"
  by (simp add: fun_eq_iff pid_def)

lemma buildBattleInitJSON_upd [simp]: "buildBattleInitJSON i ss (upd_room r f s) = buildBattleInitJSON i ss s"
  by (simp add: buildBattleInitJSON_def enc_side_def Let_def)

text \<open>C22: \<open>StartGame\<close> acts on a waiting room only. With two players or more and a node for the room
  it makes the room playing, records the node's pod index and leaves exactly one goroutine, with
  that index and the battle state of the room's players; otherwise no room changes and no
  goroutine is left, and the players are told if the room was waiting.\<close>

theorem StartGame_spec:
  assumes "rEngineConn (rheap s r)"
  shows "\<exists>t. StartGame r s = Done () t \<and>
    (if rStatus (rheap s r) = RoomWaiting \<and> 2 \<le> length (rSessions (rheap s r))
        \<and> (\<exists>na. GetNodeForRoom s (rID (rheap s r)) = Inr na)
     then (\<exists>na js. GetNodeForRoom s (rID (rheap s r)) = Inr na
       \<and> buildBattleInitJSON (rID (rheap s r)) (List.map snd (rSessions (rheap s r))) s = Inr js
       \<and> rheap t = (rheap s)(r := (rheap s r)\<lparr>rStatus := RoomPlaying, rNodeID := PodIndex (nheap s na)\<rparr>)
       \<and> tasks t = tasks s @ [TStart r (PodIndex (nheap s na)) js])
     else rheap t = rheap s \<and> tasks t = tasks s
       \<and> (rStatus (rheap s r) = RoomWaiting \<longrightarrow> (\<exists>reason. t = handleStartError r reason
           (upd_room r (\<lambda>g. g\<lparr>rStatus := RoomPlaying\<rparr>) s))))"
proof -
  let ?g = "rheap s r" and ?s1 = "upd_room r (\<lambda>g. g\<lparr>rStatus := RoomPlaying\<rparr>) s"
  have err: "rheap (handleStartError r e ?s1) = rheap s" if "rStatus ?g = RoomWaiting" for e
    using that by (simp add: start_room_eq)
  consider "rStatus ?g \<noteq> RoomWaiting" | "rStatus ?g = RoomWaiting" "length (rSessions ?g) < 2"
    | e where "rStatus ?g = RoomWaiting" "\<not> length (rSessions ?g) < 2" "GetNodeForRoom s (rID ?g) = Inl e"
    | na where "rStatus ?g = RoomWaiting" "\<not> length (rSessions ?g) < 2" "GetNodeForRoom s (rID ?g) = Inr na"
    by (cases "GetNodeForRoom s (rID ?g)") auto
  then show ?thesis
  proof cases
    case 2
    then have "StartGame r s = Done () (handleStartError r TooFewPlayers ?s1)"
      by (simp add: StartGame_def Let_def)
    with 2 err show ?thesis by auto
  next
    case 3
    then have "StartGame r s = Done () (handleStartError r (AllocFailed e) ?s1)"
      using assms by (simp add: StartGame_def Let_def buildBattleInitJSON_def)
    with 3 err show ?thesis by auto
  next
    case 4
    obtain js where "buildBattleInitJSON (rID ?g) (List.map snd (rSessions ?g)) s = Inr js"
      using 4 by (simp add: buildBattleInitJSON_def Let_def)
    with 4 show ?thesis using assms by (simp add: StartGame_def Let_def not_less)
  qed (simp add: StartGame_def)
qed

end
