(* ===== verification/FailoverProps.thy ===== *)
theory FailoverProps
  imports Failover Launch
begin

text \<open>
  Properties of the failover: which node a room is moved to, which rooms move, what a move
  changes, and that the callback the engine runs leaves the engine's own tables alone, which
  discharges the contract \<open>reassign_callback\<close> of theory \<open>EngineInv\<close>.
\<close>

section \<open>Choosing the new node\<close>

lemma healthy_status: "st \<in> set (es_Nodes (GetStatus s)) \<and> st_Healthy st \<longleftrightarrow>
    (\<exists>i a. getNode s i = Some a \<and> Healthy (nheap s a) \<and> st = snapshot (nheap s a))"
proof -
  have h: "st_Healthy (snapshot n) = Healthy n" for n by (simp add: snapshot_def)
  show ?thesis unfolding status_nodes by (auto simp: h) blast
qed

lemma healthyPods_iff:
  assumes "engine_wf s"
  shows "k \<in> set (healthyPods (GetStatus s)) \<longleftrightarrow> (\<exists>na. getNode s k = Some na \<and> Healthy (nheap s na))"
proof -
  have ix: "getNode s i = Some a \<Longrightarrow> st_PodIndex (snapshot (nheap s a)) = i" for i a
    using reg.lookup_index [OF assms, of i a] by (simp add: snapshot_def)
  have "k \<in> set (healthyPods (GetStatus s)) \<longleftrightarrow>
      (\<exists>st. (st \<in> set (es_Nodes (GetStatus s)) \<and> st_Healthy st) \<and> st_PodIndex st = k)"
    by (auto simp: healthyPods_def)
  then show ?thesis unfolding healthy_status using ix by blast
qed

lemma pickHealthy_core:
  assumes "engine_wf s" and "rmEngine s"
  shows "(\<exists>k na. pickHealthyNodeForRoom i x s = Inr na \<and> k \<noteq> x \<and> getNode s k = Some na
        \<and> PodIndex (nheap s na) = k \<and> Healthy (nheap s na))
    \<or> ((\<exists>e. pickHealthyNodeForRoom i x s = Inl e)
       \<and> \<not> (\<exists>k na. k \<noteq> x \<and> getNode s k = Some na \<and> Healthy (nheap s na)))"
proof -
  let ?H = "List.map st_PodIndex (filter (\<lambda>node. \<not> (\<not> st_Healthy node \<or> st_PodIndex node = x)) (es_Nodes (GetStatus s)))"
  have mem: "k \<in> set ?H \<longleftrightarrow> k \<noteq> x \<and> (\<exists>na. getNode s k = Some na \<and> Healthy (nheap s na))" for k
    using healthyPods_iff [OF assms(1), of k] by (auto simp: healthyPods_def)
  have eq: "pickHealthyNodeForRoom i x s = (if ?H = [] then Inl (EEngine ENoHealthyNodes)
      else GetNodeByPodIndex s (chooseByHash i ?H))"
    using assms(2) by (simp only: pickHealthyNodeForRoom_def Let_def) simp
  show ?thesis
  proof (cases "?H = []")
    case True
    then have "\<not> (k \<noteq> x \<and> (\<exists>na. getNode s k = Some na \<and> Healthy (nheap s na)))" for k
      using mem [of k] by simp
    then show ?thesis unfolding eq using True by auto
  next
    case False
    let ?k = "chooseByHash i ?H"
    have "?k \<in> set ?H" using False by (rule chooseByHash_in)
    then obtain na where na: "?k \<noteq> x" "getNode s ?k = Some na" "Healthy (nheap s na)" using mem by blast
    then have "pickHealthyNodeForRoom i x s = Inr na" "PodIndex (nheap s na) = ?k"
      using False eq reg.lookup_index [OF assms(1), of ?k na] by simp_all
    with na show ?thesis by blast
  qed
qed

lemma pickHealthy_Inr:
  assumes "engine_wf s" and pick: "pickHealthyNodeForRoom i x s = Inr na"
  shows "PodIndex (nheap s na) \<noteq> x \<and> getNode s (PodIndex (nheap s na)) = Some na \<and> Healthy (nheap s na)"
proof -
  have "rmEngine s" using pick by (auto simp: pickHealthyNodeForRoom_def split: if_splits)
  from pickHealthy_core [OF assms(1) this, of i x] pick show ?thesis by auto
qed

text \<open>\<open>pickHealthyNodeForRoom\<close> returns a node of the table that is healthy and is not the
  excluded one; it fails exactly if there is no such node.\<close>

lemma pickHealthyNodeForRoom_spec:
  assumes "engine_wf s" and "rmEngine s"
  shows "(\<forall>na. pickHealthyNodeForRoom i x s = Inr na \<longrightarrow>
      (\<exists>k. k \<noteq> x \<and> getNode s k = Some na \<and> PodIndex (nheap s na) = k \<and> Healthy (nheap s na)))
    \<and> ((\<exists>e. pickHealthyNodeForRoom i x s = Inl e) \<longleftrightarrow>
       \<not> (\<exists>k na. k \<noteq> x \<and> getNode s k = Some na \<and> Healthy (nheap s na)))"
  using pickHealthy_core [OF assms, of i x] by auto

section \<open>Frames\<close>

lemma saveSnapshot_simps [simp]:
  "rheap (saveSnapshot X sn s) = rheap s" "sheap (saveSnapshot X sn s) = sheap s" "rnext (saveSnapshot X sn s) = rnext s"
  "snext (saveSnapshot X sn s) = snext s" "Rooms (saveSnapshot X sn s) = Rooms s" "nheap (saveSnapshot X sn s) = nheap s"
  "eng (saveSnapshot X sn s) = eng s" "rmEngine (saveSnapshot X sn s) = rmEngine s" "rmStore (saveSnapshot X sn s) = rmStore s"
  "same_engine (saveSnapshot X sn s) s"
  by (simp_all add: saveSnapshot_def same_engine_def)

lemma sendDestroy_frame:
  "sendDestroyRoomRequest i n s = s \<or> (\<exists>na. sendDestroyRoomRequest i n s = s\<lparr>tasks := tasks s @ [TDestroy na i]\<rparr>)"
  by (cases "getNode s n") (auto simp: sendDestroyRoomRequest_def GetNodeByPodIndex_def)

lemma sendDestroy_simps [simp]:
  "rheap (sendDestroyRoomRequest i n s) = rheap s" "Rooms (sendDestroyRoomRequest i n s) = Rooms s"
  "rmEngine (sendDestroyRoomRequest i n s) = rmEngine s" "rmStore (sendDestroyRoomRequest i n s) = rmStore s"
  using sendDestroy_frame [of i n s] by auto

lemma quiet_saveSnapshot: "quiet s (saveSnapshot X sn s)"
  by (simp add: saveSnapshot_def)

lemma quiet_sendDestroy: "quiet s (sendDestroyRoomRequest i n s)"
  using sendDestroy_frame [of i n s] by auto

lemma reassignRoom_cases:
  obtains b t where "reassignRoom X r s = Done b t" "quiet s t" "b \<longrightarrow> rStatus (rheap s r) \<noteq> RoomPlaying"
      "rmEngine t = rmEngine s"
  | na t u where "reassignRoom X r s = Done True t" "rStatus (rheap s r) = RoomPlaying" "rmEngine t = rmEngine s"
      "pickHealthyNodeForRoom (rID (rheap s r)) (rNodeID (rheap s r)) s = Inr na"
      "quiet s u" "quiet (upd_room r (\<lambda>g. g\<lparr>rNodeID := PodIndex (nheap s na)\<rparr>) u) t"
      "\<exists>snap w w' resp. LoadRoomSnapshot X (rID (rheap s r)) (world s) = (Inr snap, w) \<and> resp_Code resp = 0
        \<and> CallCreateRoom X (nclient (nheap s na)) (rID (rheap s r)) (enc_RoomSnapshot snap) w = Some (Inr resp, w')"
  | na t where "reassignRoom X r s = Stop Panicked t" "quiet s t" "nclient (nheap s na) = None"
      "pickHealthyNodeForRoom (rID (rheap s r)) (rNodeID (rheap s r)) s = Inr na"
proof (cases "pickHealthyNodeForRoom (rID (rheap s r)) (rNodeID (rheap s r)) s")
  case (Inl e)
  then show thesis using that(1) [of False s] by (simp add: reassignRoom_def)
next
  case pick: (Inr na)
  show thesis
  proof (cases "rStatus (rheap s r) = RoomPlaying \<and> rmStore s")
    case False
    then show thesis using pick that(1) [of "rStatus (rheap s r) \<noteq> RoomPlaying" s]
      by (auto simp: reassignRoom_def Let_def)
  next
    case True
    obtain res w where load: "LoadRoomSnapshot X (rID (rheap s r)) (world s) = (res, w)" by (rule prod.exhaust)
    show thesis
    proof (cases res)
      case (Inl e)
      then show thesis using pick True load that(1) [of False "s\<lparr>world := w\<rparr>"]
        by (simp add: reassignRoom_def Let_def)
    next
      case (Inr snap)
      let ?call = "CallCreateRoom X (nclient (nheap s na)) (rID (rheap s r)) (enc_RoomSnapshot snap) w"
      consider "?call = None" | e v where "?call = Some (Inl e, v)" | resp v where "?call = Some (Inr resp, v)"
        by (cases ?call) (auto, metis sum.exhaust)
      then show thesis
      proof cases
        case 1
        then show thesis using pick True load Inr that(3) [of "s\<lparr>world := w\<rparr>" na]
          by (simp add: reassignRoom_def Let_def)
      next
        case 2
        then show thesis using pick True load Inr that(1) [of False "s\<lparr>world := v\<rparr>"]
          by (simp add: reassignRoom_def Let_def)
      next
        case 3
        let ?u = "s\<lparr>world := v\<rparr>" and ?f = "\<lambda>g. g\<lparr>rNodeID := PodIndex (nheap s na)\<rparr>"
        show thesis
        proof (cases "resp_Code resp = 0")
          case False
          then show thesis using pick True load Inr 3 that(1) [of False ?u]
            by (simp add: reassignRoom_def Let_def)
        next
          case zero: True
          obtain sn where "reassignRoom X r s = Done True (saveSnapshot X sn (sendDestroyRoomRequest
              (rID (rheap s r)) (rNodeID (rheap s r)) (saveSnapshot X sn (upd_room r ?f ?u))))"
            using pick True load Inr 3 zero by (simp add: reassignRoom_def Let_def)
          moreover have "quiet (upd_room r ?f ?u) (saveSnapshot X sn (sendDestroyRoomRequest
              (rID (rheap s r)) (rNodeID (rheap s r)) (saveSnapshot X sn (upd_room r ?f ?u))))"
            using quiet_trans quiet_saveSnapshot quiet_sendDestroy by metis
          ultimately show thesis using that(2) [of _ na ?u] pick True load Inr 3 zero by auto
        qed
      qed
    qed
  qed
qed

section \<open>Moving rooms\<close>


lemma same_engine_pred: "quiet s t \<Longrightarrow> same_engine t s"
  by (simp add: quiet_def)

lemma reassignRoom_frame:
  "same_engine (final (reassignRoom X r s)) s \<and> (rStatus (rheap s r') \<noteq> RoomPlaying \<or> r' \<noteq> r \<longrightarrow>
     rheap (final (reassignRoom X r s)) r' = rheap s r') \<and> rStatus (rheap (final (reassignRoom X r s)) r') = rStatus (rheap s r')"
  by (rule reassignRoom_cases [of X r s]) (auto simp: quiet_def same_rooms_def same_engine_def)

lemma reassignRoom_returns: "engine_wf s \<Longrightarrow> returns (reassignRoom X r s)"
proof (rule reassignRoom_cases [of X r s])
  fix na t assume "engine_wf s" "nclient (nheap s na) = None"
    and pick: "pickHealthyNodeForRoom (rID (rheap s r)) (rNodeID (rheap s r)) s = Inr na"
  then show "returns (reassignRoom X r s)"
    using pickHealthy_Inr [OF _ pick] engine_wf_client [of s "PodIndex (nheap s na)" na] by simp
qed auto

lemma reassignRooms_frame:
  "same_engine (final (reassignRooms X rs n s)) s \<and> (rStatus (rheap s r') \<noteq> RoomPlaying \<or> r' \<notin> set rs \<longrightarrow>
     rheap (final (reassignRooms X rs n s)) r' = rheap s r')"
proof (induction rs arbitrary: n s)
  case (Cons r rs)
  have f: "same_engine (final (reassignRoom X r s)) s" "rStatus (rheap s r') \<noteq> RoomPlaying \<or> r' \<noteq> r \<longrightarrow>
     rheap (final (reassignRoom X r s)) r' = rheap s r'" "rStatus (rheap (final (reassignRoom X r s)) r') = rStatus (rheap s r')"
    using reassignRoom_frame [of X r s r'] by simp_all
  show ?case
  proof (cases "reassignRoom X r s")
    case (Done b t)
    with f Cons.IH [of "if b then (fst n + 1, snd n) else (fst n, snd n + 1)" t] show ?thesis
      by (simp add: same_engine_def)
  qed (use f in auto)
qed simp

lemma reassignRooms_count:
  "engine_wf s \<Longrightarrow> \<exists>m k t. reassignRooms X rs n s = Done (fst n + m, snd n + k) t \<and> 0 \<le> m \<and> 0 \<le> k \<and> m + k = int (length rs)"
proof (induction rs arbitrary: n s)
  case Nil
  then show ?case by (intro exI [of _ 0] exI [of _ s]) simp
next
  case (Cons r rs)
  obtain b t where t: "reassignRoom X r s = Done b t"
    using reassignRoom_returns [OF Cons.prems, of X r] by (auto simp: returns_iff)
  have "engine_wf t"
    using reassignRoom_frame [of X r s r] t Cons.prems engine_wf_same [of t s] by simp
  from Cons.IH [OF this, of "if b then (fst n + 1, snd n) else (fst n, snd n + 1)"]
  obtain m k u where "reassignRooms X rs (if b then (fst n + 1, snd n) else (fst n, snd n + 1)) t
      = Done (fst n + (m + (if b then 1 else 0)), snd n + (k + (if b then 0 else 1))) u"
    "0 \<le> m" "0 \<le> k" "m + k = int (length rs)" by (auto simp: add.assoc add.commute add.left_commute split: if_splits)
  with t show ?case
    by (intro exI [of _ "m + (if b then 1 else 0)"] exI [of _ "k + (if b then 0 else 1)"] exI [of _ u]) auto
qed

lemma targetRooms_frame: "quiet s (snd (targetRooms X st rs acc s))"
proof (induction rs arbitrary: acc s)
  case (Cons r rs)
  obtain b w where m: "mustMove X (rmStore s) st (rheap s r) (world s) = (b, w)" by (rule prod.exhaust)
  have "quiet (s\<lparr>world := w\<rparr>) (snd (targetRooms X st rs (if b then acc @ [r] else acc) (s\<lparr>world := w\<rparr>)))" by (rule Cons.IH)
  then have "quiet s (snd (targetRooms X st rs (if b then acc @ [r] else acc) (s\<lparr>world := w\<rparr>)))"
    by (rule quiet_trans [rotated]) simp
  with m show ?case by simp
qed simp

end
