(* ===== verification/Reassign.thy ===== *)
theory Reassign
  imports FailoverProps
begin

text \<open>
  The whole of \<open>ReassignRunningRoomsFromUnavailableNodes\<close>, its use as the engine's callback
  (interpretation \<open>failover\<close> of \<open>reassign_callback\<close>), and its place under \<open>room_invariant\<close>.
\<close>

section \<open>The callback leaves the engine's tables alone\<close>

lemma targetRooms_split:
  obtains ts t where "targetRooms X st rs acc s = (ts, t)" "quiet s t"
  using targetRooms_frame [of s X st rs acc] by (cases "targetRooms X st rs acc s") simp

lemma Reassign_cases:
  obtains "\<not> (rmEngine s \<and> healthyPods (GetStatus s) \<noteq> [])" "ReassignRunningRoomsFromUnavailableNodes X s = Done (0, 0) s"
  | ts t where "rmEngine s" "healthyPods (GetStatus s) \<noteq> []" "quiet s t"
      "targetRooms X (GetStatus s) (List.map snd (Rooms s)) [] s = (ts, t)"
      "ReassignRunningRoomsFromUnavailableNodes X s = reassignRooms X ts (0, 0) t"
proof (cases "rmEngine s \<and> healthyPods (GetStatus s) \<noteq> []")
  case False
  then show thesis using that(1) by (auto simp: ReassignRunningRoomsFromUnavailableNodes_def Let_def)
next
  case True
  obtain ts t where "targetRooms X (GetStatus s) (List.map snd (Rooms s)) [] s = (ts, t)" "quiet s t"
    by (rule targetRooms_split)
  then show thesis using that(2) True by (simp add: ReassignRunningRoomsFromUnavailableNodes_def Let_def)
qed

lemma Reassign_engine: "same_engine (final (ReassignRunningRoomsFromUnavailableNodes X s)) s"
proof (rule Reassign_cases [of s X])
  fix ts t assume "quiet s t" "ReassignRunningRoomsFromUnavailableNodes X s = reassignRooms X ts (0, 0) t"
  then show ?thesis using reassignRooms_frame [of X ts "(0, 0)" t] by (auto simp: quiet_def same_engine_def)
qed simp

lemma final_reassignFunc: "final (reassignFunc X s) = final (ReassignRunningRoomsFromUnavailableNodes X s)"
  unfolding reassignFunc_def by (cases "ReassignRunningRoomsFromUnavailableNodes X s") simp_all

interpretation failover: reassign_callback "reassignFunc X" for X :: "'w ext"
  by unfold_locales (simp add: final_reassignFunc Reassign_engine)

text \<open>The engine's two background tickers, run with the room manager's real failover function
  as their callback, keep the engine's invariant: the node table, the hash ring and the node
  records stay in agreement through heartbeats, reconnections, node removal and rediscovery.\<close>

lemma tickers_keep_engine:
  "engine_wf s \<Longrightarrow> engine_wf (final (healthTick X (reassignFunc X) s)) \<and> engine_wf (final (discoveryTick X s))
    \<and> engine_wf (final (attemptReconnectStep X (reassignFunc X) l s))"
  by (simp add: failover.wf_healthTick failover.wf_discoveryTick failover.wf_attempt)

section \<open>What a failover does\<close>

lemma Reassign_returns: "engine_wf s \<Longrightarrow> returns (ReassignRunningRoomsFromUnavailableNodes X s)"
proof (rule Reassign_cases [of s X])
  fix ts t assume "engine_wf s" "quiet s t"
    and t: "ReassignRunningRoomsFromUnavailableNodes X s = reassignRooms X ts (0, 0) t"
  then have "engine_wf t" using engine_wf_same [of t s] by (simp add: quiet_def)
  from reassignRooms_count [OF this, of X ts "(0, 0)"] t
  show "returns (ReassignRunningRoomsFromUnavailableNodes X s)" by auto
qed simp

lemma reassignFunc_returns: "engine_wf s \<Longrightarrow> returns (reassignFunc X s)"
  unfolding reassignFunc_def by (rule returns_andthen [OF Reassign_returns]) simp_all

text \<open>A failover run returns, and when the engine has a healthy node every target room is counted
  once, as moved or as skipped.\<close>

lemma failover_counts_targets:
  assumes "engine_wf s"
  shows "\<exists>m k t. ReassignRunningRoomsFromUnavailableNodes X s = Done (m, k) t \<and> 0 \<le> m \<and> 0 \<le> k
    \<and> (rmEngine s \<and> healthyPods (GetStatus s) \<noteq> [] \<longrightarrow>
        m + k = int (length (fst (targetRooms X (GetStatus s) (List.map snd (Rooms s)) [] s))))"
proof (rule Reassign_cases [of s X])
  fix ts t assume t: "quiet s t" "targetRooms X (GetStatus s) (List.map snd (Rooms s)) [] s = (ts, t)"
    "ReassignRunningRoomsFromUnavailableNodes X s = reassignRooms X ts (0, 0) t"
  have "engine_wf t" using t(1) assms engine_wf_same [of t s] by (simp add: quiet_def)
  from reassignRooms_count [OF this, of X ts "(0, 0)"] t(2,3) show ?thesis by auto
next
  assume "\<not> (rmEngine s \<and> healthyPods (GetStatus s) \<noteq> [])" "ReassignRunningRoomsFromUnavailableNodes X s = Done (0, 0) s"
  then show ?thesis by blast
qed

lemma Reassign_rooms:
  assumes "rStatus (rheap s r) \<noteq> RoomPlaying \<or> \<not> rmEngine s
    \<or> r \<notin> set (fst (targetRooms X (GetStatus s) (List.map snd (Rooms s)) [] s))"
  shows "rheap (final (ReassignRunningRoomsFromUnavailableNodes X s)) r = rheap s r"
proof (rule Reassign_cases [of s X])
  fix ts t assume t: "rmEngine s" "quiet s t" "targetRooms X (GetStatus s) (List.map snd (Rooms s)) [] s = (ts, t)"
    "ReassignRunningRoomsFromUnavailableNodes X s = reassignRooms X ts (0, 0) t"
  then show ?thesis using assms reassignRooms_frame [of X ts "(0, 0)" t r] quiet_rheap [OF t(2)] by auto
qed simp

text \<open>A failover run never changes a room that is not in play: a waiting room keeps the node
  index of the node it was assigned, although the run counts it as moved and the comment in the
  code says that its index is updated.\<close>

lemma waiting_rooms_keep_their_node:
  assumes "rStatus (rheap s r) \<noteq> RoomPlaying"
  shows "rheap (final (ReassignRunningRoomsFromUnavailableNodes X s)) r = rheap s r
    \<and> ((\<exists>na. pickHealthyNodeForRoom (rID (rheap s r)) (rNodeID (rheap s r)) s = Inr na)
        \<longrightarrow> reassignRoom X r s = Done True s)"
  using assms by (auto simp: Reassign_rooms reassignRoom_def)

section \<open>Which rooms move\<close>

definition restarted :: "'w ext \<Rightarrow> EngineStatus \<Rightarrow> GameRoom \<Rightarrow> 'w \<Rightarrow> bool" where
  "restarted X st g w \<longleftrightarrow> (\<exists>snap w' sid. LoadRoomSnapshot X (rID g) w = (Inr snap, w') \<and> sn_ServerID snap \<noteq> []
     \<and> map_of (podServerIDs st) (rNodeID g) = Some sid \<and> sid \<noteq> sn_ServerID snap)"

lemma mustMove_iff:
  "fst (mustMove X b st g w) \<longleftrightarrow> rNodeID g \<notin> set (healthyPods st) \<or> (b \<and> restarted X st g w)"
  by (auto simp: mustMove_def restarted_def split: prod.split sum.split option.split)

lemma mustMove_world: "snd (mustMove X b st g w) = w \<or> snd (mustMove X b st g w) = snd (LoadRoomSnapshot X (rID g) w)"
  by (auto simp: mustMove_def split: prod.split sum.split)

lemma targetRooms_set:
  assumes get: "\<And>k v. snd (x_redis_get X k v) = v"
  shows "set (fst (targetRooms X st rs acc s)) = set acc \<union>
    {r \<in> set rs. rNodeID (rheap s r) \<notin> set (healthyPods st) \<or> (rmStore s \<and> restarted X st (rheap s r) (world s))}"
proof (induction rs arbitrary: acc)
  case (Cons r rs)
  have load: "snd (LoadRoomSnapshot X i v) = v" for i v
    using get by (auto simp: LoadRoomSnapshot_def split: prod.split sum.split option.split bool.split) (metis snd_conv)+
  obtain b w where m: "mustMove X (rmStore s) st (rheap s r) (world s) = (b, w)" by (rule prod.exhaust)
  have "w = world s" using mustMove_world [of X "rmStore s" st "rheap s r" "world s"] m load by auto
  moreover have "b \<longleftrightarrow> rNodeID (rheap s r) \<notin> set (healthyPods st) \<or> (rmStore s \<and> restarted X st (rheap s r) (world s))"
    using mustMove_iff [of X "rmStore s" st "rheap s r" "world s"] m by simp
  ultimately show ?case using m Cons.IH by auto
qed simp

text \<open>When reading from Redis has no effect on it, the target rooms are exactly the rooms whose
  node is not a healthy registered node, and those whose snapshot carries another server id than
  the one their node reports now.\<close>

lemma targetRooms_exact:
  assumes "engine_wf s" and "\<And>k v. snd (x_redis_get X k v) = v"
  shows "set (fst (targetRooms X (GetStatus s) (List.map snd (Rooms s)) [] s)) =
    {r \<in> snd ` set (Rooms s). \<not> (\<exists>na. getNode s (rNodeID (rheap s r)) = Some na \<and> Healthy (nheap s na))
       \<or> (rmStore s \<and> restarted X (GetStatus s) (rheap s r) (world s))}"
  unfolding targetRooms_set [OF assms(2)] healthyPods_iff [OF assms(1)] by auto

section \<open>What the failover leaves alone\<close>

text \<open>Also the rooms keep their ids and status, and the queue stays as it is.\<close>

definition same_stage :: "'w server \<Rightarrow> 'w server \<Rightarrow> bool" where
  "same_stage s t \<longleftrightarrow> same_engine t s \<and> rmStore t = rmStore s \<and> rmEngine t = rmEngine s \<and> MatchQueue t = MatchQueue s
     \<and> (\<forall>q. rStatus (rheap t q) = rStatus (rheap s q) \<and> rID (rheap t q) = rID (rheap s q))"

lemma same_stage_refl [simp]: "same_stage s s"
  by (simp add: same_stage_def same_engine_def)

lemma same_stage_trans: "same_stage s t \<Longrightarrow> same_stage t u \<Longrightarrow> same_stage s u"
  by (simp add: same_stage_def same_engine_def)

lemma same_stage_world [simp]: "same_stage s (t\<lparr>world := w\<rparr>) = same_stage s t"
  by (simp add: same_stage_def same_engine_def)

lemma same_stage_save: "same_stage s t \<Longrightarrow> same_stage s (saveSnapshot X sn t)"
  by (simp add: saveSnapshot_def)

lemma same_stage_destroy: "same_stage s t \<Longrightarrow> same_stage s (sendDestroyRoomRequest i n t)"
  by (simp add: sendDestroyRoomRequest_def same_stage_def same_engine_def split: sum.split)

lemma same_stage_reassignRoom: "same_stage s (final (reassignRoom X r s))"
  by (auto simp: reassignRoom_def Let_def split: sum.split option.split prod.split intro!: same_stage_save same_stage_destroy)
    (simp add: same_stage_def same_engine_def)

lemma same_stage_reassignRooms: "same_stage s (final (reassignRooms X rs n s))"
proof (induction rs arbitrary: n s)
  case (Cons r rs)
  have one: "same_stage s (final (reassignRoom X r s))" by (rule same_stage_reassignRoom)
  show ?case
  proof (cases "reassignRoom X r s")
    case (Done b t)
    then show ?thesis using one Cons.IH [of t] same_stage_trans by fastforce
  qed (use one in simp)
qed simp

lemma same_stage_targetRooms: "same_stage s (snd (targetRooms X st rs acc s))"
proof (induction rs arbitrary: acc s)
  case (Cons r rs)
  obtain b w where m: "mustMove X (rmStore s) st (rheap s r) (world s) = (b, w)" by (rule prod.exhaust)
  show ?case using Cons.IH [of "s\<lparr>world := w\<rparr>"] same_stage_trans [of s "s\<lparr>world := w\<rparr>"] m by simp
qed simp

lemma same_stage_reassignFunc: "same_stage s (final (reassignFunc X s))"
proof -
  have "same_stage s (final (reassignRooms X ts n t))" if "targetRooms X st rs acc s = (ts, t)" for st rs acc ts n t
    using same_stage_targetRooms [of s X st rs acc] same_stage_reassignRooms [of t X ts n] that same_stage_trans by fastforce
  then show ?thesis
    by (auto simp: final_reassignFunc ReassignRunningRoomsFromUnavailableNodes_def Let_def split: prod.split)
qed

section \<open>Under the contract\<close>

context room_invariant begin

lemma I_reassignRoom: "I s \<Longrightarrow> I (final (reassignRoom X r s))"
proof (rule reassignRoom_cases [of X r s])
  fix na t u assume "I s" "quiet s u" and t: "reassignRoom X r s = Done True t"
    and q: "quiet (upd_room r (\<lambda>g. g\<lparr>rNodeID := PodIndex (nheap s na)\<rparr>) u) t"
  then have "I (upd_room r (\<lambda>g. g\<lparr>rNodeID := PodIndex (nheap s na)\<rparr>) u)" by (simp add: I_node I_quiet' [of s u])
  from I_quiet' [OF this q] t show "I (final (reassignRoom X r s))" by simp
qed (auto intro: I_quiet')

lemma I_reassignRooms: "I s \<Longrightarrow> I (final (reassignRooms X rs n s))"
  by (induction rs arbitrary: n s)
    (auto intro!: final_andthen_inv [where P = I] I_reassignRoom simp del: andthen.simps)

lemma I_Reassign: "I s \<Longrightarrow> I (final (ReassignRunningRoomsFromUnavailableNodes X s))"
  by (rule Reassign_cases [of s X]) (auto intro: I_reassignRooms I_quiet')

lemma I_reassignFunc: "I s \<Longrightarrow> I (final (reassignFunc X s))"
  by (simp add: final_reassignFunc I_Reassign)

end

end
