(* ===== verification/HandlerProps.thy ===== *)
theory HandlerProps
  imports Handler Reassign
begin

text \<open>
  The handlers keep every invariant of \<open>room_invariant\<close>; and the properties of the router, of the
  life of a connection and of the match worker.
\<close>

section \<open>Under the contract\<close>

context room_invariant begin

lemma I_andthen:
  assumes "I (final m)" and "\<And>x t. m = Done x t \<Longrightarrow> I t \<Longrightarrow> I (final (k x t))"
  shows "I (final (andthen m k))"
  using assms by (rule final_andthen_inv [where P = I])

lemma I_handlers:
  assumes I: "I s" and a: "a < snext s"
  shows "I (final (do_cluster_status F a req s))" "I (final (do_get_redis X F a req s))"
    "I (final (do_create_room X a req s))" "I (final (do_join_room a req s))" "I (final (do_leave_room X a req s))"
    "I (final (do_list_rooms a req s))" "I (final (do_match a req s))" "I (final (do_start_game a req s))"
    "I (final (do_select_pokemon a req s))" "I (final (do_battle_action X a req s))"
proof -
  show "I (final (do_cluster_status F a req s))" "I (final (do_list_rooms a req s))"
    using I by (simp_all add: do_cluster_status_def do_list_rooms_def I_Send)
  show "I (final (do_get_redis X F a req s))"
    using I by (auto simp: do_get_redis_def Let_def split: option.split prod.split sum.split intro!: I_Send I_world)
  show "I (final (do_create_room X a req s))"
    unfolding do_create_room_def by (rule I_andthen [OF I_CreateRoom [OF I a]]) simp
  show "I (final (do_join_room a req s))"
    unfolding do_join_room_def by (rule I_andthen [OF I_JoinRoom [OF I a]]) simp
  show "I (final (do_leave_room X a req s))"
    unfolding do_leave_room_def Let_def by (rule I_andthen [OF I_LeaveRoom [OF I]]) (rule I_Send)
  show "I (final (do_match a req s))"
    using I a by (simp add: do_match_def I_Send I_push)
  show "I (final (do_start_game a req s))" "I (final (do_select_pokemon a req s))" "I (final (do_battle_action X a req s))"
    using I by (simp_all add: do_start_game_def I_StartGameForSession do_select_pokemon_def
      I_HandleSelectPokemonAndPersist do_battle_action_def I_HandleBattleActionAndPersist)
qed

lemma I_Dispatch:
  assumes I: "I s" and a: "a < snext s"
  shows "I (final (Dispatch X (InitGameRouters X F) a payload s))"
  using I I_handlers [OF I a]
  by (auto simp: Dispatch_def InitGameRouters_def Register_def split: option.split prod.split bool.split intro!: I_Send)

lemma I_setConn: "I s \<Longrightarrow> I (upd_sess a (\<lambda>n. n\<lparr>sConn := c\<rparr>) s)"
  by (erule I_quiet') (rule quiet_upd_sess, simp)

lemma I_HandleWS_open:
  assumes I: "I s" shows "I (final (HandleWS_open uid c s))"
proof (cases "FindSession uid s")
  case (Some a)
  then show ?thesis using I by (auto simp: HandleWS_open_def Let_def intro!: I_Send_then I_setConn)
next
  case None
  have "I (add_session (NewSession \<lparr>ID = uid, Username = []\<rparr> (Some c)) s)"
    using I by (rule I_session) (simp add: NewSession_def)
  then have "I (RegisterSession uid (snext s) (add_session (NewSession \<lparr>ID = uid, Username = []\<rparr> (Some c)) s))"
    by (rule I_register) (simp_all add: pid_def add_session_def NewSession_def)
  with None show ?thesis by (simp add: HandleWS_open_def Let_def add_session_def)
qed

lemma I_HandleWS_close: "I s \<Longrightarrow> I (snd (HandleWS_close a c s))"
  by (simp add: HandleWS_close_def I_setConn)

lemma I_matchTurn:
  assumes I: "I s" shows "I (final (matchTurn X s))"
proof -
  consider "length (MatchQueue s) < 2" | p1 p2 q where "MatchQueue s = p1 # p2 # q"
    by (cases "MatchQueue s"; cases "tl (MatchQueue s)") auto
  then show ?thesis
  proof cases
    case 1
    then show ?thesis using I by (cases "MatchQueue s"; cases "tl (MatchQueue s)") (auto simp: matchTurn_def)
  next
    case 2
    let ?s = "s\<lparr>MatchQueue := q\<rparr>"
    have p: "p1 < snext s" "p2 < snext s" using server_wfD(9) [OF I_wf [OF I]] 2 by simp_all
    have I0: "I ?s" by (rule I_quiet' [OF I quiet_queue]) (auto simp: 2)
    have I1: "I (final (CreateRoom X p1 ?s))" using I0 p(1) by (intro I_CreateRoom) simp_all
    have I2: "I (final (JoinRoom i p2 t))" if "CreateRoom X p1 ?s = Done x t" for x t i
      using I1 that p(2) snext_CreateRoom [of X p1 ?s] by (intro I_JoinRoom) simp_all
    show ?thesis unfolding matchTurn_def 2 list.case
      by (rule I_andthen [OF I1], rule I_andthen [OF I2]) simp_all
  qed
qed

end

section \<open>The router\<close>

text \<open>The router knows exactly ten commands. A payload that is not the JSON of a request changes
  nothing; an unknown command is answered once, with the code for an invalid command and the
  command's own name; a known one runs its handler.\<close>

lemma Dispatch_spec:
  "dom (map_of (InitGameRouters X F)) = {''cluster_status'', ''get_redis'', ''create_room'', ''join_room'',
      ''leave_room'', ''list_rooms'', ''match'', ''start_game'', ''select_pokemon'', ''battle_action''}
   \<and> (case x_parse X payload of
        None \<Rightarrow> Dispatch X (InitGameRouters X F) a payload s = Done () s
      | Some j \<Rightarrow> (case dec_GameRequest j \<lparr>req_Cmd = [], req_Data = RawEmpty\<rparr> of (req, ok) \<Rightarrow>
          Dispatch X (InitGameRouters X F) a payload s =
            (if \<not> ok then Done () s
             else if req_Cmd req \<in> dom (map_of (InitGameRouters X F))
             then the (map_of (InitGameRouters X F) (req_Cmd req)) a req s
             else SendResponse a (req_Cmd req @ ''_res'') 20001 (MRouter UnknownCmd) JNull s)))"
proof
  show "dom (map_of (InitGameRouters X F)) = {''cluster_status'', ''get_redis'', ''create_room'', ''join_room'',
      ''leave_room'', ''list_rooms'', ''match'', ''start_game'', ''select_pokemon'', ''battle_action''}"
    unfolding InitGameRouters_def Register_def am.get_put dom_fun_upd by auto
qed (auto simp: Dispatch_def CodeSendInvalid_def split: option.split prod.split bool.split)

text \<open>A player who is in no room and sends \<open>leave_room\<close> gets two answers that contradict each
  other: the error of \<open>LeaveRoom\<close> and then the success of the handler.\<close>

lemma leave_without_room_answers_twice:
  assumes "sRoomID (sheap s a) = []" and "map_of (Rooms s) [] = None" and "length (sSend (sheap s a)) + 2 \<le> sendCap"
  shows "\<exists>t. do_leave_room X a req s = Done () t \<and> sSend (sheap t a) = sSend (sheap s a) @
    [\<lparr>Cmd = ''leave_room_res'', Code = CodeRoomNotExist, Msg = MRoom RoomNotExist, Data = JNull\<rparr>,
     \<lparr>Cmd = ''leave_room_res'', Code = CodeSuccess, Msg = MRouter LeftRoom, Data = JNull\<rparr>]"
  using assms by (simp add: do_leave_room_def LeaveRoom_def Send_done)

section \<open>Connections\<close>

text \<open>When a player connects again while an older connection is still open, the player keeps the
  session, its room and every room is unchanged; and when the read loop of the older connection
  ends later, the session stays connected and no retention timer starts. A connection that is
  still the session's own takes the session offline and starts the timer.\<close>

lemma takeover_keeps_session:
  assumes "FindSession uid s = Some a" and "c1 \<noteq> c2" and "HandleWS_open uid c2 s = Done (b, sync) t"
  shows "b = a \<and> sConn (sheap t a) = Some c2 \<and> sRoomID (sheap t a) = sRoomID (sheap s a)
    \<and> rheap t = rheap s \<and> Rooms t = Rooms s \<and> FindSession uid t = Some a
    \<and> HandleWS_close a c1 t = (False, t)
    \<and> fst (HandleWS_close a c2 t) \<and> sConn (sheap (snd (HandleWS_close a c2 t)) a) = None"
proof -
  let ?s = "upd_sess a (\<lambda>n. n\<lparr>sConn := Some c2\<rparr>) s"
  have o: "only_sends ?s t" and b: "b = a"
    using assms(1,3) only_sends_SendResponse [of ?s a]
    by (auto simp: HandleWS_open_def Let_def split: if_splits dest!: andthen_Done) (metis final.simps(1))+
  have t: "sConn (sheap t a) = Some c2" "sRoomID (sheap t a) = sRoomID (sheap s a)" "rheap t = rheap s"
    "Rooms t = Rooms s" "AllSessions t = AllSessions s"
    using only_sends_sess(2,3) [OF o, of a] only_sendsD(2,4,5) [OF o] by simp_all
  with assms(1,2) b show ?thesis by (simp add: HandleWS_close_def FindSession_def)
qed

section \<open>The match worker\<close>

text \<open>Two different players at the head of the match queue end up in one new room: it is waiting,
  holds exactly the two, and both sessions point to it.\<close>

lemma match_pairs_players:
  assumes q: "MatchQueue s = p1 # p2 # q" and ne: "pid s p1 \<noteq> pid s p2"
    and ids: "distinct (draws X (world s) (Suc (length (Rooms s))))"
    and space: "length (sSend (sheap s p1)) < sendCap" "length (sSend (sheap s p2)) < sendCap"
  shows "\<exists>i t. matchTurn X s = Done () t \<and> map_of (Rooms s) i = None \<and> map_of (Rooms t) i = Some (rnext s)
    \<and> rSessions (rheap t (rnext s)) = [(pid s p1, p1), (pid s p2, p2)] \<and> rStatus (rheap t (rnext s)) = RoomWaiting
    \<and> sRoomID (sheap t p1) = i \<and> sRoomID (sheap t p2) = i \<and> MatchQueue t = q"
proof -
  obtain i w where f: "freshRoomID X (Rooms s) (world s) = Some (i, w)"
    using freshRoomID_some [OF draws_escape [OF ids]] by fastforce
  then have i: "map_of (Rooms s) i = None" by (auto dest: freshRoomID_fresh)
  have p: "p1 \<noteq> p2" using ne by auto
  let ?s0 = "s\<lparr>MatchQueue := q\<rparr>"
  let ?m = "\<lparr>Cmd = ''create_room_res'', Code = CodeSuccess, Msg = MRoom RoomCreated, Data = JObj [(''room_id'', JStr i)]\<rparr>"
  let ?s1 = "upd_sess p1 (\<lambda>n. n\<lparr>sSend := sSend n @ [?m]\<rparr>) (enterRoom (rnext s) i p1
      (?s0\<lparr>world := w, rheap := (rheap s)(rnext s := new_room i (rmEngine s)), rnext := Suc (rnext s),
           Rooms := AList.update i (rnext s) (Rooms s)\<rparr>))"
  have C: "CreateRoom X p1 ?s0 = Done (i, True) ?s1"
    using f space by (simp add: CreateRoom_def Let_def Send_done)
  let ?r = "rnext s"
  have r1: "map_of (Rooms ?s1) i = Some ?r" "rSessions (rheap ?s1 ?r) = [(pid s p1, p1)]" "rStatus (rheap ?s1 ?r) = RoomWaiting"
      "pid ?s1 p2 = pid s p2" "sRoomID (sheap ?s1 p1) = i"
    using p by (simp_all add: pid_def new_room_def)
  let ?u = "upd_sess p2 (\<lambda>n. n\<lparr>sSend := sSend n @ [\<lparr>Cmd = ''join_room_res'', Code = CodeSuccess,
      Msg = MRoom Joined, Data = JNull\<rparr>]\<rparr>) (enterRoom ?r i p2 ?s1)"
  let ?t = "BroadcastToRoom ?r ''join_room'' CodeSuccess (MRoom (PlayerJoined (pid ?u p2))) JNull ?u"
  have J: "JoinRoom i p2 ?s1 = Done (True, []) ?t"
    using r1 ne space p by (simp add: JoinRoom_def Let_def Send_done MaxPlayersPerRoom_def)
  have M: "matchTurn X s = Done () ?t"
    using q C J r1(5) by (simp add: matchTurn_def)
  have o: "only_sends ?u ?t" by (rule only_sends_Broadcast)
  have "rSessions (rheap ?t ?r) = [(pid s p1, p1), (pid s p2, p2)]" "rStatus (rheap ?t ?r) = RoomWaiting"
    "map_of (Rooms ?t) i = Some ?r" "sRoomID (sheap ?t p1) = i" "sRoomID (sheap ?t p2) = i" "MatchQueue ?t = q"
    using only_sendsD(2,4,15) [OF o] only_sends_sess(2) [OF o, of p1] only_sends_sess(2) [OF o, of p2] r1 ne p
    by simp_all
  with M i show ?thesis by blast
qed

text \<open>The queue accepts the same player twice. A player who sent \<open>match\<close> twice is matched with
  herself: the worker creates a room for her, the second entry is refused as a duplicate, and she
  waits alone in a room that the worker gives to nobody else.\<close>

lemma self_match:
  assumes q: "MatchQueue s = p # p # q"
    and ids: "distinct (draws X (world s) (Suc (length (Rooms s))))"
    and space: "length (sSend (sheap s p)) + 2 \<le> sendCap"
  shows "\<exists>i t old. matchTurn X s = Done () t \<and> map_of (Rooms s) i = None \<and> map_of (Rooms t) i = Some (rnext s)
    \<and> rSessions (rheap t (rnext s)) = [(pid s p, p)] \<and> MatchQueue t = q
    \<and> sSend (sheap t p) = old @ [\<lparr>Cmd = ''join_room_res'', Code = CodeSendDuplicate,
         Msg = MRoom AlreadyInRoom, Data = JNull\<rparr>]"
proof -
  obtain i w where f: "freshRoomID X (Rooms s) (world s) = Some (i, w)"
    using freshRoomID_some [OF draws_escape [OF ids]] by fastforce
  then have i: "map_of (Rooms s) i = None" by (auto dest: freshRoomID_fresh)
  let ?s0 = "s\<lparr>MatchQueue := q\<rparr>"
  let ?m = "\<lparr>Cmd = ''create_room_res'', Code = CodeSuccess, Msg = MRoom RoomCreated, Data = JObj [(''room_id'', JStr i)]\<rparr>"
  let ?s1 = "upd_sess p (\<lambda>n. n\<lparr>sSend := sSend n @ [?m]\<rparr>) (enterRoom (rnext s) i p
      (?s0\<lparr>world := w, rheap := (rheap s)(rnext s := new_room i (rmEngine s)), rnext := Suc (rnext s),
           Rooms := AList.update i (rnext s) (Rooms s)\<rparr>))"
  have C: "CreateRoom X p ?s0 = Done (i, True) ?s1"
    using f space by (simp add: CreateRoom_def Let_def Send_done)
  let ?r = "rnext s"
  have r1: "map_of (Rooms ?s1) i = Some ?r" "rSessions (rheap ?s1 ?r) = [(pid s p, p)]" "pid ?s1 p = pid s p"
      "sRoomID (sheap ?s1 p) = i" "sSend (sheap ?s1 p) = sSend (sheap s p) @ [?m]" "MatchQueue ?s1 = q"
    by (simp_all add: pid_def new_room_def)
  let ?t = "upd_sess p (\<lambda>n. n\<lparr>sSend := sSend n @ [\<lparr>Cmd = ''join_room_res'', Code = CodeSendDuplicate,
         Msg = MRoom AlreadyInRoom, Data = JNull\<rparr>]\<rparr>) ?s1"
  have "JoinRoom i p ?s1 = Done (False, ''Duplicate cmd message'') ?t"
    using r1 space by (simp add: JoinRoom_def Send_done)
  then have "matchTurn X s = Done () ?t" using q C r1(4) by (simp add: matchTurn_def)
  moreover have "sSend (sheap ?t p) = (sSend (sheap s p) @ [?m]) @ [\<lparr>Cmd = ''join_room_res'', Code = CodeSendDuplicate,
         Msg = MRoom AlreadyInRoom, Data = JNull\<rparr>]" using r1(5) by simp
  moreover have "map_of (Rooms ?t) i = Some ?r" "rSessions (rheap ?t ?r) = [(pid s p, p)]" "MatchQueue ?t = q"
    using r1 by simp_all
  ultimately show ?thesis using i by blast
qed

end
