(* ===== verification/Panics.thy ===== *)
theory Panics
  imports HandlerProps
begin

text \<open>
  Which operations can panic. On a well-formed server attached to an engine no room operation
  does, and a message from a client makes a handler panic in one case only.
\<close>

definition panics :: "('a, 's) exec \<Rightarrow> bool" where
  "panics m \<longleftrightarrow> (\<exists>s. m = Stop Panicked s)"

lemma panics_simps [simp]: "\<not> panics (Done x s)" "panics (Stop c s) \<longleftrightarrow> c = Panicked"
  by (auto simp: panics_def)

lemma panics_andthen: "panics (andthen m k) \<longleftrightarrow> panics m \<or> (\<exists>x t. m = Done x t \<and> panics (k x t))"
  by (cases m) auto

lemma returns_no_panic: "returns m \<Longrightarrow> \<not> panics m"
  by (cases m) auto

lemma Send_no_panic [simp]: "\<not> panics (SendResponse a c cd m d s)"
  by (simp add: SendResponse_def)

section \<open>Rooms\<close>

lemma CreateRoom_no_panic: "\<not> panics (CreateRoom X a s)"
  by (auto simp: CreateRoom_def Let_def panics_andthen split: option.split)

lemma JoinRoom_no_panic: "\<not> panics (JoinRoom i a s)"
  by (auto simp: JoinRoom_def Let_def panics_andthen split: option.split)

lemma LeaveRoom_no_panic:
  assumes "engine_wf s" shows "\<not> panics (LeaveRoom X i a s)"
proof (cases "map_of (Rooms s) i")
  case (Some r)
  show ?thesis using LeaveRoom_returns [OF assms Some] by (rule returns_no_panic)
qed (simp add: LeaveRoom_def)

lemma CleanUp_no_panic: "engine_wf s \<Longrightarrow> \<not> panics (CleanUpIfStillOffline X u s)"
  by (auto simp: CleanUpIfStillOffline_def Let_def LeaveRoom_no_panic split: option.split)

lemma Sync_no_panic: "\<not> panics (SyncRoomState a s)"
  by (auto simp: SyncRoomState_def panics_andthen split: option.split)

lemma match_no_panic: "\<not> panics (matchTurn X s)"
  by (cases "MatchQueue s"; cases "tl (MatchQueue s)")
    (auto simp: matchTurn_def panics_andthen CreateRoom_no_panic JoinRoom_no_panic)

section \<open>Games\<close>

lemma StartGame_no_panic: "rEngineConn (rheap s r) \<Longrightarrow> \<not> panics (StartGame r s)"
  by (auto simp: StartGame_def Let_def split: sum.split)

lemma runTask_panics:
  "panics (runTask X t s) \<Longrightarrow> \<exists>r na js k. t = TStartTry r na js k \<and> nclient (nheap s na) = None"
  by (cases t) (auto simp: runTask_def runStart_def runStartTry_def Let_def
      split: sum.splits option.splits prod.splits if_splits)

lemma reportTurn_no_panic: "\<not> panics (reportTurn X r a m s)"
  by (auto simp: reportTurn_def Let_def panics_andthen)

lemma injectBattleSide_panics:
  assumes "panics (injectBattleSide r raw p s)" shows "raw = Raw JNull"
proof (cases raw)
  case (Raw j)
  with assms show ?thesis
    by (cases j) (auto simp: injectBattleSide_def unmarshal_raw_def Let_def list_all_iff dec_any_def split: option.splits)
qed (use assms in \<open>auto simp: injectBattleSide_def unmarshal_raw_def split: option.splits\<close>)

lemma forwardBattleAction_panics:
  assumes wf: "engine_wf s" and conn: "rEngineConn (rheap s r)" and p: "panics (forwardBattleAction X r a raw s)"
  shows "raw = Raw JNull"
proof -
  have sent: "\<not> panics (case GetNodeByPodIndex s n of
            Inl e \<Rightarrow> SendResponse a c k1 m1 d s
          | Inr na \<Rightarrow> (case CallSendCommand X (nclient (nheap s na)) i q act (world s) of
                None \<Rightarrow> Stop Panicked s
              | Some (Inl e, w) \<Rightarrow> SendResponse a c k2 (m2 e) d (s\<lparr>world := w\<rparr>)
              | Some (Inr resp, w) \<Rightarrow>
                  if resp_Code resp \<noteq> 0 then SendResponse a c (resp_Code resp) (m3 resp) d (s\<lparr>world := w\<rparr>)
                  else reportTurn X r a (resp_Message resp) (s\<lparr>world := w\<rparr>)))"
    for n c k1 m1 d i q act k2 m2 m3
    using engine_wf_client [OF wf, of n]
    by (auto simp: reportTurn_no_panic split: sum.split option.split prod.split)
  show ?thesis
  proof (cases "injectBattleSide r raw (pid s a) s")
    case (Done res t)
    then have "t = s" using injectBattleSide_final [of r raw "pid s a" s] by simp
    then have "\<not> panics (forwardBattleAction X r a raw s)" using Done
      by (cases res) (simp_all add: forwardBattleAction_def Let_def conn sent)
    with p show ?thesis by blast
  next
    case (Stop c t)
    then have "panics (injectBattleSide r raw (pid s a) s)" using p
      by (simp add: forwardBattleAction_def Let_def split: if_splits)
    then show ?thesis by (rule injectBattleSide_panics)
  qed
qed

lemma HandleSelectPokemon_no_panic:
  assumes "rEngineConn (rheap s r)" shows "\<not> panics (HandleSelectPokemon r a raw s)"
proof -
  have start: "\<not> panics (andthen (SendResponse a c k m d v) (\<lambda>_ s3.
        if b then StartGame r (broadcastSummary r (BroadcastToRoom r c' k' (m' s3) d' s3))
        else Done () (BroadcastToRoom r c' k' (m' s3) d' s3)))"
    if v: "rEngineConn (rheap v r)" for v c k m d b c' k' m' d'
  proof -
    have "rEngineConn (rheap (broadcastSummary r (BroadcastToRoom r c' k' (m' t) d' t)) r)"
      if "SendResponse a c k m d v = Done x t" for x t
    proof -
      have "only_sends v t" using only_sends_SendResponse [of v a c k m d] that by simp
      then have "rheap t = rheap v" by (rule only_sendsD(2))
      then show ?thesis using v by (simp add: broadcastSummary_def Let_def split: sum.split)
    qed
    then show ?thesis by (auto simp: panics_andthen StartGame_no_panic)
  qed
  show ?thesis unfolding HandleSelectPokemon_def Let_def
    using assms by (auto simp: start simp del: andthen.simps split: prod.split bool.split)
qed

section \<open>Messages\<close>


end
