(* ===== verification/StoreProps.thy ===== *)
theory StoreProps
  imports Store
begin

text \<open>
  Snapshots survive the store: decoding what was encoded gives the same snapshot, with its maps
  listed in key order (\<open>canon\<close>), and \<open>LoadRoomSnapshot\<close> after \<open>SaveRoomSnapshot\<close> returns it. The two
  kinds of keys never meet, and the SCAN loops end on a server whose cursors make progress.
\<close>

section \<open>Encoding and decoding\<close>

text \<open>Values of type \<open>interface{}\<close> as Go holds them: no object has a key twice.\<close>

primrec any_ok :: "json \<Rightarrow> bool" where
  "any_ok JNull = True"
| "any_ok (JBool b) = True"
| "any_ok (JNum n) = True"
| "any_ok (JStr s) = True"
| "any_ok (JArr xs) = list_all id (List.map any_ok xs)"
| "any_ok (JObj kvs) = (distinct (List.map fst kvs) \<and> list_all snd (List.map (map_prod id any_ok) kvs))"

lemma go_any_enc_any: "any_ok j \<Longrightarrow> go_any (enc_any j) = enc_any j"
proof (induction j)
  case (JArr xs)
  then show ?case by (auto simp: list_all_iff)
next
  case (JObj kvs)
  let ?e = "List.map (map_prod id enc_any) kvs"
  have fix_el: "map_prod id go_any kv = kv" if "kv \<in> set ?e" for kv
  proof -
    from that obtain k v where kv: "(k, v) \<in> set kvs" "kv = (k, enc_any v)" by auto
    then have "go_any (enc_any v) = enc_any v"
      using JObj.IH [of "(k, v)" v] JObj.prems by (force simp: list_all_iff)
    then show ?thesis using kv by simp
  qed
  have "distinct (List.map fst (sort_key fst ?e))"
    using JObj.prems by (simp add: map_fst_sort_key o_def)
  then have "foldl (\<lambda>m kv. AList.update (fst kv) (snd kv) m) [] (sort_key fst ?e) = sort_key fst ?e"
    by (subst foldl_update_distinct) simp_all
  moreover have "List.map (map_prod id go_any) (sort_key fst ?e) = sort_key fst ?e"
    using fix_el by (intro map_idI) simp
  ultimately show ?case by simp
qed auto

definition canon_map :: "('v \<Rightarrow> 'v) \<Rightarrow> (string, 'v) gomap \<Rightarrow> (string, 'v) gomap" where
  "canon_map c = map_option (\<lambda>kvs. List.map (\<lambda>kv. (fst kv, c (snd kv))) (sort_key fst kvs))"

definition canon_team :: "team_map slice \<Rightarrow> team_map slice" where
  "canon_team = map_option (List.map (canon_map enc_any))"

definition canon :: "RoomSnapshot \<Rightarrow> RoomSnapshot" where
  "canon s = s\<lparr>sn_ReadyPlayers := canon_map id (sn_ReadyPlayers s),
     sn_SelectedPokemon := canon_map canon_team (sn_SelectedPokemon s)\<rparr>"

definition gomap_ok :: "('v \<Rightarrow> bool) \<Rightarrow> (string, 'v) gomap \<Rightarrow> bool" where
  "gomap_ok P m = (case m of None \<Rightarrow> True | Some kvs \<Rightarrow> map_ok kvs \<and> list_all (\<lambda>kv. P (snd kv)) kvs)"

definition team_ok :: "team_map slice \<Rightarrow> bool" where
  "team_ok t = (case t of None \<Rightarrow> True | Some xs \<Rightarrow> list_all (gomap_ok any_ok) xs)"

definition int64 :: "int \<Rightarrow> bool" where
  "int64 i \<longleftrightarrow> - (2 ^ 63) \<le> i \<and> i < 2 ^ 63"

definition snapshot_ok :: "RoomSnapshot \<Rightarrow> bool" where
  "snapshot_ok s \<longleftrightarrow> int64 (sn_Status s) \<and> int64 (sn_NodeID s) \<and> int64 (sn_UpdatedAt s)
     \<and> gomap_ok (\<lambda>_. True) (sn_ReadyPlayers s) \<and> gomap_ok team_ok (sn_SelectedPokemon s)"

lemma dec_map_canon:
  assumes "gomap_ok P m" and "\<And>v. P v \<Longrightarrow> d (e v) z = (c v, True)"
  shows "dec_map d z (enc_map e m) None = (canon_map c m, True)"
  unfolding canon_map_def
  by (rule dec_map_enc) (use assms in \<open>auto simp: gomap_ok_def list_all_iff\<close>)

lemma dec_team_enc: "team_ok t \<Longrightarrow> dec_team (enc_team t) old = (canon_team t, True)"
  unfolding dec_team_def enc_team_def canon_team_def
  by (rule dec_slice_enc, rule dec_map_canon [where P = any_ok])
     (auto simp: team_ok_def list_all_iff dec_any_def go_any_enc_any split: option.splits)

lemma dec_int_jint: "int64 i \<Longrightarrow> dec_int (jint i) old = (i, True)"
  by (simp add: jint_def int64_def)

lemma dec_enc_RoomSnapshot:
  assumes "snapshot_ok s"
  shows "dec_RoomSnapshot (enc_RoomSnapshot s) zero_snapshot = (canon s, True)"
proof -
  have players: "dec_slice dec_string [] (enc_slice JStr (sn_Players s)) old = (sn_Players s, True)" for old
    using dec_slice_enc [where d = dec_string and e = JStr and c = "\<lambda>x. x" and s = "sn_Players s"]
    by (cases "sn_Players s") simp_all
  have ready: "dec_map dec_bool False (enc_map JBool (sn_ReadyPlayers s)) None = (canon_map id (sn_ReadyPlayers s), True)"
    by (rule dec_map_canon [where P = "\<lambda>_. True"]) (use assms in \<open>simp_all add: snapshot_ok_def\<close>)
  have teams: "dec_map dec_team None (enc_map enc_team (sn_SelectedPokemon s)) None
      = (canon_map canon_team (sn_SelectedPokemon s), True)"
    by (rule dec_map_canon [where P = team_ok]) (use assms in \<open>simp_all add: snapshot_ok_def dec_team_enc\<close>)
  show ?thesis
    using assms
    by (simp add: enc_RoomSnapshot_def dec_RoomSnapshot_def field_of_def dec_field_def
        dec_int_jint snapshot_ok_def players ready teams zero_snapshot_def canon_def)
qed

text \<open>The canonical form has the same lookups.\<close>

lemma map_of_sort_key: "map_ok kvs \<Longrightarrow> map_of (sort_key fst kvs) = map_of kvs"
  for kvs :: "('k::linorder \<times> 'v) list"
  by (rule map_of_perm [symmetric]) simp_all

lemma map_of_canon:
  "map_ok kvs \<Longrightarrow> map_of (List.map (\<lambda>kv. (fst kv, c (snd kv))) (sort_key fst kvs)) k = map_option c (map_of kvs k)"
  for kvs :: "('k::linorder \<times> 'v) list"
  using map_of_map [of c "sort_key fst kvs"] map_of_sort_key [of kvs]
  by (simp add: split_def)

definition ready_of :: "RoomSnapshot \<Rightarrow> string \<Rightarrow> bool option" where
  "ready_of s p = map_of (case sn_ReadyPlayers s of None \<Rightarrow> [] | Some m \<Rightarrow> m) p"

definition team_of :: "RoomSnapshot \<Rightarrow> string \<Rightarrow> team_map slice option" where
  "team_of s p = map_of (case sn_SelectedPokemon s of None \<Rightarrow> [] | Some m \<Rightarrow> m) p"

lemma canon_lookups:
  assumes "snapshot_ok s"
  shows "ready_of (canon s) p = ready_of s p" "team_of (canon s) p = map_option canon_team (team_of s p)"
  using assms
  by (auto simp: ready_of_def team_of_def canon_def canon_map_def snapshot_ok_def gomap_ok_def
      map_of_canon map_of_sort_key split: option.splits)

section \<open>Save and load\<close>

text \<open>What the code relies on of Redis: a value just written is read back.\<close>

definition redis_ok :: "'w ext \<Rightarrow> bool" where
  "redis_ok X \<longleftrightarrow> (\<forall>k t l w w'. x_redis_set X k t l w = (None, w') \<longrightarrow>
     (\<exists>w''. x_redis_get X k w' = (Inr (Some t), w'')))"

definition stamp :: "'w ext \<Rightarrow> 'w \<Rightarrow> RoomSnapshot \<Rightarrow> RoomSnapshot" where
  "stamp X w sn = (if sn_UpdatedAt sn = 0 then sn\<lparr>sn_UpdatedAt := x_now X w\<rparr> else sn)"

lemma load_after_save:
  assumes redis: "redis_ok X" and ok: "snapshot_ok (stamp X w sn)"
    and save: "SaveRoomSnapshot X ttl sn w = (None, w')"
  shows "\<exists>w''. LoadRoomSnapshot X (sn_RoomID sn) w' = (Inr (canon (stamp X w sn)), w'')"
proof -
  let ?s = "stamp X w sn"
  have id: "sn_RoomID sn \<noteq> []" "sn_RoomID ?s = sn_RoomID sn"
    using save by (auto simp: SaveRoomSnapshot_def stamp_def split: if_splits)
  have "x_redis_set X (roomKey (sn_RoomID sn)) (TJson (enc_RoomSnapshot ?s)) ttl w = (None, w')"
    using save id by (auto simp: SaveRoomSnapshot_def stamp_def Let_def split: if_splits prod.splits option.splits)
  then obtain w'' where "x_redis_get X (roomKey (sn_RoomID sn)) w' = (Inr (Some (TJson (enc_RoomSnapshot ?s))), w'')"
    using redis unfolding redis_ok_def by blast
  then show ?thesis
    using id dec_enc_RoomSnapshot [OF ok]
    by (simp add: LoadRoomSnapshot_def unmarshal_snapshot_def parse_text_def)
qed

text \<open>The interface of the failover: a snapshot that was saved can be loaded again.\<close>

locale snapshot_store =
  fixes save :: "'x \<Rightarrow> 'sn \<Rightarrow> 'w \<Rightarrow> error option \<times> 'w"
    and load :: "'x \<Rightarrow> string \<Rightarrow> 'w \<Rightarrow> (error + 'sn) \<times> 'w"
    and key :: "'sn \<Rightarrow> string"
    and good :: "'x \<Rightarrow> bool"
    and storable :: "'x \<Rightarrow> 'w \<Rightarrow> 'sn \<Rightarrow> bool"
    and norm :: "'x \<Rightarrow> 'w \<Rightarrow> 'sn \<Rightarrow> 'sn"
  assumes load_save: "good x \<Longrightarrow> storable x w sn \<Longrightarrow> save x sn w = (None, w') \<Longrightarrow>
    \<exists>w''. load x (key sn) w' = (Inr (norm x w sn), w'')"
begin

text \<open>Saving again after anything else happened to the store brings the snapshot back.\<close>

lemma resave:
  assumes "good x" and "storable x (other w1) sn"
    and "save x sn w = (e, w1)" and "save x sn (other w1) = (None, w2)"
  shows "\<exists>w3. load x (key sn) w2 = (Inr (norm x (other w1) sn), w3)"
  using load_save assms by blast

end

interpretation rs: snapshot_store "\<lambda>X. SaveRoomSnapshot X ttl" LoadRoomSnapshot sn_RoomID redis_ok
  "\<lambda>X w sn. snapshot_ok (stamp X w sn)" "\<lambda>X w sn. canon (stamp X w sn)" for ttl
  by unfold_locales (rule load_after_save)


section \<open>Keys\<close>

text \<open>Room keys and session keys never clash: distinct rooms and distinct users have distinct
  keys, and no room key is a session key.\<close>

lemma keys_disjoint:
  "(roomKey a = roomKey b \<longleftrightarrow> a = b) \<and> (sessionKey u = sessionKey v \<longleftrightarrow> u = v) \<and> roomKey a \<noteq> sessionKey u"
  by (simp add: roomKey_def sessionKey_def)

section \<open>Scanning\<close>


lemma loadKeys_ids:
  "loadKeys X ks acc w = (Inr r, w') \<Longrightarrow> list_all (\<lambda>s. sn_RoomID s \<noteq> []) acc \<Longrightarrow>
   list_all (\<lambda>s. sn_RoomID s \<noteq> []) r"
proof (induction ks arbitrary: acc w)
  case (Cons k ks)
  from Cons.prems show ?case
    by (auto split: prod.splits sum.splits option.splits if_splits intro: Cons.IH)
qed simp

text \<open>Every snapshot that \<open>ListRoomSnapshots\<close> returns names a room.\<close>

lemma listed_snapshots_name_a_room:
  assumes "ListRoomSnapshots X w = Some (Inr sns, w')"
  shows "list_all (\<lambda>s. sn_RoomID s \<noteq> []) sns"
proof -
  have "list_all (\<lambda>s. sn_RoomID s \<noteq> []) acc \<longrightarrow> (\<forall>sns w'. r = (Inr sns, w') \<longrightarrow> list_all (\<lambda>s. sn_RoomID s \<noteq> []) sns)"
    if "scanRooms X c acc v = Some r" for c acc v r
  proof (rule scanRooms.raw_induct [where P = "\<lambda>X c acc v r. list_all (\<lambda>s. sn_RoomID s \<noteq> []) acc \<longrightarrow>
        (\<forall>sns w'. r = (Inr sns, w') \<longrightarrow> list_all (\<lambda>s. sn_RoomID s \<noteq> []) sns)", OF _ that])
    fix f and X :: "'a ext" and c acc v r
    assume IH: "\<And>X c acc v r. f X c acc v = Some r \<Longrightarrow> list_all (\<lambda>s. sn_RoomID s \<noteq> []) acc \<longrightarrow>
        (\<forall>sns w'. r = (Inr sns, w') \<longrightarrow> list_all (\<lambda>s. sn_RoomID s \<noteq> []) sns)"
      and eq: "(case x_redis_scan X c ''pokemon:room:*'' 100 v of
          (Inl e, w') \<Rightarrow> Some (Inl (EWrap EScan e), w')
        | (Inr (keys, nextCursor), w') \<Rightarrow> (case loadKeys X keys acc w' of
              (Inl e, w'') \<Rightarrow> Some (Inl e, w'')
            | (Inr acc', w'') \<Rightarrow> if nextCursor = 0 then Some (Inr acc', w'') else f X nextCursor acc' w'')) = Some r"
    obtain q v' where s: "x_redis_scan X c ''pokemon:room:*'' 100 v = (q, v')" by (rule prod.exhaust)
    show "list_all (\<lambda>s. sn_RoomID s \<noteq> []) acc \<longrightarrow>
        (\<forall>sns w'. r = (Inr sns, w') \<longrightarrow> list_all (\<lambda>s. sn_RoomID s \<noteq> []) sns)"
    proof (cases q)
      case (Inr kc)
      obtain ks c' where kc: "kc = (ks, c')" by (rule prod.exhaust)
      obtain l v'' where l: "loadKeys X ks acc v' = (l, v'')" by (rule prod.exhaust)
      show ?thesis
      proof (cases l)
        case (Inr acc')
        have ids: "list_all (\<lambda>s. sn_RoomID s \<noteq> []) acc \<Longrightarrow> list_all (\<lambda>s. sn_RoomID s \<noteq> []) acc'"
          using loadKeys_ids [of X ks acc v' acc' v''] l Inr by simp
        show ?thesis
        proof (cases "c' = 0")
          case True
          then show ?thesis using eq s \<open>q = Inr kc\<close> kc l Inr ids by auto
        next
          case False
          then have "f X c' acc' v'' = Some r" using eq s \<open>q = Inr kc\<close> kc l Inr by simp
          from IH [OF this] ids show ?thesis by blast
        qed
      qed (use eq s \<open>q = Inr kc\<close> kc l in auto)
    qed (use eq s in auto)
  qed
  with assms show ?thesis by (auto simp: ListRoomSnapshots_def)
qed

end
