(* ===== verification/Restore.thy ===== *)
theory Restore
  imports Reassign StoreProps
begin

text \<open>
  Rebuilding a room from its snapshot: who is in it, and that a server restored from snapshots of
  at most two players each, none of them empty, satisfies both invariants.
\<close>

section \<open>The players of a snapshot\<close>

lemma addPlayerIDs:
  "map_ok m \<Longrightarrow> map_ok (fold addPlayerID ps m) \<and> dom (map_of (fold addPlayerID ps m)) = dom (map_of m) \<union> (set ps - {[]})"
proof (induction ps arbitrary: m)
  case (Cons p ps)
  have "map_ok (addPlayerID p m)" "dom (map_of (addPlayerID p m)) = dom (map_of m) \<union> ({p} - {[]})"
    using Cons.prems by (auto simp: addPlayerID_def)
  with Cons.IH [of "addPlayerID p m"] show ?case by auto
qed simp

definition namedPlayers :: "RoomSnapshot \<Rightarrow> string set" where
  "namedPlayers sn = (set (slice_list (sn_Players sn)) \<union> set (mkeys (slice_list (sn_ReadyPlayers sn)))
     \<union> set (mkeys (slice_list (sn_SelectedPokemon sn)))) - {[]}"

lemma snapshotPlayerIDs_dom: "map_ok (snapshotPlayerIDs sn) \<and> set (mkeys (snapshotPlayerIDs sn)) = namedPlayers sn"
  using addPlayerIDs by (auto simp: snapshotPlayerIDs_def namedPlayers_def am.set_keys)

lemma snapshotPlayerIDs_distinct: "distinct (mkeys (snapshotPlayerIDs sn))"
  using snapshotPlayerIDs_dom am.distinct_keys by blast

section \<open>Restoring the players one by one\<close>

definition restoredSession :: "RoomSnapshot \<Rightarrow> string \<Rightarrow> Session" where
  "restoredSession sn p = \<lparr>sPlayer = \<lparr>ID = p, Username = []\<rparr>, sRoomID = sn_RoomID sn, sConn = None,
     sSend = [], sSelectedPokemon = (case go_get (sn_SelectedPokemon sn) p of
        None \<Rightarrow> None | Some team \<Rightarrow> copySelectedPokemon team)\<rparr>"

definition restoredReady :: "RoomSnapshot \<Rightarrow> string \<Rightarrow> bool" where
  "restoredReady sn p = (case go_get (sn_ReadyPlayers sn) p of None \<Rightarrow> False | Some b \<Rightarrow> b)"

lemma restorePlayer_steps:
  "restorePlayer sn r p s = RegisterSession p (snext s) (upd_room r (\<lambda>g. g\<lparr>
     rSessions := AList.update p (snext s) (rSessions g), rReadyPlayers := AList.update p (restoredReady sn p) (rReadyPlayers g)\<rparr>)
     (add_session (restoredSession sn p) s))"
  by (simp add: restorePlayer_def restoredSession_def restoredReady_def RegisterSession_def upd_room_def add_session_def Let_def)

lemma restorePlayer_simps [simp]:
  "snext (restorePlayer sn r p s) = Suc (snext s)" "rnext (restorePlayer sn r p s) = rnext s"
  "Rooms (restorePlayer sn r p s) = Rooms s"
  "sheap (restorePlayer sn r p s) = (sheap s)(snext s := restoredSession sn p)"
  "rheap (restorePlayer sn r p s) = (rheap s)(r := (rheap s r)\<lparr>rSessions := AList.update p (snext s) (rSessions (rheap s r)),
     rReadyPlayers := AList.update p (restoredReady sn p) (rReadyPlayers (rheap s r))\<rparr>)"
  "AllSessions (restorePlayer sn r p s) = AList.update p (snext s) (AllSessions s)"
  "same_engine (restorePlayer sn r p s) s" "rmEngine (restorePlayer sn r p s) = rmEngine s"
  by (simp_all add: restorePlayer_def restoredSession_def restoredReady_def Let_def same_engine_def)

lemma wf_restorePlayer:
  assumes wf: "server_wf s" shows "server_wf (restorePlayer sn r p s)"
proof -
  let ?s1 = "add_session (restoredSession sn p) s"
  have wf1: "server_wf ?s1" using wf by (rule wf_add_session) (simp add: restoredSession_def)
  have p: "pid ?s1 (snext s) = p" by (simp add: pid_def add_session_def restoredSession_def)
  show ?thesis unfolding restorePlayer_steps
  proof (rule wf_register [OF wf_upd_room [OF wf1]])
    show "room_ok ?s1 ((rheap ?s1 r)\<lparr>rSessions := AList.update p (snext s) (rSessions (rheap ?s1 r)),
        rReadyPlayers := AList.update p (restoredReady sn p) (rReadyPlayers (rheap ?s1 r))\<rparr>)" if "r < rnext ?s1"
      using room_ok_enter [OF server_wfD(5) [OF wf1 that], of "snext s" "restoredReady sn p"] p by simp
  qed (simp_all add: p)
qed

lemma restore_frame:
  "t = fold (restorePlayer sn r) ps s \<Longrightarrow>
   (server_wf s \<longrightarrow> server_wf t) \<and> same_engine t s \<and> rnext t = rnext s \<and> Rooms t = Rooms s \<and> snext s \<le> snext t
   \<and> (\<forall>r'. r' \<noteq> r \<longrightarrow> rheap t r' = rheap s r') \<and> rID (rheap t r) = rID (rheap s r)
   \<and> rStatus (rheap t r) = rStatus (rheap s r) \<and> rNodeID (rheap t r) = rNodeID (rheap s r)
   \<and> rEngineConn (rheap t r) = rEngineConn (rheap s r) \<and> rmEngine t = rmEngine s
   \<and> length (rSessions (rheap t r)) \<le> length (rSessions (rheap s r)) + length ps"
proof (induction ps arbitrary: s)
  case (Cons p ps)
  let ?s = "restorePlayer sn r p s"
  have t: "t = fold (restorePlayer sn r) ps ?s" using Cons.prems by simp
  have len: "length (rSessions (rheap ?s r)) \<le> Suc (length (rSessions (rheap s r)))"
    by (simp add: length_update_le)
  have "server_wf s \<longrightarrow> server_wf t" "same_engine t s"
    using Cons.IH [OF t] wf_restorePlayer [of s sn r p] same_engine_trans [of t ?s s] by simp_all
  with Cons.IH [OF t] len show ?case by simp
qed simp

definition restored_at :: "RoomSnapshot \<Rightarrow> nat \<Rightarrow> 'w server \<Rightarrow> string \<Rightarrow> nat \<Rightarrow> bool" where
  "restored_at sn r t p a \<longleftrightarrow> sheap t a = restoredSession sn p
     \<and> map_of (rSessions (rheap t r)) p = Some a \<and> map_of (AllSessions t) p = Some a
     \<and> map_of (rReadyPlayers (rheap t r)) p = Some (restoredReady sn p)"

lemma restore_others:
  "t = fold (restorePlayer sn r) ps s \<Longrightarrow>
   dom (map_of (rSessions (rheap t r))) = dom (map_of (rSessions (rheap s r))) \<union> set ps
   \<and> (\<forall>a < snext s. sheap t a = sheap s a)
   \<and> (\<forall>p. p \<notin> set ps \<longrightarrow> map_of (rSessions (rheap t r)) p = map_of (rSessions (rheap s r)) p
        \<and> map_of (rReadyPlayers (rheap t r)) p = map_of (rReadyPlayers (rheap s r)) p
        \<and> map_of (AllSessions t) p = map_of (AllSessions s) p)"
proof (induction ps arbitrary: s)
  case (Cons p ps)
  let ?s = "restorePlayer sn r p s"
  have t: "t = fold (restorePlayer sn r) ps ?s" using Cons.prems by simp
  have dom: "dom (\<lambda>a. if a = p then Some (snext s) else m a) = insert p (dom m)" for m by auto
  show ?case using Cons.IH [OF t] by (simp add: dom)
qed simp

lemma restore_players:
  "distinct ps \<Longrightarrow> t = fold (restorePlayer sn r) ps s \<Longrightarrow>
   \<forall>p \<in> set ps. \<exists>a. snext s \<le> a \<and> a < snext t \<and> restored_at sn r t p a"
proof (induction ps arbitrary: s)
  case (Cons p ps)
  let ?s = "restorePlayer sn r p s"
  have t: "t = fold (restorePlayer sn r) ps ?s" and d: "distinct ps" "p \<notin> set ps" using Cons.prems by simp_all
  note O = restore_others [OF t]
  have "map_of (rSessions (rheap t r)) p = Some (snext s)" "map_of (AllSessions t) p = Some (snext s)"
    "map_of (rReadyPlayers (rheap t r)) p = Some (restoredReady sn p)"
    using O d(2) by simp_all
  moreover have "sheap t (snext s) = restoredSession sn p" using O by simp
  ultimately have "restored_at sn r t p (snext s)" by (simp add: restored_at_def)
  moreover have "snext s < snext t" using restore_frame [OF t] by simp
  ultimately have new: "\<exists>a. snext s \<le> a \<and> a < snext t \<and> restored_at sn r t p a" by blast
  have "\<exists>a. snext s \<le> a \<and> a < snext t \<and> restored_at sn r t q a" if "q \<in> set ps" for q
  proof -
    from Cons.IH [OF d(1) t] that obtain a where "snext ?s \<le> a" "a < snext t" "restored_at sn r t q a" by blast
    then show ?thesis by (intro exI [of _ a]) simp
  qed
  with new show ?case by auto
qed simp

section \<open>A whole room\<close>

definition restoredRoom :: "RoomSnapshot \<Rightarrow> bool \<Rightarrow> GameRoom" where
  "restoredRoom sn b = \<lparr>rID = sn_RoomID sn, rSessions = [], rStatus = sn_Status sn, rNodeID = sn_NodeID sn,
     rReadyPlayers = [], rEngineConn = b\<rparr>"

lemma restore_room_core:
  assumes "t = restoreRoomSnapshot sn s"
  shows "map_of (Rooms t) = (map_of (Rooms s))(sn_RoomID sn \<mapsto> rnext s) \<and> rnext t = Suc (rnext s)
    \<and> same_engine t s \<and> (\<forall>r < rnext s. rheap t r = rheap s r)
    \<and> rID (rheap t (rnext s)) = sn_RoomID sn \<and> rStatus (rheap t (rnext s)) = sn_Status sn
    \<and> rNodeID (rheap t (rnext s)) = sn_NodeID sn \<and> rEngineConn (rheap t (rnext s)) = rmEngine s
    \<and> rmEngine t = rmEngine s
    \<and> dom (map_of (rSessions (rheap t (rnext s)))) = namedPlayers sn
    \<and> length (rSessions (rheap t (rnext s))) \<le> card (namedPlayers sn)
    \<and> (\<forall>a < snext s. sheap t a = sheap s a) \<and> snext s \<le> snext t
    \<and> (\<forall>p. p \<notin> namedPlayers sn \<longrightarrow> map_of (AllSessions t) p = map_of (AllSessions s) p)
    \<and> (\<forall>p \<in> namedPlayers sn. \<exists>a. snext s \<le> a \<and> a < snext t \<and> sheap t a = restoredSession sn p
        \<and> map_of (rSessions (rheap t (rnext s))) p = Some a \<and> map_of (AllSessions t) p = Some a
        \<and> map_of (rReadyPlayers (rheap t (rnext s))) p = Some (restoredReady sn p))
    \<and> (server_wf s \<longrightarrow> server_wf t)"
proof -
  let ?r = "rnext s" and ?ps = "mkeys (snapshotPlayerIDs sn)"
  define s0 where "s0 = s\<lparr>rheap := (rheap s)(?r := restoredRoom sn (rmEngine s)), rnext := Suc ?r\<rparr>"
  define s1 where "s1 = fold (restorePlayer sn ?r) ?ps s0"
  have s0: "snext s0 = snext s" "sheap s0 = sheap s" "Rooms s0 = Rooms s" "AllSessions s0 = AllSessions s"
    "rnext s0 = Suc ?r" "rheap s0 = (rheap s)(?r := restoredRoom sn (rmEngine s))" "MatchQueue s0 = MatchQueue s"
    "same_engine s0 s" "rmEngine s0 = rmEngine s"
    by (simp_all add: s0_def same_engine_def)
  have set: "set ?ps = namedPlayers sn" using snapshotPlayerIDs_dom by blast
  have len: "length ?ps = card (namedPlayers sn)" using distinct_card [OF snapshotPlayerIDs_distinct] set by metis
  note F = restore_frame [OF s1_def, unfolded len] restore_others [OF s1_def, unfolded set]
  note P = restore_players [OF snapshotPlayerIDs_distinct [of sn] s1_def, unfolded set restored_at_def]
  have id: "rID (rheap s1 ?r) = sn_RoomID sn" using F by (simp add: s0 restoredRoom_def)
  have t: "t = s1\<lparr>Rooms := AList.update (sn_RoomID sn) ?r (Rooms s1)\<rparr>"
    using assms id by (simp add: restoreRoomSnapshot_def restoredRoom_def s0_def s1_def Let_def)
  have ts: "Rooms t = AList.update (sn_RoomID sn) ?r (Rooms s)" "rheap t = rheap s1" "rnext t = Suc ?r" "snext t = snext s1"
    "sheap t = sheap s1" "AllSessions t = AllSessions s1" "MatchQueue t = MatchQueue s1"
    using F s0 by (simp_all add: t)
  have wf: "server_wf t" if wf: "server_wf s"
  proof -
    have p: "pid s0 = pid s" by (simp add: pid_def fun_eq_iff s0)
    have "room_ok s0 = room_ok s" by (simp add: room_ok_def fun_eq_iff p s0)
    moreover have "room_ok s (restoredRoom sn b)" for b by (simp add: room_ok_def restoredRoom_def)
    ultimately have "server_wf s0" using wf by (auto simp: server_wf_def p s0 less_Suc_eq)
    then have wf1: "server_wf s1" using F by blast
    have p1: "pid t = pid s1" by (simp add: pid_def fun_eq_iff ts)
    have ok1: "room_ok t = room_ok s1" by (simp add: room_ok_def fun_eq_iff p1 ts)
    have "map_ok (Rooms t)" using server_wfD(1) [OF wf] by (simp add: ts)
    moreover have "r < rnext t \<and> rID (rheap t r) = i" if "map_of (Rooms t) i = Some r" for i r
      using that id server_wfD(3,4) [OF wf, of i r] F s0 by (auto simp: ts split: if_splits)
    ultimately show ?thesis using wf1 F s0 unfolding server_wf_def p1 ok1 ts by simp
  qed
  have eng: "same_engine t s" using F s0(8) by (simp add: t same_engine_def)
  have others: "\<forall>r < ?r. rheap t r = rheap s r" using F s0 by (simp add: ts)
  have fields: "rID (rheap t ?r) = sn_RoomID sn" "rStatus (rheap t ?r) = sn_Status sn" "rNodeID (rheap t ?r) = sn_NodeID sn"
    "rEngineConn (rheap t ?r) = rmEngine s" "rmEngine t = rmEngine s"
    "dom (map_of (rSessions (rheap t ?r))) = namedPlayers sn" "length (rSessions (rheap t ?r)) \<le> card (namedPlayers sn)"
    using F id s0 by (simp_all add: ts restoredRoom_def) (simp add: t)
  have players: "\<forall>p \<in> namedPlayers sn. \<exists>a. snext s \<le> a \<and> a < snext t \<and> sheap t a = restoredSession sn p
        \<and> map_of (rSessions (rheap t ?r)) p = Some a \<and> map_of (AllSessions t) p = Some a
        \<and> map_of (rReadyPlayers (rheap t ?r)) p = Some (restoredReady sn p)"
    using P unfolding ts s0 by blast
  have rest: "\<forall>a < snext s. sheap t a = sheap s a" "snext s \<le> snext t"
    "\<forall>p. p \<notin> namedPlayers sn \<longrightarrow> map_of (AllSessions t) p = map_of (AllSessions s) p"
    using F unfolding ts s0 by blast+
  have "map_of (Rooms t) = (map_of (Rooms s))(sn_RoomID sn \<mapsto> ?r)" by (simp add: ts)
  with ts(3) eng others fields players rest wf show ?thesis by blast
qed


section \<open>Start-up\<close>

definition startable :: "RoomSnapshot \<Rightarrow> bool" where
  "startable sn \<longleftrightarrow> namedPlayers sn \<noteq> {} \<and> card (namedPlayers sn) \<le> MaxPlayersPerRoom"

lemma restore_invs:
  assumes "cap_inv k s" "occ_inv k s" "att_inv k s" and sn: "startable sn"
  shows "cap_inv k (restoreRoomSnapshot sn s) \<and> occ_inv k (restoreRoomSnapshot sn s) \<and> att_inv k (restoreRoomSnapshot sn s)"
proof -
  let ?t = "restoreRoomSnapshot sn s"
  have wf: "server_wf s" and e: "engine_wf s" and two: "at_most_two s" and ne: "no_empty_room s" and k: "k \<le> snext s"
    and conn: "rmEngine s" "\<forall>r < rnext s. rEngineConn (rheap s r)"
    using assms by (simp_all add: cap_inv_def occ_inv_def att_inv_def)
  note R = restore_room_core [OF refl, of sn s]
  have "engine_wf ?t" using R e engine_wf_same by blast
  moreover have "server_wf ?t" using R wf by blast
  moreover have "k \<le> snext ?t" using R k by (meson le_trans)
  moreover have "at_most_two ?t" unfolding at_most_two_def
  proof (intro allI impI)
    fix r assume "r < rnext ?t"
    then consider "r < rnext s" | "r = rnext s" using R by (auto simp: less_Suc_eq)
    then show "length (rSessions (rheap ?t r)) \<le> MaxPlayersPerRoom"
      using R two sn by cases (auto simp: at_most_two_def startable_def)
  qed
  moreover have "no_empty_room ?t" unfolding no_empty_room_def
  proof (intro allI impI)
    fix i r assume i: "map_of (Rooms ?t) i = Some r"
    have dom: "dom (map_of (rSessions (rheap ?t (rnext s)))) \<noteq> {}" using R sn by (simp add: startable_def)
    show "rSessions (rheap ?t r) \<noteq> []"
    proof (cases "i = sn_RoomID sn")
      case True
      then have "r = rnext s" using R i by simp
      with dom show ?thesis by auto
    next
      case False
      then have old: "map_of (Rooms s) i = Some r" using R i by simp
      with server_wfD(3) [OF wf] have "r < rnext s" by blast
      then have "rheap ?t r = rheap s r" using R by blast
      with ne old show ?thesis by (auto simp: no_empty_room_def)
    qed
  qed
  moreover have "rmEngine ?t \<and> (\<forall>r < rnext ?t. rEngineConn (rheap ?t r))" using R conn by (auto simp: less_Suc_eq)
  ultimately show ?thesis by (simp add: cap_inv_def occ_inv_def att_inv_def)
qed

definition all_inv :: "nat \<Rightarrow> 'w server \<Rightarrow> bool" where
  "all_inv k s \<longleftrightarrow> cap_inv k s \<and> occ_inv k s \<and> att_inv k s"

lemma restore_all_invs:
  "all_inv k s \<Longrightarrow> \<forall>sn \<in> set sns. startable sn \<Longrightarrow> all_inv k (fold restoreRoomSnapshot sns s)"
proof (induction sns arbitrary: s)
  case (Cons sn sns)
  then have "all_inv k (restoreRoomSnapshot sn s)" using restore_invs [of k s sn] by (simp add: all_inv_def)
  with Cons show ?case by simp
qed simp

lemma all_world: "all_inv k s \<Longrightarrow> all_inv k (s\<lparr>world := w\<rparr>)"
  by (simp add: all_inv_def cap.I_world occ.I_world att.I_world)

text \<open>What start-up reads from Redis.\<close>

definition restorable :: "'w ext \<Rightarrow> 'w \<Rightarrow> bool" where
  "restorable X w \<longleftrightarrow> (\<forall>sns v. ListRoomSnapshots X w = Some (Inr sns, v) \<longrightarrow> (\<forall>sn \<in> set sns. startable sn))"

lemma RestoreFromStore_invs:
  assumes inv: "all_inv k s" and ok: "restorable X (world s)"
  shows "all_inv k (final (RestoreFromStore X n s))"
proof (cases "rmStore s")
  case True
  consider "ListRoomSnapshots X (world s) = None" | e w where "ListRoomSnapshots X (world s) = Some (Inl e, w)"
    | sns w where "ListRoomSnapshots X (world s) = Some (Inr sns, w)"
    by (cases "ListRoomSnapshots X (world s)") (auto, metis sum.exhaust)
  then show ?thesis
  proof cases
    case 3
    let ?s = "fold restoreRoomSnapshot (filter (\<lambda>sn. \<not> (sn_RoomID sn = [] \<or> (n > 0 \<and> sn_NodeID sn \<noteq> n))) sns) (s\<lparr>world := w\<rparr>)"
    have "\<forall>sn \<in> set sns. startable sn" using ok 3 by (simp add: restorable_def)
    then have "all_inv k ?s" using inv by (intro restore_all_invs all_world) auto
    moreover have "final (RestoreFromStore X n s) = final (ReassignRunningRoomsFromUnavailableNodes X ?s)"
      using True 3 by (cases "ReassignRunningRoomsFromUnavailableNodes X ?s") (simp_all add: RestoreFromStore_def Let_def)
    ultimately show ?thesis by (simp add: all_inv_def cap.I_Reassign occ.I_Reassign att.I_Reassign)
  qed (use True inv in \<open>simp_all add: RestoreFromStore_def all_world\<close>)
qed (use inv in \<open>simp add: RestoreFromStore_def\<close>)

text \<open>Nobody is in the match queue yet.\<close>

lemma restoreRoomSnapshot_queue: "MatchQueue (restoreRoomSnapshot sn s) = MatchQueue s"
proof -
  have "MatchQueue (fold (restorePlayer sn r) ps t) = MatchQueue t" for r ps and t :: "'a server"
    by (induction ps arbitrary: t) (simp_all add: restorePlayer_def Let_def)
  then show ?thesis by (simp add: restoreRoomSnapshot_def Let_def)
qed

lemma RestoreFromStore_queue: "MatchQueue (final (RestoreFromStore X n s)) = MatchQueue s"
proof -
  have f: "MatchQueue (fold restoreRoomSnapshot sns t) = MatchQueue t" for sns and t :: "'a server"
    by (induction sns arbitrary: t) (simp_all add: restoreRoomSnapshot_queue)
  have g: "MatchQueue (final (ReassignRunningRoomsFromUnavailableNodes X t)) = MatchQueue t" for t :: "'a server"
    using same_stage_reassignFunc [of t X] by (simp add: same_stage_def final_reassignFunc)
  have a: "final (andthen m (\<lambda>_ s2. Done c s2)) = final m" for m :: "(int \<times> int, 'a server) exec" and c :: "error option"
    by (cases m) simp_all
  show ?thesis by (simp add: RestoreFromStore_def Let_def a f g split: option.split prod.split sum.split)
qed

end
