(* ===== verification/EngineFrame.thy ===== *)
theory EngineFrame
  imports EngineInv
begin

text \<open>
  The engine's operations only touch the engine's part of the state (\<open>net.more\<close> is kept), so an
  invariant over the whole server survives the background tickers if it survives changes of that
  part that keep \<open>engine_wf\<close>, and the failover callback: locale \<open>callback_invariant\<close>.
\<close>

section \<open>Frames\<close>

lemma more_elementary [simp]:
  "net.more (upd_node a f s) = net.more s" "net.more (closeClient X c s) = net.more s"
  "net.more (resetReconnectFailures i s) = net.more s" "net.more (setReconnecting b i s) = net.more s"
  "net.more (updateMaxPodIndex i s) = net.more s" "net.more (shrinkReplicaCountIfNeeded s) = net.more s"
  by (simp_all add: upd_node_def closeClient_def resetReconnectFailures_def setReconnecting_def
      updateMaxPodIndex_def shrinkReplicaCountIfNeeded_def Let_def split: option.split)

lemma more_ensureNode: "ensureNode i s = (a, t) \<Longrightarrow> net.more t = net.more s"
  by (auto simp: ensureNode_def split: option.splits)

lemma more_connect: "connectAndRegisterPod X i addr s = (r, t) \<Longrightarrow> net.more t = net.more s"
  by (auto simp: connectAndRegisterPod_def Let_def dest!: more_ensureNode split: prod.splits sum.splits)

lemma more_delete [simp]: "net.more (deleteNode X i s) = net.more s"
  by (simp add: deleteNode_def Let_def split: option.split prod.split)

lemma more_discoverPod [simp]: "net.more (discoverPod X i s) = net.more s"
  by (auto simp: discoverPod_def Let_def dest!: more_connect split: option.split prod.split sum.split)

lemma more_fold: "(\<And>x t. net.more (f x t) = net.more t) \<Longrightarrow> net.more (fold f xs s) = net.more s"
  by (induction xs arbitrary: s) simp_all

lemma more_discover [simp]: "net.more (discoverNewPods X s) = net.more s"
  by (simp add: discoverNewPods_def more_fold)

lemma more_reconnect: "reconnect X i addr s = (r, t) \<Longrightarrow> net.more t = net.more s"
  by (auto simp: reconnect_def Let_def dest!: more_connect split: option.splits prod.splits if_splits)

lemma more_ensureConnected [simp]:
  fixes X :: "'w ext" and s :: "('w, 'm) net_scheme"
  shows "net.more (ensureConnected X s) = net.more s"
proof -
  have "net.more (snd (reconnect X i addr t)) = net.more t" for i addr and t :: "('w, 'm) net_scheme"
    by (cases "reconnect X i addr t") (simp add: more_reconnect)
  then have "net.more (ensureConnectedAt X i t) = net.more t" for i and t :: "('w, 'm) net_scheme"
    by (simp add: ensureConnectedAt_def Let_def split: option.split)
  then show ?thesis by (simp add: ensureConnected_def more_fold)
qed

section \<open>Invariants of the whole server\<close>

locale callback_invariant = reassign_callback fn
  for fn :: "('w, 'm) net_callback" +
  fixes J :: "('w, 'm) net_scheme \<Rightarrow> bool"
  assumes J_wf: "J s \<Longrightarrow> engine_wf s"
    and J_more: "J s \<Longrightarrow> net.more t = net.more s \<Longrightarrow> engine_wf t \<Longrightarrow> J t"
    and J_fn: "J s \<Longrightarrow> J (final (fn s))"
begin

lemma J_trigger: "J s \<Longrightarrow> J (final (triggerReassignRooms fn s))"
  by (simp add: triggerReassignRooms_def J_fn)

lemma J_maybe: "J s \<Longrightarrow> J (final (if b then triggerReassignRooms fn s else Done () s))"
  by (simp add: J_trigger)

lemma J_upd_node: "J s \<Longrightarrow> keeps_identity f \<Longrightarrow> J (upd_node a f s)"
  using J_more [of s "upd_node a f s"] J_wf engine_wf_upd_node by fastforce

lemma J_world: "J s \<Longrightarrow> J (s\<lparr>world := w\<rparr>)"
  using J_more [of s "s\<lparr>world := w\<rparr>"] J_wf by simp

lemma J_andthen:
  assumes "J (final m)" and "\<And>x t. m = Done x t \<Longrightarrow> J t \<Longrightarrow> J (final (k x t))"
  shows "J (final (andthen m k))"
  using assms by (rule final_andthen_inv [where P = J])

lemma J_delete: "J s \<Longrightarrow> J (deleteNode X i s)"
  using J_more [of s "deleteNode X i s"] engine_wf_delete J_wf by fastforce

lemma J_record:
  assumes J: "J s" shows "J (final (recordReconnectFailure X fn i s))"
proof (cases "getNode s i")
  case (Some a)
  have "J (upd_node a (incrementReconnectFailures (x_now X (world s))) s)"
    using J by (rule J_upd_node) (simp add: keeps_identity_def incrementReconnectFailures_def)
  from J_maybe [OF this] show ?thesis
    unfolding recordReconnectFailure_def Some Let_def option.case
    by (rule J_andthen) (simp add: J_delete)
qed (simp add: recordReconnectFailure_def J)

lemma J_attempt:
  assumes J: "J s" shows "J (final (attemptReconnectStep X fn l s))"
proof (cases l)
  case (fields i addr b)
  obtain r t where t: "connectAndRegisterPod X i addr s = (r, t)" by (rule prod.exhaust)
  have Jt: "J t" using J_more [OF J more_connect [OF t] engine_wf_connectD [OF t J_wf [OF J]]] .
  have flags: "J (setReconnecting False i u)" if "J u" for u
    using J_more [OF that, of "setReconnecting False i u"] J_wf [OF that] by simp
  show ?thesis
  proof (cases r)
    case (Some e)
    have "J (final (andthen (recordReconnectFailure X fn i t) (\<lambda>_ s2. Done (Some (i, addr, nextBackoff b)) s2)))"
      by (rule J_andthen [OF J_record [OF Jt]]) simp
    then show ?thesis using t Some J flags by (simp add: attemptReconnectStep_def fields)
  next
    case None
    have "J (resetReconnectFailures i t)" using J_more [OF Jt, of "resetReconnectFailures i t"] J_wf [OF Jt] by simp
    then show ?thesis using t None J flags by (simp add: attemptReconnectStep_def fields)
  qed
qed

lemma J_checkSingle:
  assumes J: "J s" shows "J (final (checkSingleNode X fn i s))"
proof (cases "getNode s i")
  case (Some a)
  have bad: "J (upd_node a (markUnhealthy e) t)" if "J t" for e t
    using that by (rule J_upd_node) (simp add: keeps_identity_def markUnhealthy_def)
  show ?thesis
  proof (cases "CallGetHeartbeat X (nclient (nheap s a)) (world s)")
    case None
    then show ?thesis using Some bad [OF J] by (simp add: checkSingleNode_def)
  next
    case call: (Some p)
    obtain r w where p: "p = (r, w)" by (rule prod.exhaust)
    show ?thesis
    proof (cases r)
      case (Inl e)
      then show ?thesis using Some call p bad [OF J_world [OF J]] by (simp add: checkSingleNode_def)
    next
      case (Inr hb)
      obtain n ch where n: "markHealthy hb (x_now X w) (nheap s a) = (n, ch)" by (rule prod.exhaust)
      let ?s1 = "upd_node a (\<lambda>_. n) (s\<lparr>world := w\<rparr>)"
      have "keeps_identity (\<lambda>n. fst (markHealthy hb (x_now X w) n))"
        by (simp add: keeps_identity_def markHealthy_def Let_def)
      from J_upd_node [OF J_world [OF J] this, of a w] n have "J ?s1" by (simp add: upd_node_def)
      from J_maybe [OF this]
      have "J (final (andthen (if ch then triggerReassignRooms fn ?s1 else Done () ?s1) (\<lambda>_. Done (None :: error option))))"
        by (rule J_andthen) simp
      then show ?thesis using Some call p Inr n by (simp add: checkSingleNode_def Let_def)
    qed
  qed
qed (simp add: checkSingleNode_def J)

lemma J_checkHeartbeatAt:
  assumes J: "J s" shows "J (final (checkHeartbeatAt X fn i s))"
proof (cases "getNode s i")
  case (Some a)
  show ?thesis unfolding checkHeartbeatAt_def Some option.case
  proof (rule J_andthen [OF J_checkSingle [OF J]])
    fix err and t assume t: "J t"
    obtain r u where u: "reconnect X i (Addr (nheap t a)) t = (r, u)" by (rule prod.exhaust)
    have "J u" using J_more [OF t more_reconnect [OF u] engine_wf_reconnectD [OF u J_wf [OF t]]] .
    with J_record [OF this] t
    show "J (final (case err of None \<Rightarrow> Done () t | Some e \<Rightarrow> let addr = Addr (nheap t a) in
        if addr = [] then Done () t else (case reconnect X i addr t of
            (None, s2) \<Rightarrow> Done () s2 | (Some e', s2) \<Rightarrow> recordReconnectFailure X fn i s2)))"
      by (simp add: Let_def u split: option.split)
  qed
qed (simp add: checkHeartbeatAt_def J)

lemma J_healthTick:
  assumes J: "J s" shows "J (final (healthTick X fn s))"
proof -
  have "J (ensureConnected X s)" using J_more [OF J, of "ensureConnected X s"] engine_wf_ensureConnected [OF J_wf [OF J]] by simp
  then have "J (final (checkHeartbeat X fn (ensureConnected X s)))"
    unfolding checkHeartbeat_def by (rule final_foreach_inv) (auto intro: J_checkHeartbeatAt)
  then show ?thesis unfolding healthTick_def
  proof (rule J_andthen)
    fix x t assume t: "J t"
    have "J (shrinkReplicaCountIfNeeded t)" using J_more [OF t, of "shrinkReplicaCountIfNeeded t"] engine_wf_shrink [OF J_wf [OF t]] by simp
    then show "J (final (checkAndTriggerReassign fn (shrinkReplicaCountIfNeeded t)))"
      by (simp add: checkAndTriggerReassign_def J_trigger)
  qed
qed

lemma J_discoveryTick: "J s \<Longrightarrow> J (final (discoveryTick X s))"
  using J_more [of s "discoverNewPods X s"] engine_wf_discover J_wf by (fastforce simp: discoveryTick_def)

end

text \<open>If the callback always returns on such states, so do the tickers.\<close>

locale returning_callback = callback_invariant +
  assumes fn_returns: "J s \<Longrightarrow> returns (fn s)"
begin

lemma trigger_returns: "J s \<Longrightarrow> returns (triggerReassignRooms fn s)"
  by (simp add: triggerReassignRooms_def fn_returns)

lemma returns_maybe: "J s \<Longrightarrow> returns (if b then triggerReassignRooms fn s else Done () s)"
  by (simp add: trigger_returns)

lemma record_returns:
  assumes J: "J s" shows "returns (recordReconnectFailure X fn i s)"
proof (cases "getNode s i")
  case (Some a)
  have "J (upd_node a (incrementReconnectFailures (x_now X (world s))) s)"
    using J by (rule J_upd_node) (simp add: keeps_identity_def incrementReconnectFailures_def)
  from returns_maybe [OF this] show ?thesis
    unfolding recordReconnectFailure_def Some Let_def option.case by (rule returns_andthen) simp
qed (simp add: recordReconnectFailure_def)

lemma attempt_returns:
  assumes J: "J s" shows "returns (attemptReconnectStep X fn l s)"
proof (cases l)
  case (fields i addr b)
  obtain r t where t: "connectAndRegisterPod X i addr s = (r, t)" by (rule prod.exhaust)
  have "J t" using J_more [OF J more_connect [OF t] engine_wf_connectD [OF t J_wf [OF J]]] .
  then have "returns (andthen (recordReconnectFailure X fn i t) (\<lambda>_ s2. Done (Some (i, addr, nextBackoff b)) s2))"
    by (intro returns_andthen record_returns) simp_all
  with t show ?thesis by (cases r) (simp_all add: attemptReconnectStep_def fields)
qed

lemma checkSingle_returns:
  assumes J: "J s" shows "returns (checkSingleNode X fn i s)"
proof (cases "getNode s i")
  case (Some a)
  show ?thesis
  proof (cases "CallGetHeartbeat X (nclient (nheap s a)) (world s)")
    case call: (Some p)
    obtain r w where p: "p = (r, w)" by (rule prod.exhaust)
    show ?thesis
    proof (cases r)
      case (Inr hb)
      obtain n ch where n: "markHealthy hb (x_now X w) (nheap s a) = (n, ch)" by (rule prod.exhaust)
      let ?s1 = "upd_node a (\<lambda>_. n) (s\<lparr>world := w\<rparr>)"
      have "keeps_identity (\<lambda>n. fst (markHealthy hb (x_now X w) n))"
        by (simp add: keeps_identity_def markHealthy_def Let_def)
      from J_upd_node [OF J_world [OF J] this, of a w] n have "J ?s1" by (simp add: upd_node_def)
      then have "returns (andthen (if ch then triggerReassignRooms fn ?s1 else Done () ?s1) (\<lambda>_. Done (None :: error option)))"
        by (intro returns_andthen returns_maybe) simp_all
      then show ?thesis using Some call p Inr n by (simp add: checkSingleNode_def Let_def)
    qed (use Some call p in \<open>simp add: checkSingleNode_def\<close>)
  qed (use Some in \<open>simp add: checkSingleNode_def\<close>)
qed (simp add: checkSingleNode_def)

lemma checkHeartbeatAt_returns:
  assumes J: "J s" shows "returns (checkHeartbeatAt X fn i s)"
proof (cases "getNode s i")
  case (Some a)
  show ?thesis unfolding checkHeartbeatAt_def Some option.case
  proof (rule returns_andthen [OF checkSingle_returns [OF J]])
    fix err t assume "checkSingleNode X fn i s = Done err t"
    with J_checkSingle [OF J, of X i] have t: "J t" by simp
    obtain r u where u: "reconnect X i (Addr (nheap t a)) t = (r, u)" by (rule prod.exhaust)
    have "J u" using J_more [OF t more_reconnect [OF u] engine_wf_reconnectD [OF u J_wf [OF t]]] .
    with record_returns [OF this]
    show "returns (case err of None \<Rightarrow> Done () t | Some e \<Rightarrow> let addr = Addr (nheap t a) in
        if addr = [] then Done () t else (case reconnect X i addr t of
            (None, s2) \<Rightarrow> Done () s2 | (Some e', s2) \<Rightarrow> recordReconnectFailure X fn i s2))"
      by (simp add: Let_def u split: option.split)
  qed
qed (simp add: checkHeartbeatAt_def)

lemma healthTick_returns:
  assumes J: "J s" shows "returns (healthTick X fn s)"
proof -
  let ?m = "checkHeartbeat X fn (ensureConnected X s)"
  have e: "J (ensureConnected X s)" using J_more [OF J, of "ensureConnected X s"] engine_wf_ensureConnected [OF J_wf [OF J]] by simp
  have m: "returns ?m" unfolding checkHeartbeat_def
    by (rule returns_foreach [where P = J, OF e]) (simp add: checkHeartbeatAt_returns J_checkHeartbeatAt)
  have Jm: "J (final ?m)" unfolding checkHeartbeat_def
    by (rule final_foreach_inv [where P = J, OF e]) (simp add: J_checkHeartbeatAt)
  show ?thesis unfolding healthTick_def
  proof (rule returns_andthen [OF m])
    fix x t assume "?m = Done x t"
    with Jm have t: "J t" by simp
    have "J (shrinkReplicaCountIfNeeded t)" using J_more [OF t, of "shrinkReplicaCountIfNeeded t"] engine_wf_shrink [OF J_wf [OF t]] by simp
    then show "returns (checkAndTriggerReassign fn (shrinkReplicaCountIfNeeded t))"
      by (simp add: checkAndTriggerReassign_def trigger_returns)
  qed
qed

end

end
