(* ===== verification/Server.thy ===== *)
theory Server
  imports Panics Restore EngineFrame
begin

text \<open>
  The running server: \<open>cmd/server/main.go\<close> and the interleaving of its goroutines. A state of
  \<open>'w system\<close> is the server with the goroutines that serve connections: read loops, write pumps,
  retention timers and state syncs; the goroutines that room operations start are the \<open>tasks\<close>, the
  engine's reconnect loops the \<open>loops\<close> of the server. \<open>step\<close> is one turn of one of them. A handler
  runs without interruption; one that blocks or panics ends in the state it has reached, and its
  goroutine does not go on. A panic in a handler is caught by \<open>net/http\<close>, one in any other
  goroutine ends the process.
\<close>

section \<open>State and start-up\<close>

record 'w system =
  srv :: "'w server"
  links :: "(nat \<times> nat) list"
  pumps :: "(nat \<times> nat) list"
  timers :: "string list"
  syncs :: "nat list"
  matching :: bool
  crashed :: bool

text \<open>\<open>main\<close> up to the start of the HTTP server, from a process that has no engine node yet.\<close>

definition initRoomManager :: "'w ext \<Rightarrow> int \<Rightarrow> 'w net \<Rightarrow> 'w server" where
  "initRoomManager X ttl n = final (RestoreFromStore X 0 (NewRoomManager True True ttl n))"

definition startServer :: "'w ext \<Rightarrow> int \<Rightarrow> 'w net \<Rightarrow> 'w system" where
  "startServer X ttl n =
     (let engineConn = NewEngineInstance X n;
          rm = initRoomManager X ttl engineConn
      in \<lparr>srv = SetReassignRoomsFunc rm, links = [], pumps = [], timers = [], syncs = [], matching = True, crashed = False\<rparr>)"

text \<open>The end of \<open>main\<close>, after the HTTP server has stopped.\<close>

definition shutdownServer :: "'w ext \<Rightarrow> 'w server \<Rightarrow> 'w server" where
  "shutdownServer X s = Shutdown X (DestroyAllRooms s)"

text \<open>The two debugging endpoints of \<open>initHTTPServer\<close>: the reply is a status code with a text, or JSON.\<close>

datatype http_reply = HttpError int string | HttpJSON json

definition debug_engine :: "gofmt \<Rightarrow> 'w server \<Rightarrow> http_reply" where
  "debug_engine F s = HttpJSON (enc_EngineStatus F (GetStatus s))"

definition debug_room_snapshot :: "'w ext \<Rightarrow> string \<Rightarrow> string \<Rightarrow> 'w \<Rightarrow> http_reply \<times> 'w" where
  "debug_room_snapshot X httpMethod roomID w =
     (if httpMethod \<noteq> ''GET'' then (HttpError 405 ''method not allowed'', w)
      else if roomID = [] then (HttpError 400 ''missing room_id'', w)
      else (case LoadRoomSnapshot X roomID w of
          (Inl e, w') \<Rightarrow> if e = EStore ENotFound then (HttpError 404 ''room snapshot not found'', w')
             else (HttpError 500 ''failed to load room snapshot'', w')
        | (Inr snap, w') \<Rightarrow> (HttpJSON (enc_RoomSnapshot snap), w')))"

section \<open>Turns\<close>

definition resume :: "task option \<Rightarrow> 'w server \<Rightarrow> 'w server" where
  "resume k s = s\<lparr>tasks := tasks s @ (case k of None \<Rightarrow> [] | Some t \<Rightarrow> [t])\<rparr>"

definition reloop :: "(int \<times> string \<times> int) option \<Rightarrow> 'w server \<Rightarrow> 'w server" where
  "reloop k s = s\<lparr>loops := loops s @ (case k of None \<Rightarrow> [] | Some l \<Rightarrow> [l])\<rparr>"

text \<open>The end of a read loop: the deferred function of \<open>HandleWS\<close>.\<close>

definition hangup :: "nat \<times> nat \<Rightarrow> 'w system \<Rightarrow> 'w system" where
  "hangup l y = (case HandleWS_close (fst l) (snd l) (srv y) of (expire, t) \<Rightarrow>
     y\<lparr>srv := t, links := remove1 l (links y),
       timers := (if expire then timers y @ [pid (srv y) (fst l)] else timers y)\<rparr>)"

inductive step :: "'w ext \<Rightarrow> gofmt \<Rightarrow> 'w system \<Rightarrow> 'w system \<Rightarrow> bool" for X F where
  connect: "\<not> crashed y \<Longrightarrow> uid \<noteq> [] \<Longrightarrow> c \<notin> snd ` set (links y) \<Longrightarrow> c \<notin> snd ` set (pumps y) \<Longrightarrow>
    HandleWS_open uid c (srv y) = Done (a, sync) t \<Longrightarrow>
    step X F y (y\<lparr>srv := t, links := (a, c) # links y, pumps := (a, c) # pumps y,
      syncs := (if sync then a # syncs y else syncs y)\<rparr>)"
| connect_parked: "\<not> crashed y \<Longrightarrow> uid \<noteq> [] \<Longrightarrow> c \<notin> snd ` set (links y) \<Longrightarrow> c \<notin> snd ` set (pumps y) \<Longrightarrow>
    HandleWS_open uid c (srv y) = Stop k t \<Longrightarrow> FindSession uid (srv y) = Some a \<Longrightarrow>
    step X F y (y\<lparr>srv := t, pumps := (a, c) # pumps y\<rparr>)"
| message: "\<not> crashed y \<Longrightarrow> (a, c) \<in> set (links y) \<Longrightarrow>
    Dispatch X (InitGameRouters X F) a payload (srv y) = Done () t \<Longrightarrow>
    step X F y (y\<lparr>srv := t\<rparr>)"
| message_panic: "\<not> crashed y \<Longrightarrow> (a, c) \<in> set (links y) \<Longrightarrow>
    Dispatch X (InitGameRouters X F) a payload (srv y) = Stop Panicked t \<Longrightarrow>
    step X F y (hangup (a, c) (y\<lparr>srv := t\<rparr>))"
| message_parked: "\<not> crashed y \<Longrightarrow> (a, c) \<in> set (links y) \<Longrightarrow> k \<noteq> Panicked \<Longrightarrow>
    Dispatch X (InitGameRouters X F) a payload (srv y) = Stop k t \<Longrightarrow>
    step X F y (y\<lparr>srv := t, links := remove1 (a, c) (links y)\<rparr>)"
| disconnect: "\<not> crashed y \<Longrightarrow> (a, c) \<in> set (links y) \<Longrightarrow> step X F y (hangup (a, c) y)"
| pump: "\<not> crashed y \<Longrightarrow> (a, c) \<in> set (pumps y) \<Longrightarrow>
    WritePump_turn a c ok (srv y) = ((m, again), t) \<Longrightarrow>
    step X F y (y\<lparr>srv := t, pumps := (if again then pumps y else remove1 (a, c) (pumps y))\<rparr>)"
| expire: "\<not> crashed y \<Longrightarrow> uid \<in> set (timers y) \<Longrightarrow> m = CleanUpIfStillOffline X uid (srv y) \<Longrightarrow>
    step X F y (y\<lparr>srv := final m, timers := remove1 uid (timers y), crashed := panics m\<rparr>)"
| sync: "\<not> crashed y \<Longrightarrow> a \<in> set (syncs y) \<Longrightarrow> m = SyncRoomState a (srv y) \<Longrightarrow>
    step X F y (y\<lparr>srv := final m, syncs := remove1 a (syncs y), crashed := panics m\<rparr>)"
| background: "\<not> crashed y \<Longrightarrow> tasks (srv y) = ts @ t # us \<Longrightarrow>
    runTask X t ((srv y)\<lparr>tasks := ts @ us\<rparr>) = Done k s \<Longrightarrow>
    step X F y (y\<lparr>srv := resume k s\<rparr>)"
| background_stop: "\<not> crashed y \<Longrightarrow> tasks (srv y) = ts @ t # us \<Longrightarrow>
    runTask X t ((srv y)\<lparr>tasks := ts @ us\<rparr>) = Stop c s \<Longrightarrow>
    step X F y (y\<lparr>srv := s, crashed := (c = Panicked)\<rparr>)"
| match_turn: "\<not> crashed y \<Longrightarrow> matching y \<Longrightarrow> 2 \<le> length (MatchQueue (srv y)) \<Longrightarrow> m = matchTurn X (srv y) \<Longrightarrow>
    step X F y (y\<lparr>srv := final m, matching := returns m, crashed := panics m\<rparr>)"
| health: "\<not> crashed y \<Longrightarrow> m = healthTick X (reassignFunc X) (srv y) \<Longrightarrow>
    step X F y (y\<lparr>srv := final m, crashed := panics m\<rparr>)"
| discovery: "\<not> crashed y \<Longrightarrow> m = discoveryTick X (srv y) \<Longrightarrow>
    step X F y (y\<lparr>srv := final m, crashed := panics m\<rparr>)"
| reconnect_turn: "\<not> crashed y \<Longrightarrow> loops (srv y) = ls @ l # ms \<Longrightarrow>
    attemptReconnectStep X (reassignFunc X) l ((srv y)\<lparr>loops := ls @ ms\<rparr>) = Done k s \<Longrightarrow>
    step X F y (y\<lparr>srv := reloop k s\<rparr>)"
| reconnect_stop: "\<not> crashed y \<Longrightarrow> loops (srv y) = ls @ l # ms \<Longrightarrow>
    attemptReconnectStep X (reassignFunc X) l ((srv y)\<lparr>loops := ls @ ms\<rparr>) = Stop c s \<Longrightarrow>
    step X F y (y\<lparr>srv := s, crashed := (c = Panicked)\<rparr>)"

inductive reachable :: "'w ext \<Rightarrow> gofmt \<Rightarrow> int \<Rightarrow> 'w net \<Rightarrow> 'w system \<Rightarrow> bool" for X F ttl n where
  started: "reachable X F ttl n (startServer X ttl n)"
| stepped: "reachable X F ttl n y \<Longrightarrow> step X F y z \<Longrightarrow> reachable X F ttl n z"

inductive_cases stepE: "step X F y z"

lemma crashed_stuck: "crashed y \<Longrightarrow> \<not> step X F y z"
  by (auto elim: stepE)

section \<open>Every invariant of the contract survives a turn\<close>

lemma more_same_rooms:
  fixes s t :: "'w server"
  assumes "net.more t = net.more s" shows "same_rooms s t"
  using assms by (cases s; cases t; simp add: same_rooms_def pid_def)

text \<open>The tickers of the engine, with the real failover function.\<close>

sublocale room_invariant \<subseteq> cb: returning_callback "reassignFunc X" I for X
proof unfold_locales
  fix s t
  assume inv: "I s"
  show "engine_wf s" using inv by (rule I_engine)
  show "I t" if "net.more t = net.more s" "engine_wf t"
    using inv more_same_rooms [OF that(1)] that(2) by (rule I_quiet)
  show "I (final (reassignFunc X s))" using inv by (rule I_reassignFunc)
  show "returns (reassignFunc X s)" using I_engine [OF inv] by (rule reassignFunc_returns)
qed

lemma runDestroy_quiet: "quiet s (runDestroy X na i s)"
  by (auto simp: runDestroy_def split: option.split)

lemma pump_quiet:
  assumes "WritePump_turn a c ok s = (p, t)" shows "quiet s t"
proof -
  have "t = s \<or> (\<exists>ms. t = upd_sess a (\<lambda>n. n\<lparr>sSend := ms\<rparr>) s \<and> length ms \<le> length (sSend (sheap s a)))"
    using assms by (auto simp: WritePump_turn_def Let_def split: list.splits if_splits)
  then show ?thesis by (auto simp: quiet_def same_rooms_def same_engine_def intro: order_trans)
qed

definition links_ok :: "'w system \<Rightarrow> bool" where
  "links_ok y \<longleftrightarrow> (\<forall>l \<in> set (links y). fst l < snext (srv y))"

context room_invariant begin

lemma I_engine_only: "I s \<Longrightarrow> net.more t = net.more s \<Longrightarrow> engine_wf t \<Longrightarrow> I t"
  by (rule I_quiet [OF _ more_same_rooms])

lemma I_loops: "I s \<Longrightarrow> I (s\<lparr>loops := ls\<rparr>)"
  by (rule I_engine_only) (simp_all add: I_engine)

lemma I_runTask: "I s \<Longrightarrow> I (final (runTask X t s))"
  by (cases t) (simp_all add: runTask_def I_runStart I_runStartTry I_quiet' [OF _ runDestroy_quiet])

lemma I_step:
  assumes "step X F y z" and I: "I (srv y)" and l: "links_ok y"
  shows "I (srv z)"
proof -
  have link: "a < snext (srv y)" if "(a, c) \<in> set (links y)" for a c using l that by (auto simp: links_ok_def)
  show ?thesis using assms(1)
  proof (cases rule: step.cases)
    case (connect uid c a sync t)
    then show ?thesis using I_HandleWS_open [OF I, of uid c] by simp
  next
    case (connect_parked uid c k t a)
    then show ?thesis using I_HandleWS_open [OF I, of uid c] by simp
  next
    case (message a c payload t)
    then show ?thesis using I_Dispatch [OF I link, of a c X F payload] by simp
  next
    case (message_panic a c payload t)
    then have "I t" using I_Dispatch [OF I link, of a c X F payload] by simp
    then show ?thesis using message_panic(1) I_HandleWS_close by (simp add: hangup_def split: prod.split) (metis snd_conv)
  next
    case (message_parked a c k payload t)
    then show ?thesis using I_Dispatch [OF I link, of a c X F payload] by simp
  next
    case (disconnect a c)
    then show ?thesis using I_HandleWS_close [OF I] by (simp add: hangup_def split: prod.split) (metis snd_conv)
  next
    case (pump a c ok m again t)
    then show ?thesis using I_quiet' [OF I pump_quiet] by simp
  next
    case (expire uid m)
    then show ?thesis using I_CleanUp [OF I] by simp
  next
    case (sync a m)
    then show ?thesis using I_SyncRoomState [OF I] by simp
  next
    case (background ts t us k s)
    then show ?thesis using I_runTask [OF I_tasks [OF I, of "ts @ us"], of X t] I_tasks by (simp add: resume_def)
  next
    case (background_stop ts t us c s)
    then show ?thesis using I_runTask [OF I_tasks [OF I, of "ts @ us"], of X t] by simp
  next
    case (match_turn m)
    then show ?thesis using I_matchTurn [OF I] by simp
  next
    case (health m)
    then show ?thesis using cb.J_healthTick [OF I] by simp
  next
    case (discovery m)
    then show ?thesis using cb.J_discoveryTick [OF I] by simp
  next
    case (reconnect_turn ls l ms k s)
    then show ?thesis using cb.J_attempt [OF I_loops [OF I, of "ls @ ms"], of X X l] I_loops by (simp add: reloop_def)
  next
    case (reconnect_stop ls l ms c s)
    then show ?thesis using cb.J_attempt [OF I_loops [OF I, of "ls @ ms"], of X X l] by simp
  qed
qed

end

section \<open>The invariant of the system\<close>

definition sys_ok :: "'w system \<Rightarrow> bool" where
  "sys_ok y \<longleftrightarrow> all_inv 0 (srv y) \<and> links_ok y"

lemma all_snext: "all_inv 0 s \<longleftrightarrow> all_inv (snext s) s"
  by (simp add: all_inv_def cap_inv_def occ_inv_def att_inv_def)

lemma all_mono: "all_inv k s \<Longrightarrow> k \<le> snext s \<and> all_inv 0 s"
  by (simp add: all_inv_def cap_inv_def occ_inv_def att_inv_def)

lemma all_engine:
  fixes s t :: "'w server"
  assumes "all_inv k s" "net.more t = net.more s" "engine_wf t"
  shows "all_inv k t"
  using assms unfolding all_inv_def
  using cap.I_engine_only occ.I_engine_only att.I_engine_only by blast

lemma all_quiet: "all_inv k s \<Longrightarrow> quiet s t \<Longrightarrow> all_inv k t"
  unfolding all_inv_def using cap.I_quiet' occ.I_quiet' att.I_quiet' by blast

lemma all_step: "step X F y z \<Longrightarrow> all_inv k (srv y) \<Longrightarrow> links_ok y \<Longrightarrow> all_inv k (srv z)"
  unfolding all_inv_def using cap.I_step occ.I_step att.I_step by blast

text \<open>A new link belongs to a session of the heap.\<close>

lemma open_session:
  assumes inv: "all_inv 0 s" and o: "HandleWS_open uid c s = Done (a, b) t" and mono: "snext s \<le> snext t"
  shows "a < snext t"
proof (cases "FindSession uid s")
  case None
  then show ?thesis using o by (auto simp: HandleWS_open_def Let_def RegisterSession_def)
next
  case (Some a')
  have "a = a'" using o Some by (auto simp: HandleWS_open_def Let_def split: if_splits dest!: andthen_Done)
  then show ?thesis using Some server_wfD(6) [of s uid a'] inv mono
    by (auto simp: FindSession_def all_inv_def cap_inv_def)
qed

lemma links_hangup: "set (links (hangup l y)) \<subseteq> set (links y)"
  by (auto simp: hangup_def split: prod.splits dest: set_remove1_subset [THEN subsetD])

lemma step_links:
  assumes s: "step X F y z" and inv: "all_inv 0 (srv y)" and mono: "snext (srv y) \<le> snext (srv z)"
  shows "set (links z) \<subseteq> set (links y) \<or> (\<exists>a c. links z = (a, c) # links y \<and> a < snext (srv z))"
  using s
proof (cases rule: step.cases)
  case (connect uid c a sync t)
  then show ?thesis using open_session [OF inv connect(6)] mono by simp
next
  case (message_panic a c payload t)
  then show ?thesis using links_hangup [of "(a, c)" "y\<lparr>srv := t\<rparr>"] by simp
next
  case (disconnect a c)
  then show ?thesis using links_hangup [of "(a, c)" y] by simp
qed (simp_all add: set_remove1_subset)

lemma step_sys_ok:
  assumes s: "step X F y z" and y: "sys_ok y" shows "sys_ok z"
proof -
  have inv: "all_inv 0 (srv y)" and l: "links_ok y" using y by (simp_all add: sys_ok_def)
  have "all_inv (snext (srv y)) (srv z)" using all_step [OF s _ l] inv all_snext by blast
  then have z: "all_inv 0 (srv z)" and mono: "snext (srv y) \<le> snext (srv z)" using all_mono by blast+
  have old: "fst x < snext (srv z)" if "x \<in> set (links y)" for x
    using l that mono by (auto simp: links_ok_def intro: less_le_trans)
  from step_links [OF s inv mono] have "links_ok z"
  proof
    assume "set (links z) \<subseteq> set (links y)"
    then show ?thesis using old by (auto simp: links_ok_def)
  next
    assume "\<exists>a c. links z = (a, c) # links y \<and> a < snext (srv z)"
    then show ?thesis using old by (auto simp: links_ok_def)
  qed
  with z show ?thesis by (simp add: sys_ok_def)
qed

end
