(* ===== verification/ServerProps.thy ===== *)
theory ServerProps
  imports Server
begin

text \<open>
  What holds of the whole program: of every state the running server can reach, of its only way to
  die by a panic, and of its shutdown.
\<close>

section \<open>The initial state\<close>

lemma NewRoomManager_inv: "engine_wf n \<Longrightarrow> all_inv 0 (NewRoomManager st True ttl n)"
  unfolding all_inv_def cap_inv_def occ_inv_def att_inv_def server_wf_def at_most_two_def no_empty_room_def
  by (simp add: NewRoomManager_def net.extend_def server.fields_def engine_wf_def getNode_def NewSession_def)

lemma world_NewRoomManager: "world (NewRoomManager st e ttl n) = world n"
  by (simp add: NewRoomManager_def net.extend_def)

lemma start_sys_ok:
  assumes "Mgr n = Mgr_init" and "restorable X (world (NewEngineInstance X n))"
  shows "sys_ok (startServer X ttl n)"
proof -
  let ?rm = "initRoomManager X ttl (NewEngineInstance X n)"
  have rm: "all_inv 0 ?rm" unfolding initRoomManager_def
    by (rule RestoreFromStore_invs [OF NewRoomManager_inv [OF engine_wf_New [OF assms(1)]]])
      (simp add: world_NewRoomManager assms(2))
  have "engine_wf (SetReassignRoomsFunc ?rm)" using rm
    by (simp add: all_inv_def cap_inv_def SetReassignRoomsFunc_def engine_wf_def getNode_def node_ok_def)
  then have "all_inv 0 (SetReassignRoomsFunc ?rm)" by (intro all_engine [OF rm]) (simp_all add: SetReassignRoomsFunc_def)
  then show ?thesis by (simp add: startServer_def sys_ok_def links_ok_def)
qed

lemma reachable_sys_ok:
  "reachable X F ttl n y \<Longrightarrow> Mgr n = Mgr_init \<Longrightarrow> restorable X (world (NewEngineInstance X n)) \<Longrightarrow> sys_ok y"
  by (induction rule: reachable.induct) (auto intro: start_sys_ok step_sys_ok)

section \<open>Reachable states\<close>




section \<open>Shutdown\<close>

lemma more_closeNode: "net.more (closeNode X i s) = net.more s"
  by (simp add: closeNode_def closeConn_def Let_def split: option.split)

definition halfClosed :: "('w, 'm) net_scheme \<Rightarrow> int set \<Rightarrow> ('w, 'm) net_scheme \<Rightarrow> bool" where
  "halfClosed s D t \<longleftrightarrow> nodes (eng t) = nodes (eng s) \<and> ring_wf (Mgr t)
     \<and> map_of (Nodes (Mgr t)) = (\<lambda>i. if i \<in> D then None else map_of (Nodes (Mgr s)) i)
     \<and> (\<forall>i a. getNode s i = Some a \<longrightarrow> nconn (nheap t a) = (if i \<in> D then None else nconn (nheap s a))
          \<and> nclient (nheap t a) = (if i \<in> D then None else nclient (nheap s a)))"

lemma halfClosed_close [simp]: "halfClosed s D (closeClient X c t) = halfClosed s D t"
  by (simp add: halfClosed_def)

lemma halfClosedD:
  assumes "halfClosed s D t"
  shows "nodes (eng t) = nodes (eng s)" "ring_wf (Mgr t)" "getNode t = getNode s"
    "map_of (Nodes (Mgr t)) = (\<lambda>i. if i \<in> D then None else map_of (Nodes (Mgr s)) i)"
    "getNode s i = Some a \<Longrightarrow> nconn (nheap t a) = (if i \<in> D then None else nconn (nheap s a))"
    "getNode s i = Some a \<Longrightarrow> nclient (nheap t a) = (if i \<in> D then None else nclient (nheap s a))"
  using assms unfolding halfClosed_def getNode_def by (blast | simp add: fun_eq_iff)+

lemma halfClosed_step:
  assumes wf: "engine_wf s" and t: "halfClosed s D t" and i: "i \<notin> D"
  shows "halfClosed s (insert i D) (closeNode X i t)"
proof (cases "getNode s i")
  case None
  then have none: "map_of (Nodes (Mgr s)) i = None" using engine_wf_mirror [OF wf, of i] by simp
  have "closeNode X i t = t" using None halfClosedD(3) [OF t] by (simp add: closeNode_def)
  moreover have "(if j \<in> insert i D then None else map_of (Nodes (Mgr s)) j) = (if j \<in> D then None else map_of (Nodes (Mgr s)) j)" for j
    using none by auto
  moreover have "j \<noteq> i" if "getNode s j = Some a" for j a using that None by auto
  ultimately show ?thesis using t unfolding halfClosed_def by simp
next
  case (Some a)
  obtain c where c: "nconn (nheap s a) = Some c" using engine_wf_node [OF wf Some] by (auto simp: node_ok_def isConnected_def)
  then have c': "nconn (nheap t a) = Some c" using halfClosedD(5) [OF t Some] i by simp
  let ?t = "upd_node a (\<lambda>_. fst (closeConn (nheap t a))) t\<lparr>Mgr := RemoveNode i (Mgr t)\<rparr>"
  have ring: "ring_wf (Mgr t)" by (fact halfClosedD(2) [OF t])
  have "halfClosed s (insert i D) ?t" unfolding halfClosed_def
  proof (intro conjI allI impI)
    show "nodes (eng ?t) = nodes (eng s)" using halfClosedD(1) [OF t] by simp
    show "ring_wf (Mgr ?t)" using ring_wf_Remove [OF ring] by simp
    show "map_of (Nodes (Mgr ?t)) = (\<lambda>j. if j \<in> insert i D then None else map_of (Nodes (Mgr s)) j)"
      using Remove_Nodes [OF ring] halfClosedD(4) [OF t] by (simp add: fun_eq_iff)
    fix j b assume j: "getNode s j = Some b"
    have "j = i" if "b = a" using engine_wf_inj [OF wf _ Some, of j] j that by simp
    moreover have "b = a" if "j = i" using Some j that by simp
    ultimately have "b = a \<longleftrightarrow> j = i" by blast
    then show "nconn (nheap ?t b) = (if j \<in> insert i D then None else nconn (nheap s b))"
      "nclient (nheap ?t b) = (if j \<in> insert i D then None else nclient (nheap s b))"
      using halfClosedD(5,6) [OF t j] by (simp_all add: closeConn_def)
  qed
  moreover have "closeNode X i t = closeClient X (Some c) ?t"
    using Some halfClosedD(3) [OF t] c' by (simp add: closeNode_def closeConn_def Let_def)
  ultimately show ?thesis by simp
qed

lemma halfClosed_fold:
  "engine_wf s \<Longrightarrow> halfClosed s D t \<Longrightarrow> distinct is' \<Longrightarrow> set is' \<inter> D = {} \<Longrightarrow>
   halfClosed s (D \<union> set is') (fold (closeNode X) is' t)"
proof (induction is' arbitrary: D t)
  case (Cons i is')
  from Cons.IH [OF Cons.prems(1) halfClosed_step [OF Cons.prems(1,2), of i X]] Cons.prems
  show ?case by simp
qed simp

lemma Shutdown_closes:
  assumes wf: "engine_wf s"
  shows "nodes (eng (Shutdown X s)) = [] \<and> Nodes (Mgr (Shutdown X s)) = [] \<and> net.more (Shutdown X s) = net.more s
    \<and> (\<forall>i a. getNode s i = Some a \<longrightarrow> nclient (nheap (Shutdown X s) a) = None)"
proof -
  let ?s1 = "s\<lparr>eng := (eng s)\<lparr>ctxDone := True\<rparr>\<rparr>" and ?is = "snapshotPodIndices s"
  let ?s2 = "fold (closeNode X) ?is ?s1"
  have all: "i \<in> set ?is \<longleftrightarrow> getNode s i \<noteq> None" for i
    by (auto simp: snapshotPodIndices_def am.set_keys getNode_def)
  have "halfClosed s {} ?s1" using engine_wf_ring [OF wf] by (simp add: halfClosed_def)
  moreover have "distinct ?is" using engine_wf_ok [OF wf] by (simp add: snapshotPodIndices_def am.distinct_keys)
  ultimately have h: "halfClosed s (set ?is) ?s2" using halfClosed_fold [OF wf, of "{}" ?s1 ?is X] by simp
  have "map_of (Nodes (Mgr ?s2)) = Map.empty"
    using h engine_wf_mirror [OF wf] by (auto simp: halfClosed_def fun_eq_iff all)
  then have "Nodes (Mgr ?s2) = []" by simp
  moreover have "net.more ?s2 = net.more s" by (simp add: more_fold more_closeNode)
  moreover have "nclient (nheap ?s2 a) = None" if "getNode s i = Some a" for i a
    using h that all by (auto simp: halfClosed_def)
  ultimately show ?thesis by (simp add: Shutdown_def Let_def snapshotPodIndices_def)
qed

definition destroyTasks :: "'w server \<Rightarrow> (string \<times> int) list \<Rightarrow> task list" where
  "destroyTasks s es = concat (List.map (\<lambda>e. case getNode s (snd e) of None \<Rightarrow> [] | Some na \<Rightarrow> [TDestroy na (fst e)]) es)"

lemma sendDestroy_fold:
  "rmEngine s \<Longrightarrow> fold (\<lambda>e. sendDestroyRoomRequest (fst e) (snd e)) es s = s\<lparr>tasks := tasks s @ destroyTasks s es\<rparr>"
proof (induction es arbitrary: s)
  case (Cons e es)
  let ?s = "sendDestroyRoomRequest (fst e) (snd e) s"
  have s: "?s = s\<lparr>tasks := tasks s @ destroyTasks s [e]\<rparr>"
    using Cons.prems by (auto simp: sendDestroyRoomRequest_def GetNodeByPodIndex_def destroyTasks_def split: option.split)
  then have "destroyTasks ?s es = destroyTasks s es" "rmEngine ?s" using Cons.prems by (simp_all add: destroyTasks_def getNode_def)
  with Cons.IH [of ?s] s show ?case by (simp add: destroyTasks_def)
qed (simp add: destroyTasks_def)


end
