(* ===== verification/Lobby.thy ===== *)
theory Lobby
  imports ServerProps
begin

text \<open>
  What the game server promises its players, without sessions, messages, nodes or goroutines: a
  lobby of rooms, each with its members, those of them that are ready, and a phase. Every turn of
  every goroutine of the server is shown to be a sequence of lobby steps; what holds of the lobby
  then holds of the server.
\<close>

section \<open>The abstract lobby\<close>

datatype phase = Waiting | Playing | Finished

text \<open>The phases are ordered as the status numbers of the code are.\<close>

instantiation phase :: linorder
begin

definition less_eq_phase :: "phase \<Rightarrow> phase \<Rightarrow> bool" where
  "less_eq_phase a b \<longleftrightarrow> a = Waiting \<or> b = Finished \<or> a = b"

definition less_phase :: "phase \<Rightarrow> phase \<Rightarrow> bool" where
  "less_phase a b \<longleftrightarrow> a \<le> b \<and> a \<noteq> b"

instance
proof
  fix a b c :: phase
  show "a < b \<longleftrightarrow> a \<le> b \<and> \<not> b \<le> a" "a \<le> a" "a \<le> b \<or> b \<le> a"
    by (cases a; cases b; simp add: less_eq_phase_def less_phase_def)+
  show "a \<le> b \<Longrightarrow> b \<le> c \<Longrightarrow> a \<le> c" "a \<le> b \<Longrightarrow> b \<le> a \<Longrightarrow> a = b"
    by (cases a; cases b; cases c; simp add: less_eq_phase_def)+
qed

end

record lroom =
  members :: "string set"
  ready :: "string set"
  phase :: phase

type_synonym lobby = "string \<Rightarrow> lroom option"

definition take_leave :: "string \<Rightarrow> lroom \<Rightarrow> lroom" where
  "take_leave p R = R\<lparr>members := members R - {p}, ready := ready R - {p},
     phase := (if phase R = Playing then Finished else phase R)\<rparr>"

inductive lobby_step :: "lobby \<Rightarrow> lobby \<Rightarrow> bool" where
  lopen: "L i = None \<Longrightarrow> lobby_step L (L(i \<mapsto> \<lparr>members = {p}, ready = {}, phase = Waiting\<rparr>))"
| lenter: "L i = Some R \<Longrightarrow> phase R = Waiting \<Longrightarrow> p \<notin> members R \<Longrightarrow> card (members R) < 2 \<Longrightarrow>
    lobby_step L (L(i \<mapsto> R\<lparr>members := insert p (members R)\<rparr>))"
| lready: "L i = Some R \<Longrightarrow> phase R = Waiting \<Longrightarrow> p \<in> members R \<Longrightarrow>
    lobby_step L (L(i \<mapsto> R\<lparr>ready := insert p (ready R)\<rparr>))"
| lstart: "L i = Some R \<Longrightarrow> phase R = Waiting \<Longrightarrow> card (members R) = 2 \<Longrightarrow>
    lobby_step L (L(i \<mapsto> R\<lparr>phase := Playing\<rparr>))"
| lreopen: "L i = Some R \<Longrightarrow> lobby_step L (L(i \<mapsto> R\<lparr>phase := Waiting\<rparr>))"
| lleave: "L i = Some R \<Longrightarrow> \<not> members R \<subseteq> {p} \<Longrightarrow> lobby_step L (L(i \<mapsto> take_leave p R))"
| lclose: "L i = Some R \<Longrightarrow> members R \<subseteq> {p} \<Longrightarrow> lobby_step L (L(i := None))"

text \<open>Its invariant.\<close>

definition lroom_ok :: "lroom \<Rightarrow> bool" where
  "lroom_ok R \<longleftrightarrow> finite (members R) \<and> members R \<noteq> {} \<and> card (members R) \<le> 2 \<and> ready R \<subseteq> members R
     \<and> (phase R = Playing \<longrightarrow> card (members R) = 2)"

definition lobby_ok :: "lobby \<Rightarrow> bool" where
  "lobby_ok L \<longleftrightarrow> (\<forall>i R. L i = Some R \<longrightarrow> lroom_ok R)"

lemma lobby_ok_upd: "lobby_ok L \<Longrightarrow> lroom_ok R \<Longrightarrow> lobby_ok (L(i \<mapsto> R))"
  and lobby_ok_del: "lobby_ok L \<Longrightarrow> lobby_ok (L(i := None))"
  by (simp_all add: lobby_ok_def)

lemma lobby_okD: "lobby_ok L \<Longrightarrow> L i = Some R \<Longrightarrow> lroom_ok R"
  by (simp add: lobby_ok_def)

lemma take_leave_ok:
  assumes "lroom_ok R" "\<not> members R \<subseteq> {p}" shows "lroom_ok (take_leave p R)"
proof -
  have "card (members R - {p}) \<le> card (members R)" using assms(1) by (auto simp: lroom_ok_def intro: card_mono)
  with assms show ?thesis by (auto simp: lroom_ok_def take_leave_def)
qed

lemma lobby_step_ok: "lobby_step L M \<Longrightarrow> lobby_ok L \<Longrightarrow> lobby_ok M"
proof (induction rule: lobby_step.induct)
  case (lleave L i R p)
  then show ?case using take_leave_ok lobby_ok_upd lobby_okD by blast
qed (auto simp: lobby_ok_def lroom_ok_def split: if_splits)

lemma lobby_steps_ok: "lobby_step\<^sup>*\<^sup>* L M \<Longrightarrow> lobby_ok L \<Longrightarrow> lobby_ok M"
  by (induction rule: rtranclp_induct) (auto intro: lobby_step_ok)

text \<open>A room that stays in the lobby goes forward through its phases, unless it is opened again;
  and while its game runs nobody enters it.\<close>

inductive_cases lobby_stepE: "lobby_step L M"

lemma lobby_step_phase:
  assumes "lobby_step L M" "L i = Some R" "M i = Some S"
  shows "phase R \<le> phase S \<or> phase S = Waiting"
  using assms by (elim lobby_stepE) (auto simp: less_eq_phase_def take_leave_def split: if_splits)

lemma lobby_step_closed:
  assumes "lobby_step L M" "L i = Some R" "phase R \<noteq> Waiting" "M i = Some S"
  shows "members S \<subseteq> members R"
  using assms by (elim lobby_stepE) (auto simp: take_leave_def split: if_splits)

section \<open>The lobby of a server\<close>

definition phase_of :: "int \<Rightarrow> phase" where
  "phase_of st = (if st = RoomWaiting then Waiting else if st = RoomPlaying then Playing else Finished)"

definition view :: "GameRoom \<Rightarrow> lroom" where
  "view g = \<lparr>members = dom (map_of (rSessions g)), ready = {p. map_of (rReadyPlayers g) p = Some True},
     phase = phase_of (rStatus g)\<rparr>"

definition lobby :: "'w server \<Rightarrow> lobby" where
  "lobby s = (\<lambda>i. map_option (\<lambda>r. view (rheap s r)) (map_of (Rooms s) i))"

lemma phase_of_simps [simp]:
  "phase_of RoomWaiting = Waiting" "phase_of RoomPlaying = Playing" "phase_of RoomFinished = Finished"
  "phase_of st = Waiting \<longleftrightarrow> st = RoomWaiting" "phase_of st = Playing \<longleftrightarrow> st = RoomPlaying"
  by (simp_all add: phase_of_def status_defs)

lemma phase_of_mono: "st \<in> {0, 1, 2} \<Longrightarrow> st' \<in> {0, 1, 2} \<Longrightarrow> phase_of st \<le> phase_of st' \<longleftrightarrow> st \<le> st'"
  by (auto simp: phase_of_def status_defs less_eq_phase_def)

lemma view_simps [simp]:
  "members (view g) = dom (map_of (rSessions g))" "phase (view g) = phase_of (rStatus g)"
  "ready (view g) = {p. map_of (rReadyPlayers g) p = Some True}"
  "view (g\<lparr>rStatus := st\<rparr>) = (view g)\<lparr>phase := phase_of st\<rparr>" "view (g\<lparr>rNodeID := n\<rparr>) = view g"
  "view (g\<lparr>rReadyPlayers := AList.update p True (rReadyPlayers g)\<rparr>) = (view g)\<lparr>ready := insert p (ready (view g))\<rparr>"
  "view (new_room i e) = \<lparr>members = {}, ready = {}, phase = Waiting\<rparr>"
  by (auto simp: view_def new_room_def)

lemma view_without:
  assumes "map_ok (rSessions g)" "map_ok (rReadyPlayers g)"
  shows "view (without p g) = (view g)\<lparr>members := members (view g) - {p}, ready := ready (view g) - {p}\<rparr>"
  using assms by (auto simp: view_def without_def dom_def split: if_splits)

lemma card_members: "map_ok (rSessions g) \<Longrightarrow> card (members (view g)) = length (rSessions g)"
  using am.length_keys [of "rSessions g"] by simp

lemma lobby_some: "map_of (Rooms s) i = Some r \<Longrightarrow> lobby s i = Some (view (rheap s r))"
  by (simp add: lobby_def)

lemma lobby_same_rooms: "same_rooms s t \<Longrightarrow> lobby t = lobby s"
  by (simp add: lobby_def same_rooms_def)

lemma lobby_upds [simp]:
  "lobby (add_session n s) = lobby s" "lobby (RegisterSession u a s) = lobby s"
  "lobby (s\<lparr>AllSessions := m\<rparr>) = lobby s" "lobby (s\<lparr>MatchQueue := q\<rparr>) = lobby s"
  by (simp_all add: lobby_def add_session_def RegisterSession_def)

lemma lobby_changed:
  assumes "\<And>j. j \<noteq> i \<Longrightarrow> map_of (Rooms t) j = map_of (Rooms s) j"
    and "\<And>j r. j \<noteq> i \<Longrightarrow> map_of (Rooms s) j = Some r \<Longrightarrow> rheap t r = rheap s r"
    and "lobby t i = x"
  shows "lobby t = (lobby s)(i := x)"
proof (rule ext)
  fix j show "lobby t j = ((lobby s)(i := x)) j"
    using assms by (cases "j = i"; cases "map_of (Rooms s) j") (simp_all add: lobby_def)
qed

lemma Rooms_other:
  "server_wf s \<Longrightarrow> map_of (Rooms s) i = Some r \<Longrightarrow> j \<noteq> i \<Longrightarrow> map_of (Rooms s) j = Some q \<Longrightarrow> q \<noteq> r"
  using Rooms_inj by blast

lemma lobby_room:
  assumes "server_wf s" "map_of (Rooms s) i = Some r"
  shows "lobby (upd_room r f s) = (lobby s)(i \<mapsto> view (f (rheap s r)))"
proof (rule lobby_changed)
  show "rheap (upd_room r f s) q = rheap s q" if "j \<noteq> i" "map_of (Rooms s) j = Some q" for j q
    using Rooms_other [OF assms that] by simp
qed (use assms in \<open>simp_all add: lobby_def\<close>)

lemma lobby_detached: "r \<notin> ran (map_of (Rooms s)) \<Longrightarrow> lobby (upd_room r f s) = lobby s"
  by (auto simp: lobby_def fun_eq_iff ran_def intro!: option.map_cong)

lemma lobby_upd_room:
  assumes wf: "server_wf s"
    and step: "\<And>i. map_of (Rooms s) i = Some r \<Longrightarrow> lobby s i = Some (view (rheap s r))
      \<Longrightarrow> lobby_step\<^sup>*\<^sup>* (lobby s) ((lobby s)(i \<mapsto> view (f (rheap s r))))"
  shows "lobby_step\<^sup>*\<^sup>* (lobby s) (lobby (upd_room r f s))"
proof (cases "r \<in> ran (map_of (Rooms s))")
  case True
  then obtain i where i: "map_of (Rooms s) i = Some r" by (auto simp: ran_def)
  show ?thesis using step [OF i lobby_some [OF i]] by (simp add: lobby_room [OF wf i])
qed (simp add: lobby_detached)

lemma lobby_enter:
  assumes wf: "server_wf s" and i: "map_of (Rooms s) i = Some r" and p: "map_of (rSessions (rheap s r)) (pid s a) = None"
  shows "lobby (enterRoom r i a s) =
    (lobby s)(i \<mapsto> (view (rheap s r))\<lparr>members := insert (pid s a) (members (view (rheap s r)))\<rparr>)"
proof (rule lobby_changed)
  have "pid s a \<notin> dom (map_of (rReadyPlayers (rheap s r)))"
    using room_okD(3) [OF server_wf_room [OF wf i]] p by (simp add: domIff)
  then have "view ((rheap s r)\<lparr>rSessions := AList.update (pid s a) a (rSessions (rheap s r)),
       rReadyPlayers := AList.update (pid s a) False (rReadyPlayers (rheap s r))\<rparr>)
     = (view (rheap s r))\<lparr>members := insert (pid s a) (members (view (rheap s r)))\<rparr>"
    by (auto simp: view_def)
  then show "lobby (enterRoom r i a s) i = Some ((view (rheap s r))\<lparr>members := insert (pid s a) (members (view (rheap s r)))\<rparr>)"
    using i by (simp add: enterRoom_def Let_def lobby_def)
  show "rheap (enterRoom r i a s) q = rheap s q" if "j \<noteq> i" "map_of (Rooms s) j = Some q" for j q
    using Rooms_other [OF wf i that] by (simp add: enterRoom_def Let_def)
qed (simp add: enterRoom_def Let_def)

lemma lobby_open:
  assumes wf: "server_wf s" and i: "map_of (Rooms s) i = None"
  shows "lobby (enterRoom (rnext s) i a (add_room i s)) =
    (lobby s)(i \<mapsto> \<lparr>members = {pid s a}, ready = {}, phase = Waiting\<rparr>)"
proof (rule lobby_changed)
  show "lobby (enterRoom (rnext s) i a (add_room i s)) i = Some \<lparr>members = {pid s a}, ready = {}, phase = Waiting\<rparr>"
    by (simp add: lobby_def enterRoom_def add_room_def new_room_def Let_def view_def pid_def)
  show "rheap (enterRoom (rnext s) i a (add_room i s)) r = rheap s r" if "map_of (Rooms s) j = Some r" for j r
    using server_wfD(3) [OF wf that] by (simp add: enterRoom_def add_room_def Let_def)
qed (simp add: enterRoom_def add_room_def Let_def)

lemma lobby_close:
  assumes wf: "server_wf s" and i: "map_of (Rooms s) i = Some r"
  shows "lobby (forgetRoom i (upd_room r f s)) = (lobby s)(i := None)"
proof (rule lobby_changed)
  show "rheap (forgetRoom i (upd_room r f s)) q = rheap s q" if "j \<noteq> i" "map_of (Rooms s) j = Some q" for j q
    using Rooms_other [OF wf i that] by (simp add: forgetRoom_def)
qed (use server_wfD(1) [OF wf] in \<open>simp_all add: lobby_def forgetRoom_def\<close>)

section \<open>Every turn of the server is a sequence of lobby steps\<close>

definition sim_inv :: "lobby \<Rightarrow> 'w server \<Rightarrow> bool" where
  "sim_inv L s \<longleftrightarrow> cap_inv 0 s \<and> lobby_step\<^sup>*\<^sup>* L (lobby s)"

lemma sim_invI: "sim_inv L s \<Longrightarrow> cap_inv 0 t \<Longrightarrow> lobby_step\<^sup>*\<^sup>* (lobby s) (lobby t) \<Longrightarrow> sim_inv L t"
  unfolding sim_inv_def by (blast intro: rtranclp_trans)

lemma sim_inv_step: "sim_inv L s \<Longrightarrow> cap_inv 0 t \<Longrightarrow> lobby_step (lobby s) (lobby t) \<Longrightarrow> sim_inv L t"
  by (blast intro: sim_invI)

lemma sim_invD:
  assumes "sim_inv L s" shows "cap_inv 0 s" "server_wf s" "engine_wf s"
    "map_of (Rooms s) i = Some r \<Longrightarrow> map_ok (rSessions (rheap s r)) \<and> map_ok (rReadyPlayers (rheap s r))"
    "map_of (Rooms s) i = Some r \<Longrightarrow> length (rSessions (rheap s r)) \<le> 2"
proof -
  show cap: "cap_inv 0 s" and wf: "server_wf s" "engine_wf s" using assms by (simp_all add: sim_inv_def cap_inv_def)
  show "map_ok (rSessions (rheap s r)) \<and> map_ok (rReadyPlayers (rheap s r))" "length (rSessions (rheap s r)) \<le> 2"
    if "map_of (Rooms s) i = Some r"
    using room_okD(1,2) [OF server_wf_room [OF wf(1) that]] cap server_wfD(3) [OF wf(1) that]
    by (simp_all add: cap_inv_def at_most_two_def MaxPlayersPerRoom_def)
qed

lemma sim_room:
  assumes "sim_inv L s" "cap_inv 0 (upd_room r f s)"
    and "\<And>i. map_of (Rooms s) i = Some r \<Longrightarrow> lobby s i = Some (view (rheap s r))
      \<Longrightarrow> view (f (rheap s r)) = view (rheap s r) \<or> lobby_step (lobby s) ((lobby s)(i \<mapsto> view (f (rheap s r))))"
  shows "sim_inv L (upd_room r f s)"
proof (rule sim_invI [OF assms(1,2)], rule lobby_upd_room [OF sim_invD(2) [OF assms(1)]])
  fix i assume i: "map_of (Rooms s) i = Some r" "lobby s i = Some (view (rheap s r))"
  show "lobby_step\<^sup>*\<^sup>* (lobby s) ((lobby s)(i \<mapsto> view (f (rheap s r))))"
    using assms(3) [OF i]
  proof
    assume "view (f (rheap s r)) = view (rheap s r)"
    then have "(lobby s)(i \<mapsto> view (f (rheap s r))) = lobby s" using i(2) by (simp add: fun_upd_idem)
    then show ?thesis by simp
  qed (rule r_into_rtranclp)
qed

lemma sim_ready:
  assumes "sim_inv L s" "r < rnext s" "rStatus (rheap s r) = RoomWaiting" "map_of (rSessions (rheap s r)) p \<noteq> None"
  shows "sim_inv L (upd_room r (\<lambda>g. g\<lparr>rReadyPlayers := AList.update p True (rReadyPlayers g)\<rparr>) s)"
proof (rule sim_room [OF assms(1) cap.I_ready [OF sim_invD(1) [OF assms(1)] assms(2-4)]], rule disjI2)
  fix i assume "lobby s i = Some (view (rheap s r))"
  then show "lobby_step (lobby s)
      ((lobby s)(i \<mapsto> view ((rheap s r)\<lparr>rReadyPlayers := AList.update p True (rReadyPlayers (rheap s r))\<rparr>)))"
    unfolding view_simps(6) by (rule lready) (use assms(3,4) in \<open>simp_all add: domIff\<close>)
qed

lemma sim_start:
  assumes I: "sim_inv L s" and w: "rStatus (rheap s r) = RoomWaiting" and two: "2 \<le> length (rSessions (rheap s r))"
  shows "sim_inv L (upd_room r (\<lambda>g. g\<lparr>rStatus := RoomPlaying\<rparr>) s)"
proof (rule sim_room [OF I cap.I_start [OF sim_invD(1) [OF I] w two]], rule disjI2)
  fix i assume i: "map_of (Rooms s) i = Some r" "lobby s i = Some (view (rheap s r))"
  have "card (members (view (rheap s r))) = 2"
    using sim_invD(4,5) [OF I i(1)] two by (simp add: card_members del: view_simps(1))
  then show "lobby_step (lobby s) ((lobby s)(i \<mapsto> view ((rheap s r)\<lparr>rStatus := RoomPlaying\<rparr>)))"
    unfolding view_simps(4) phase_of_simps(2) using i(2) w by (intro lstart) simp_all
qed

lemma sim_reopen:
  assumes "sim_inv L s" shows "sim_inv L (upd_room r (\<lambda>g. g\<lparr>rStatus := RoomWaiting\<rparr>) s)"
  by (rule sim_room [OF assms cap.I_reopen [OF sim_invD(1) [OF assms]]], rule disjI2)
    (simp only: view_simps(4) phase_of_simps(1), rule lreopen)

lemma sim_enter:
  assumes I: "sim_inv L s" and a: "a < snext s" and i: "map_of (Rooms s) i = Some r" and w: "rStatus (rheap s r) = RoomWaiting"
    and p: "map_of (rSessions (rheap s r)) (pid s a) = None" and room: "length (rSessions (rheap s r)) < MaxPlayersPerRoom"
  shows "sim_inv L (enterRoom r i a s)"
proof (rule sim_inv_step [OF I cap.I_enter [OF sim_invD(1) [OF I] a i w p room]])
  have "card (members (view (rheap s r))) < 2"
    using sim_invD(4) [OF I i] room by (simp add: card_members MaxPlayersPerRoom_def del: view_simps(1))
  then show "lobby_step (lobby s) (lobby (enterRoom r i a s))"
    unfolding lobby_enter [OF sim_invD(2) [OF I] i p] using p w
    by (intro lenter lobby_some [OF i]) (simp_all add: domIff)
qed

lemma sim_open:
  assumes I: "sim_inv L s" and i: "map_of (Rooms s) i = None" and a: "a < snext s"
  shows "sim_inv L (enterRoom (rnext s) i a (add_room i s))"
  by (rule sim_inv_step [OF I cap.I_open [OF sim_invD(1) [OF I] i a]])
    (simp only: lobby_open [OF sim_invD(2) [OF I] i], rule lopen, simp add: lobby_def i)

lemma without_empty_iff:
  assumes "sim_inv L s" "map_of (Rooms s) i = Some r"
  shows "rSessions (without p (rheap s r)) = [] \<longleftrightarrow> members (view (rheap s r)) \<subseteq> {p}"
proof -
  have v: "view (without p (rheap s r)) = (view (rheap s r))\<lparr>members := members (view (rheap s r)) - {p}, ready := ready (view (rheap s r)) - {p}\<rparr>"
    using sim_invD(4) [OF assms] view_without by blast
  have "rSessions (without p (rheap s r)) = [] \<longleftrightarrow> members (view (without p (rheap s r))) = {}"
    using map_of_None_Nil [of "rSessions (without p (rheap s r))"] by simp
  then show ?thesis unfolding v by auto
qed

lemma sim_leave:
  assumes I: "sim_inv L s" and i: "map_of (Rooms s) i = Some r" and ne: "rSessions (without p (rheap s r)) \<noteq> []"
    and v: "view g = take_leave p (view (rheap s r))" and t: "cap_inv 0 (upd_room r (\<lambda>_. g) s)"
  shows "sim_inv L (upd_room r (\<lambda>_. g) s)"
proof (rule sim_inv_step [OF I t])
  show "lobby_step (lobby s) (lobby (upd_room r (\<lambda>_. g) s))"
    unfolding lobby_room [OF sim_invD(2) [OF I] i] v
    using ne without_empty_iff [OF I i] by (intro lleave lobby_some [OF i]) simp
qed

lemma sim_close:
  assumes I: "sim_inv L s" and i: "map_of (Rooms s) i = Some r" and e: "rSessions (without p (rheap s r)) = []"
  shows "sim_inv L (forgetRoom i (upd_room r (without p) s))"
proof (rule sim_inv_step [OF I cap.I_close [OF sim_invD(1) [OF I] i e]])
  show "lobby_step (lobby s) (lobby (forgetRoom i (upd_room r (without p) s)))"
    unfolding lobby_close [OF sim_invD(2) [OF I] i]
    by (rule lclose [of _ _ "view (rheap s r)"]) (use lobby_some [OF i] e without_empty_iff [OF I i] in blast)+
qed

interpretation sim: room_invariant "sim_inv L" for L
proof unfold_locales
  fix s t :: "'a server" and a r i p n u nid
  assume I: "sim_inv L s"
  note cap = sim_invD(1) [OF I] and wf = sim_invD(2) [OF I]
  have const: "upd_room r f s = upd_room r (\<lambda>_. f (rheap s r)) s" for r f by (simp add: upd_room_def)
  show "server_wf s" "engine_wf s" by (fact wf sim_invD(3) [OF I])+
  show "sim_inv L t" if "same_rooms s t" "engine_wf t"
    by (rule sim_invI [OF I cap.I_quiet [OF cap that]]) (simp add: lobby_same_rooms [OF that(1)])
  show "sim_inv L (upd_room r (\<lambda>g. g\<lparr>rNodeID := nid\<rparr>) s)"
    by (rule sim_room [OF I cap.I_node [OF cap]]) simp
  show "sim_inv L (upd_room r (without p) s)"
    if i: "map_of (Rooms s) i = Some r" and "rSessions (without p (rheap s r)) \<noteq> []" "rStatus (rheap s r) \<noteq> RoomPlaying"
    using sim_leave [OF I that(1,2), of "without p (rheap s r)"] cap.I_stay [OF cap that] sim_invD(4) [OF I i] that(3)
    by (simp add: const [of r "without p"] view_without take_leave_def del: view_simps(1,3))
  show "sim_inv L (upd_room r (\<lambda>g. (without p g)\<lparr>rStatus := RoomFinished\<rparr>) s)"
    if i: "map_of (Rooms s) i = Some r" and "rSessions (without p (rheap s r)) \<noteq> []" "rStatus (rheap s r) = RoomPlaying"
    using sim_leave [OF I that(1,2), of "(without p (rheap s r))\<lparr>rStatus := RoomFinished\<rparr>"] cap.I_stop [OF cap that]
      sim_invD(4) [OF I i] that(3)
    by (simp add: const [of r "\<lambda>g. (without p g)\<lparr>rStatus := RoomFinished\<rparr>"] view_without take_leave_def del: view_simps(1,3))
  show "sim_inv L (add_session n s)" if "sSend n = []"
    by (rule sim_invI [OF I cap.I_session [OF cap that]]) simp
  show "sim_inv L (RegisterSession u a s)" if "a < snext s" "pid s a = u"
    by (rule sim_invI [OF I cap.I_register [OF cap that]]) simp
  show "sim_inv L (s\<lparr>AllSessions := AList.delete u (AllSessions s)\<rparr>)"
    by (rule sim_invI [OF I cap.I_unregister [OF cap]]) simp
  show "sim_inv L (s\<lparr>MatchQueue := MatchQueue s @ [a]\<rparr>)" if "a < snext s"
    by (rule sim_invI [OF I cap.I_push [OF cap that]]) simp
qed (fact sim_ready sim_start sim_reopen sim_enter sim_open sim_close)+

section \<open>What the lobby promises\<close>

lemma sys_ok_sim: "sys_ok y \<Longrightarrow> sim_inv (lobby (srv y)) (srv y)"
  by (simp add: sys_ok_def all_inv_def sim_inv_def)

lemma step_lobby: "step X F y z \<Longrightarrow> sys_ok y \<Longrightarrow> lobby_step\<^sup>*\<^sup>* (lobby (srv y)) (lobby (srv z))"
  using sim.I_step [of X F y z "lobby (srv y)"] sys_ok_sim [of y] by (simp add: sys_ok_def sim_inv_def)

lemma reachable_lobby:
  assumes "reachable X F ttl n y" and "Mgr n = Mgr_init" and "restorable X (world (NewEngineInstance X n))"
  shows "lobby_step\<^sup>*\<^sup>* (lobby (srv (startServer X ttl n))) (lobby (srv y))"
  using assms
proof (induction rule: reachable.induct)
  case (stepped y z)
  then show ?case using step_lobby reachable_sys_ok by (blast intro: rtranclp_trans)
qed simp



end
