(* ===== verification/Lifecycle.thy ===== *)
theory Lifecycle
  imports Membership
begin

text \<open>
  The end of a room: when its players have all gone offline and their retention timers have run
  out, in whatever order, the room and its sessions are gone, and nothing else is.
\<close>

text \<open>All players of the room are offline, and its sessions are the ones in the registry.\<close>

definition abandoned :: "string \<Rightarrow> nat \<Rightarrow> 'w server \<Rightarrow> bool" where
  "abandoned i r s \<longleftrightarrow> (\<forall>p a. map_of (rSessions (rheap s r)) p = Some a \<longrightarrow>
     map_of (AllSessions s) p = Some a \<and> sConn (sheap s a) = None \<and> sRoomID (sheap s a) = i)"

definition tidy :: "string \<Rightarrow> nat \<Rightarrow> 'w server \<Rightarrow> bool" where
  "tidy i r s \<longleftrightarrow> engine_wf s \<and> map_of (Rooms s) i = Some r \<and> map_ok (Rooms s) \<and> map_ok (AllSessions s)
     \<and> map_ok (rSessions (rheap s r)) \<and> (\<forall>p a. map_of (rSessions (rheap s r)) p = Some a \<longrightarrow> pid s a = p)"

lemma tidy_wf: "server_wf s \<Longrightarrow> engine_wf s \<Longrightarrow> map_of (Rooms s) i = Some r \<Longrightarrow> tidy i r s"
  using server_wfD(1,2) room_okD(1,5) [OF server_wf_room] by (fastforce simp: tidy_def)

lemma CleanUp_abandoned:
  assumes "abandoned i r s" "i \<noteq> []" "map_of (rSessions (rheap s r)) p = Some a"
  shows "CleanUpIfStillOffline X p s = LeaveRoom X i a (s\<lparr>AllSessions := AList.delete p (AllSessions s)\<rparr>)"
  using assms by (simp add: abandoned_def CleanUpIfStillOffline_def)

lemma tidy_leaves:
  assumes t: "tidy i r s" and ab: "abandoned i r s" and p: "map_of (rSessions (rheap s r)) p = Some a"
    and l: "leaves r a (s\<lparr>AllSessions := AList.delete p (AllSessions s)\<rparr>) u" "Rooms u = Rooms s" "engine_wf u"
  shows "tidy i r u" "abandoned i r u" "dom (map_of (rSessions (rheap u r))) = dom (map_of (rSessions (rheap s r))) - {p}"
proof -
  let ?m = "map_of (rSessions (rheap s r))"
  have pid: "pid s b = q" if "?m q = Some b" for q b using t that by (simp add: tidy_def)
  have ok: "map_ok (rSessions (rheap s r))" "map_ok (AllSessions s)" using t by (simp_all add: tidy_def)
  have rs: "rSessions (rheap u r) = AList.delete p (rSessions (rheap s r))"
    using l(1) pid [OF p] by (simp add: leaves_def without_def pid_def)
  then have m: "map_of (rSessions (rheap u r)) = ?m(p := None)" using ok(1) by simp
  have all: "AllSessions u = AList.delete p (AllSessions s)" using l(1) by (simp add: leaves_def)
  have sess: "pid u b = pid s b" "sConn (sheap u b) = sConn (sheap s b)" "b \<noteq> a \<Longrightarrow> sRoomID (sheap u b) = sRoomID (sheap s b)" for b
    using l(1) by (simp_all add: leaves_def pid_def)
  show "tidy i r u" using t l(2,3) rs m all sess(1) by (auto simp: tidy_def split: if_splits)
  have "b \<noteq> a" if "?m q = Some b" "q \<noteq> p" for q b using that pid p by blast
  then show "abandoned i r u" using ab ok(2) m all sess(2,3) by (auto simp: abandoned_def split: if_splits)
  show "dom (map_of (rSessions (rheap u r))) = dom ?m - {p}" by (simp add: m)
qed

lemma expire_all:
  assumes "tidy i r s" "abandoned i r s" "i \<noteq> []" "distinct ps" "set ps = dom (map_of (rSessions (rheap s r)))" "ps \<noteq> []"
  shows "\<exists>t. foreach ps (CleanUpIfStillOffline X) s = Done () t \<and> map_of (Rooms t) = (map_of (Rooms s))(i := None)
    \<and> map_of (AllSessions t) = (\<lambda>p. if p \<in> set ps then None else map_of (AllSessions s) p)"
  using assms
proof (induction ps arbitrary: s)
  case (Cons p ps)
  have "p \<in> dom (map_of (rSessions (rheap s r)))" using Cons.prems(5) by auto
  then obtain a where a: "map_of (rSessions (rheap s r)) p = Some a" by auto
  let ?s = "s\<lparr>AllSessions := AList.delete p (AllSessions s)\<rparr>"
  have t: "engine_wf ?s" "map_of (Rooms ?s) i = Some r" "map_ok (Rooms ?s)" "map_ok (rSessions (rheap s r))"
    "map_ok (AllSessions s)" "pid ?s a = p"
    using Cons.prems(1) a by (simp_all add: tidy_def pid_def)
  note clean = CleanUp_abandoned [OF Cons.prems(2,3) a, of X]
  have "rSessions (without (pid ?s a) (rheap ?s r)) = [] \<longleftrightarrow> dom (map_of (rSessions (rheap s r))) \<subseteq> {p}"
    by (simp add: t(6) last_iff [OF t(4)])
  also have "\<dots> \<longleftrightarrow> ps = []"
    unfolding Cons.prems(5) [symmetric] using Cons.prems(4) by (cases ps) auto
  finally have empty: "rSessions (without (pid ?s a) (rheap ?s r)) = [] \<longleftrightarrow> ps = []" .
  show ?case
  proof (cases "ps = []")
    case True
    then obtain u where u: "LeaveRoom X i a ?s = Done () u" "Rooms u = AList.delete i (Rooms s)" "leaves r a ?s u"
      using LeaveRoom_last [OF t(1-3), of a X] empty by auto
    then show ?thesis using clean True t(3,5) by (simp add: leaves_def fun_eq_iff)
  next
    case False
    then obtain u where u: "LeaveRoom X i a ?s = Done () u" "Rooms u = Rooms s" "leaves r a ?s u" "engine_wf u"
      using LeaveRoom_stays [OF t(1,2), of a X] empty by auto
    note next_state = tidy_leaves [OF Cons.prems(1,2) a u(3,2,4)]
    have "set ps = dom (map_of (rSessions (rheap u r)))" using next_state(3) Cons.prems(4,5) by auto
    moreover have "distinct ps" using Cons.prems(4) by simp
    ultimately obtain t' where "foreach ps (CleanUpIfStillOffline X) u = Done () t'"
      "map_of (Rooms t') = (map_of (Rooms u))(i := None)"
      "map_of (AllSessions t') = (\<lambda>q. if q \<in> set ps then None else map_of (AllSessions u) q)"
      using Cons.IH [OF next_state(1,2) Cons.prems(3) _ _ False] by blast
    then show ?thesis using clean u(1-3) t(5) by (auto simp: leaves_def fun_eq_iff)
  qed
qed simp

text \<open>C27: An abandoned room is destroyed. When every player of a room is offline and the retention
  timers of the players run out one after the other, in any order, each clean-up returns, and in
  the end the room has left the table and its players the registry, whatever the engine answers;
  no other room and no other player is lost.\<close>

theorem abandoned_room_is_destroyed:
  assumes "server_wf s" and "engine_wf s" and "no_empty_room s" and "map_of (Rooms s) i = Some r" and "i \<noteq> []"
    and "abandoned i r s"
    and "distinct ps" and "set ps = dom (map_of (rSessions (rheap s r)))"
  shows "\<exists>t. foreach ps (CleanUpIfStillOffline X) s = Done () t
    \<and> map_of (Rooms t) = (map_of (Rooms s))(i := None)
    \<and> map_of (AllSessions t) = (\<lambda>p. if p \<in> set ps then None else map_of (AllSessions s) p)"
proof (rule expire_all [OF tidy_wf [OF assms(1,2,4)] assms(6,5,7,8)])
  have "rSessions (rheap s r) \<noteq> []" using assms(3,4) by (simp add: no_empty_room_def)
  then show "ps \<noteq> []" using assms(8) by (cases "rSessions (rheap s r)") auto
qed

end
