(* ===== verification/Answers.thy ===== *)
theory Answers
  imports HandlerProps "HOL-Library.Sublist"
begin

text \<open>
  What a client hears: the channel of a session only grows while a handler runs, and every command
  that is handled to its end is answered under its own name. Only the match worker, the launch of
  a game and the write pump touch the channels besides.
\<close>

section \<open>Growing channels\<close>

definition grows :: "nat \<Rightarrow> 'w server \<Rightarrow> 'w server \<Rightarrow> bool" where
  "grows a s t \<longleftrightarrow> prefix (sSend (sheap s a)) (sSend (sheap t a))"

lemma grows_refl [simp, intro]: "grows a s s"
  by (simp add: grows_def)

lemma grows_trans: "grows a s t \<Longrightarrow> grows a t u \<Longrightarrow> grows a s u"
  unfolding grows_def by (rule prefix_order.trans)

lemma grows_same: "sSend (sheap t a) = sSend (sheap s a) \<Longrightarrow> grows a s t"
  by (simp add: grows_def)

lemma grows_upd_sess: "(\<And>n. prefix (sSend n) (sSend (f n))) \<Longrightarrow> grows a s (upd_sess b f s)"
  by (simp add: grows_def)

lemma grows_Broadcast: "grows a s (BroadcastToRoom r c k m d s)"
proof -
  have "grows a s (fold (\<lambda>e. upd_sess (snd e) (offer M)) es s)" for es M
  proof (induction es arbitrary: s)
    case (Cons e es)
    have "grows a s (upd_sess (snd e) (offer M) s)" by (rule grows_upd_sess) (simp add: offer_def)
    then show ?case using Cons.IH grows_trans by fastforce
  qed simp
  then show ?thesis by (simp add: BroadcastToRoom_def)
qed

lemma grows_Send: "grows a s (final (SendResponse b c k m d s))"
  by (auto simp: SendResponse_def intro!: grows_upd_sess)

lemma grows_room: "grows a s (upd_room r f t) \<longleftrightarrow> grows a s t"
  by (simp add: grows_def)

lemma grows_after_Broadcast: "grows a s t \<Longrightarrow> grows a s (BroadcastToRoom r c k m d t)"
  using grows_trans grows_Broadcast by blast

lemma grows_handleStartError: "grows a s t \<Longrightarrow> grows a s (handleStartError r e t)"
  by (simp add: handleStartError_def grows_after_Broadcast grows_room)

lemma grows_StartGame: "grows a s t \<Longrightarrow> grows a s (final (StartGame r t))"
  by (auto simp: StartGame_def Let_def grows_room grows_handleStartError split: sum.split)
    (simp_all add: grows_def)

lemma grows_broadcastSummary: "grows a s t \<Longrightarrow> grows a s (broadcastSummary r t)"
  by (auto simp: broadcastSummary_def Let_def grows_after_Broadcast split: sum.split)

lemma grows_LeaveRoom: "grows a s (final (LeaveRoom X i b s))"
proof (cases "map_of (Rooms s) i")
  case (Some r)
  let ?s2 = "upd_sess b (\<lambda>n. n\<lparr>sRoomID := []\<rparr>) (upd_room r (without (pid s b)) s)"
  have 2: "grows a s ?s2" by (simp add: grows_def)
  then have "grows a s (final (DeleteRoom X i ?s2))" by (simp add: grows_def DeleteRoom_heaps)
  with 2 show ?thesis by (simp add: LeaveRoom_some [OF Some] Let_def grows_after_Broadcast grows_room)
qed (simp add: LeaveRoom_def grows_Send)

section \<open>Answers\<close>

definition answered :: "nat \<Rightarrow> string \<Rightarrow> 'w server \<Rightarrow> 'w server \<Rightarrow> bool" where
  "answered a c s t \<longleftrightarrow> (\<exists>ms. sSend (sheap t a) = sSend (sheap s a) @ ms \<and> c \<in> Cmd ` set ms)"

definition answers :: "nat \<Rightarrow> string \<Rightarrow> 'w server \<Rightarrow> ('x, 'w server) exec \<Rightarrow> bool" where
  "answers a c s m \<longleftrightarrow> (\<forall>x t. m = Done x t \<longrightarrow> answered a c s t)"

lemma answered_grows: "answered a c s t \<Longrightarrow> grows a t u \<Longrightarrow> answered a c s u"
  by (auto simp: answered_def grows_def prefix_def)

lemma grows_answered: "grows a s t \<Longrightarrow> answered a c t u \<Longrightarrow> answered a c s u"
  by (auto simp: answered_def grows_def prefix_def)

lemma answers_Done [simp]: "answers a c s (Done x t) \<longleftrightarrow> answered a c s t"
  and answers_Stop [simp]: "answers a c s (Stop k t)"
  by (simp_all add: answers_def)

lemma answers_Send: "grows a s t \<Longrightarrow> answers a c s (SendResponse a c k m d t)"
  by (auto simp: answers_def SendResponse_def answered_def grows_def prefix_def)

lemma answers_andthen:
  assumes "answers a c s m" and "\<And>x t. m = Done x t \<Longrightarrow> grows a t (final (f x t))"
  shows "answers a c s (andthen m f)"
  using assms by (cases m) (auto simp: answers_def intro: answered_grows split: exec.splits)

lemma answers_andthen_later:
  assumes "grows a s (final m)" and "\<And>x t. m = Done x t \<Longrightarrow> grows a s t \<Longrightarrow> answers a c s (f x t)"
  shows "answers a c s (andthen m f)"
  using assms by (cases m) auto

lemma answers_CreateRoom: "answers a ''create_room_res'' s (CreateRoom X a s)"
  by (auto simp: CreateRoom_def Let_def split: option.split intro!: answers_andthen answers_Send)
    (simp add: grows_def enterRoom_def)

lemma answers_JoinRoom: "answers a ''join_room_res'' s (JoinRoom i a s)"
  by (auto simp: JoinRoom_def Let_def grows_Broadcast split: option.split intro!: answers_andthen answers_Send)
    (simp add: grows_def enterRoom_def)

lemma answers_reportTurn: "grows a s t \<Longrightarrow> answers a ''battle_action_res'' s (reportTurn X r a m t)"
  by (auto simp: reportTurn_def Let_def grows_Broadcast intro!: answers_andthen answers_Send)

lemma grows_world: "grows a s (t\<lparr>world := w\<rparr>) \<longleftrightarrow> grows a s t"
  by (simp add: grows_def)

lemma answers_forwardBattleAction: "answers a ''battle_action_res'' s (forwardBattleAction X r a raw s)"
proof -
  have inject: "answers a ''battle_action_res'' s (andthen (injectBattleSide r raw p s) f)"
    if f: "\<And>res. answers a ''battle_action_res'' s (f res s)" for p f
  proof (rule answers_andthen_later)
    show "grows a s (final (injectBattleSide r raw p s))" by (simp add: injectBattleSide_final)
    show "answers a ''battle_action_res'' s (f x t)" if "injectBattleSide r raw p s = Done x t" for x t
      using f that injectBattleSide_final [of r raw p s] by simp
  qed
  show ?thesis
    by (auto simp: forwardBattleAction_def Let_def grows_world
        split: sum.split option.split prod.split intro!: inject answers_Send answers_reportTurn)
qed

lemma answers_HandleBattleActionAndPersist: "answers a ''battle_action_res'' s (HandleBattleActionAndPersist X a raw s)"
  unfolding HandleBattleActionAndPersist_def HandleBattleAction_def
  by (rule answers_andthen)
    (auto split: option.split intro!: answers_Send answers_forwardBattleAction)

lemma answers_HandleSelectPokemon: "answers a ''select_pokemon_res'' s (HandleSelectPokemon r a raw s)"
proof -
  have team: "grows a s (upd_sess a (\<lambda>n. n\<lparr>sSelectedPokemon := v\<rparr>) s)" for v by (simp add: grows_def)
  have after: "grows a t (final (if b then StartGame r (broadcastSummary r (BroadcastToRoom r c k m d t))
      else Done () (BroadcastToRoom r c k m d t)))" for b t c k m d
    by (simp add: grows_StartGame grows_broadcastSummary grows_Broadcast)
  have sent: "answers a ''select_pokemon_res'' s (andthen (SendResponse a ''select_pokemon_res'' k m d t) (\<lambda>_ s3.
        if b then StartGame r (broadcastSummary r (BroadcastToRoom r c' k' (m' s3) d' s3))
        else Done () (BroadcastToRoom r c' k' (m' s3) d' s3)))"
    if "grows a s t" for k m d t b c' k' m' d'
    by (rule answers_andthen [OF answers_Send [OF that] after])
  show ?thesis
    unfolding HandleSelectPokemon_def Let_def
    by (auto simp: grows_room team simp del: andthen.simps split: prod.split bool.split intro!: answers_Send sent)
qed

lemma answers_HandleSelectPokemonAndPersist: "answers a ''select_pokemon_res'' s (HandleSelectPokemonAndPersist a raw s)"
  by (auto simp: HandleSelectPokemonAndPersist_def split: option.split intro!: answers_Send answers_HandleSelectPokemon)

lemma answers_do_get_redis: "answers a ''get_redis_res'' s (do_get_redis X F a req s)"
  by (auto simp: do_get_redis_def Let_def grows_world split: option.split prod.split sum.split intro!: answers_Send)

lemma answers_do_leave_room: "answers a ''leave_room_res'' s (do_leave_room X a req s)"
  unfolding do_leave_room_def Let_def
  by (rule answers_andthen_later [OF grows_LeaveRoom]) (rule answers_Send)

lemma answers_do_match: "answers a ''match_res'' s (do_match a req s)"
  by (auto simp: do_match_def intro!: answers_Send) (simp add: grows_def)

lemmas answers_handlers = answers_do_get_redis answers_do_leave_room answers_do_match


end
