(* ===== verification/Config.thy ===== *)
theory Config
  imports Server
begin

text \<open>
  \<open>configs/config.go\<close> and the part of \<open>main\<close> around it: the Redis settings with their overrides
  from the environment, the connection to Redis (\<open>NewRedisStore\<close>, \<open>Ping\<close>, \<open>Close\<close>), and the start
  of the process, which ends at once when Redis does not answer. The Redis client library is the
  parameter \<open>'w redis_driver\<close>.
\<close>

section \<open>time.ParseDuration\<close>

text \<open>Durations are nanoseconds. The library multiplies the fraction of a number in \<open>float64\<close>; this
  product is the parameter \<open>frac\<close>, of the digits, the number of digits and the unit.\<close>

definition digit_val :: "char \<Rightarrow> nat" where
  "digit_val c = of_char c - 48"

fun leadingInt :: "nat \<Rightarrow> string \<Rightarrow> (nat \<times> string) option" where
  "leadingInt x [] = Some (x, [])"
| "leadingInt x (c # s) =
     (if \<not> is_digit c then Some (x, c # s)
      else if x > 2 ^ 63 div 10 then None
      else let y = x * 10 + digit_val c in if y > 2 ^ 63 then None else leadingInt y s)"

fun leadingFraction :: "nat \<Rightarrow> nat \<Rightarrow> bool \<Rightarrow> string \<Rightarrow> nat \<times> nat \<times> string" where
  "leadingFraction x scale overflow [] = (x, scale, [])"
| "leadingFraction x scale overflow (c # s) =
     (if \<not> is_digit c then (x, scale, c # s)
      else if overflow \<or> x > (2 ^ 63 - 1) div 10 then leadingFraction x scale True s
      else let y = x * 10 + digit_val c in
        if y > 2 ^ 63 then leadingFraction x scale True s else leadingFraction y (Suc scale) overflow s)"

definition unitMap :: "(string \<times> nat) list" where
  "unitMap = [(''ns'', 1), (''us'', 10 ^ 3), ([CHR 0xC2, CHR 0xB5, CHR ''s''], 10 ^ 3),
     ([CHR 0xCE, CHR 0xBC, CHR ''s''], 10 ^ 3), (''ms'', 10 ^ 6), (''s'', 10 ^ 9),
     (''m'', 60 * 10 ^ 9), (''h'', 3600 * 10 ^ 9)]"

definition unit_char :: "char \<Rightarrow> bool" where
  "unit_char c \<longleftrightarrow> c \<noteq> CHR ''.'' \<and> \<not> is_digit c"

text \<open>One number with its unit: its nanoseconds and the rest of the string.\<close>

definition durationItem :: "(nat \<Rightarrow> nat \<Rightarrow> nat \<Rightarrow> nat) \<Rightarrow> string \<Rightarrow> (nat \<times> string) option" where
  "durationItem frac s =
     (if \<not> (s \<noteq> [] \<and> (hd s = CHR ''.'' \<or> is_digit (hd s))) then None
      else (case leadingInt 0 s of
          None \<Rightarrow> None
        | Some (v, s1) \<Rightarrow>
            (let pre = length s \<noteq> length s1;
                 (f, scale, s2, post) = (if s1 \<noteq> [] \<and> hd s1 = CHR ''.''
                   then (case leadingFraction 0 0 False (tl s1) of (f, scale, s2) \<Rightarrow>
                      (f, scale, s2, length (tl s1) \<noteq> length s2))
                   else (0, 0, s1, False));
                 u = takeWhile unit_char s2;
                 s3 = dropWhile unit_char s2
             in if \<not> pre \<and> \<not> post then None
                else if u = [] then None
                else (case map_of unitMap u of
                    None \<Rightarrow> None
                  | Some unit \<Rightarrow>
                      if v > 2 ^ 63 div unit then None
                      else let v1 = (if f > 0 then v * unit + frac f scale unit else v * unit) in
                        if f > 0 \<and> v1 > 2 ^ 63 then None else Some (v1, s3)))))"

lemma leadingInt_shorter: "leadingInt x s = Some (y, t) \<Longrightarrow> length t \<le> length s"
  by (induction x s rule: leadingInt.induct) (auto simp: Let_def split: if_splits)

lemma leadingFraction_shorter: "leadingFraction x n b s = (y, k, t) \<Longrightarrow> length t \<le> length s"
  by (induction x n b s rule: leadingFraction.induct) (auto simp: Let_def split: if_splits)

lemma drop_unit_shorter: "takeWhile p s \<noteq> [] \<Longrightarrow> length (dropWhile p s) < length s"
  by (cases s) (auto simp: length_dropWhile_le less_Suc_eq_le split: if_splits)

lemma durationItem_shorter:
  assumes "durationItem frac s = Some (v, t)" shows "length t < length s"
proof -
  obtain w s1 where s1: "leadingInt 0 s = Some (w, s1)"
    using assms by (auto simp: durationItem_def split: option.splits if_splits)
  define r where "r = (if s1 \<noteq> [] \<and> hd s1 = CHR ''.''
      then (case leadingFraction 0 0 False (tl s1) of (f, scale, s2) \<Rightarrow> (f, scale, s2, length (tl s1) \<noteq> length s2))
      else (0, 0, s1, False))"
  obtain f scale s2 post where r: "r = (f, scale, s2, post)" by (cases r)
  have "length s2 \<le> length s1"
    using r leadingFraction_shorter [of 0 0 False "tl s1"] unfolding r_def by (auto split: prod.splits if_splits)
  also have "\<dots> \<le> length s" using s1 by (rule leadingInt_shorter)
  finally have le: "length s2 \<le> length s" .
  have "t = dropWhile unit_char s2 \<and> takeWhile unit_char s2 \<noteq> []"
    using assms unfolding durationItem_def s1 option.case prod.case r_def [symmetric] Let_def r
    by (simp split: option.splits if_splits)
  with drop_unit_shorter [of unit_char s2] le show ?thesis by auto
qed

function durationLoop :: "(nat \<Rightarrow> nat \<Rightarrow> nat \<Rightarrow> nat) \<Rightarrow> nat \<Rightarrow> string \<Rightarrow> nat option" where
  "durationLoop frac d s =
     (if s = [] then Some d
      else (case durationItem frac s of
          None \<Rightarrow> None
        | Some (v, s') \<Rightarrow> if d + v > 2 ^ 63 then None else durationLoop frac (d + v) s'))"
  by pat_completeness auto
termination
  by (relation "measure (\<lambda>(frac, d, s). length s)") (auto dest: durationItem_shorter)

declare durationLoop.simps [simp del] and leadingInt.simps [simp del]

definition ParseDuration :: "(nat \<Rightarrow> nat \<Rightarrow> nat \<Rightarrow> nat) \<Rightarrow> string \<Rightarrow> int option" where
  "ParseDuration frac s =
     (let (neg, s1) = (case s of [] \<Rightarrow> (False, [])
       | c # cs \<Rightarrow> if c = CHR ''-'' then (True, cs) else if c = CHR ''+'' then (False, cs) else (False, s))
      in if s1 = ''0'' then Some 0
         else if s1 = [] then None
         else (case durationLoop frac 0 s1 of
             None \<Rightarrow> None
           | Some d \<Rightarrow> if neg then Some (- int d) else if d > 2 ^ 63 - 1 then None else Some (int d)))"

section \<open>configs.init\<close>

record config =
  RedisAddr :: string
  RedisPassword :: string
  RedisDB :: int
  RedisTTL :: int

definition default_config :: config where
  "default_config = \<lparr>RedisAddr = ''127.0.0.1:6379'', RedisPassword = [], RedisDB = 0, RedisTTL = 2 * 3600 * 10 ^ 9\<rparr>"

definition init_config :: "(nat \<Rightarrow> nat \<Rightarrow> nat \<Rightarrow> nat) \<Rightarrow> 'w ext \<Rightarrow> config" where
  "init_config frac X =
     (let c = default_config;
          v1 = x_env X ''REDIS_ADDR'';
          c1 = (if v1 \<noteq> [] then c\<lparr>RedisAddr := v1\<rparr> else c);
          v2 = x_env X ''REDIS_PASSWORD'';
          c2 = (if v2 \<noteq> [] then c1\<lparr>RedisPassword := v2\<rparr> else c1);
          v3 = x_env X ''REDIS_DB'';
          c3 = (if v3 \<noteq> [] then (case Atoi v3 of Some n \<Rightarrow> c2\<lparr>RedisDB := n\<rparr> | None \<Rightarrow> c2) else c2);
          v4 = x_env X ''REDIS_TTL''
      in if v4 \<noteq> [] then (case ParseDuration frac v4 of Some d \<Rightarrow> c3\<lparr>RedisTTL := d\<rparr> | None \<Rightarrow> c3) else c3)"

section \<open>The connection to Redis\<close>

record 'w redis_driver =
  rd_new :: "string \<Rightarrow> string \<Rightarrow> int \<Rightarrow> 'w \<Rightarrow> 'w"
  rd_ping :: "'w \<Rightarrow> error option \<times> 'w"
  rd_close :: "'w \<Rightarrow> error option \<times> 'w"

record RedisStore =
  rs_client :: bool
  rs_ttl :: int

definition Ping :: "'w redis_driver \<Rightarrow> 'w \<Rightarrow> error option \<times> 'w" where
  "Ping D w = (case rd_ping D w of
      (Some err, w') \<Rightarrow> (Some (EWrap EPing err), w')
    | (None, w') \<Rightarrow> (None, w'))"

definition NewRedisStore :: "'w redis_driver \<Rightarrow> string \<Rightarrow> string \<Rightarrow> int \<Rightarrow> int \<Rightarrow> 'w \<Rightarrow> (error + RedisStore) \<times> 'w" where
  "NewRedisStore D addr password db ttl w =
     (let store = \<lparr>rs_client = True, rs_ttl = ttl\<rparr>
      in case Ping D (rd_new D addr password db w) of
           (Some err, w') \<Rightarrow> (Inl err, snd (rd_close D w'))
         | (None, w') \<Rightarrow> (Inr store, w'))"

definition Close :: "'w redis_driver \<Rightarrow> RedisStore \<Rightarrow> 'w \<Rightarrow> error option \<times> 'w" where
  "Close D s w = (if \<not> rs_client s then (None, w) else rd_close D w)"

section \<open>The process\<close>

datatype 'w process = Exited int 'w | Running RedisStore "'w system"

definition initRedis :: "'w redis_driver \<Rightarrow> config \<Rightarrow> 'w \<Rightarrow> (error + RedisStore) \<times> 'w" where
  "initRedis D c w = NewRedisStore D (RedisAddr c) (RedisPassword c) (RedisDB c) (RedisTTL c) w"

definition main_start :: "(nat \<Rightarrow> nat \<Rightarrow> nat \<Rightarrow> nat) \<Rightarrow> 'w ext \<Rightarrow> 'w redis_driver \<Rightarrow> 'w net \<Rightarrow> 'w process" where
  "main_start frac X D n = (case initRedis D (init_config frac X) (world n) of
      (Inl err, w) \<Rightarrow> Exited 1 w
    | (Inr redisStore, w) \<Rightarrow> Running redisStore (startServer X (rs_ttl redisStore) (n\<lparr>world := w\<rparr>)))"

text \<open>After the signal: the HTTP server stops, then the shutdown, then the deferred close of Redis.\<close>

definition main_stop :: "'w ext \<Rightarrow> 'w redis_driver \<Rightarrow> RedisStore \<Rightarrow> 'w system \<Rightarrow> 'w server" where
  "main_stop X D redisStore y =
     (let s = shutdownServer X (srv y) in s\<lparr>world := snd (Close D redisStore (world s))\<rparr>)"

section \<open>The configured retention time\<close>

abbreviation readDigits :: "nat \<Rightarrow> string \<Rightarrow> nat" where
  "readDigits \<equiv> foldl (\<lambda>a c. 10 * a + digit_val c)"

lemma readDigits_ge: "x \<le> readDigits x ds"
proof (induction ds arbitrary: x)
  case (Cons c ds)
  have "x \<le> 10 * x + digit_val c" by simp
  also have "\<dots> \<le> readDigits x (c # ds)" using Cons.IH by simp
  finally show ?case .
qed simp

lemma leadingInt_digits:
  assumes "list_all is_digit ds" and "\<not> is_digit c" and "x \<le> 2 ^ 63"
  shows "leadingInt x (ds @ c # s) = (if readDigits x ds > 2 ^ 63 then None else Some (readDigits x ds, c # s))"
  using assms
proof (induction ds arbitrary: x)
  case (Cons e ds)
  let ?y = "10 * x + digit_val e"
  have ge: "?y \<le> readDigits ?y ds" by (rule readDigits_ge)
  show ?case
  proof (cases "?y \<le> 2 ^ 63")
    case True
    then have "\<not> x > 2 ^ 63 div 10" by simp
    with True Cons.IH [of ?y] Cons.prems show ?thesis by (simp add: mult.commute Let_def leadingInt.simps)
  next
    case False
    then have "readDigits ?y ds > 2 ^ 63" using ge by simp
    with False Cons.prems show ?thesis by (simp add: mult.commute Let_def leadingInt.simps)
  qed
qed (simp add: leadingInt.simps)

lemma digits_is_digit: "list_all is_digit (digits n)"
proof (induction n rule: digits.induct)
  case (1 n)
  have "is_digit (char_of (48 + k))" if "k < 10" for k :: nat
    using that by (simp add: is_digit_def)
  with 1 show ?case by (cases "n < 10") (simp_all add: digits.simps [of n])
qed

lemma ParseDuration_seconds:
  "ParseDuration frac (digits n @ ''s'') = (if n * 10 ^ 9 < 2 ^ 63 then Some (int n * 10 ^ 9) else None)"
proof -
  obtain c ds where d: "digits n = c # ds" using digits_nonempty [of n] by (cases "digits n") auto
  then have c: "is_digit c" using digits_is_digit [of n] by simp
  then have sign: "c \<noteq> CHR ''-''" "c \<noteq> CHR ''+''" "c \<noteq> CHR ''.''" by (auto simp: is_digit_def)
  have s: "\<not> is_digit CHR ''s''" "unit_char CHR ''s''" by (simp_all add: is_digit_def unit_char_def)
  have "readDigits 0 (digits n) = n" using undigits_digits [of n] by (simp add: undigits_def digit_val_def)
  then have lead: "leadingInt 0 (c # ds @ ''s'') = (if n > 2 ^ 63 then None else Some (n, ''s''))"
    using leadingInt_digits [OF digits_is_digit s(1), of 0 n "[]"] d by simp
  have item: "durationItem frac (c # ds @ ''s'') = (if n > 2 ^ 63 div 10 ^ 9 then None else Some (n * 10 ^ 9, []))"
    using c s(2) by (simp add: durationItem_def lead unitMap_def)
  have "durationLoop frac 0 (c # ds @ ''s'') = (if n > 2 ^ 63 div 10 ^ 9 then None else Some (n * 10 ^ 9))"
    using item by (simp add: durationLoop.simps)
  moreover have "n > 2 ^ 63 div 10 ^ 9 \<longleftrightarrow> \<not> n * 10 ^ 9 < 2 ^ 63" by (auto simp: not_less)
  ultimately show ?thesis using sign d by (simp add: ParseDuration_def)
qed

text \<open>The retention time of snapshots can be set in the environment: with \<open>REDIS_TTL\<close> set to a
  number of seconds, written in decimal with the unit \<open>s\<close>, it is that many seconds, and the two
  hours of the default if they do not fit in a 64-bit duration.\<close>

lemma redis_ttl_seconds:
  assumes "x_env X ''REDIS_TTL'' = digits n @ ''s''"
  shows "RedisTTL (init_config frac X) = (if n * 10 ^ 9 < 2 ^ 63 then int n * 10 ^ 9 else 2 * 3600 * 10 ^ 9)"
  by (simp add: init_config_def Let_def assms ParseDuration_seconds default_config_def split: option.split)

text \<open>The process serves players only with a Redis that has answered. If the ping fails, the
  client is closed and the process exits with status 1 before it dials any engine; if it succeeds,
  the server starts on the world that the ping left, with the configured retention time.\<close>

lemma start_needs_redis:
  "main_start frac X D n =
    (let c = init_config frac X
     in case rd_ping D (rd_new D (RedisAddr c) (RedisPassword c) (RedisDB c) (world n)) of
          (Some err, w) \<Rightarrow> Exited 1 (snd (rd_close D w))
        | (None, w) \<Rightarrow> Running \<lparr>rs_client = True, rs_ttl = RedisTTL c\<rparr> (startServer X (RedisTTL c) (n\<lparr>world := w\<rparr>)))"
  by (simp add: main_start_def initRedis_def NewRedisStore_def Ping_def Let_def split: prod.split option.split)

end
