(* ===== verification/Selection.thy ===== *)
theory Selection
  imports Launch
begin

text \<open>
  Choosing pokemon: what a request stores, when it starts the game, and what a refused request
  leaves behind.
\<close>

section \<open>The selection loop\<close>

definition chosen :: "Pokemon \<Rightarrow> poke_map" where
  "chosen p = pokeMap p (float_trunc (the (as_float64 (Ability p))))"

lemma selectTeam_prefix:
  "(\<forall>p \<in> set ps. as_float64 (Ability p) \<noteq> None) \<Longrightarrow>
   selectTeam (ps @ qs) team = selectTeam qs (team @ List.map chosen ps)"
  by (induction ps arbitrary: team) (auto simp: chosen_def)

lemmas selectTeam_all = selectTeam_prefix [where qs = "[]", unfolded append_Nil2 selectTeam.simps(1)]

lemma selectTeam_stops: "qs \<noteq> [] \<Longrightarrow> as_float64 (Ability (hd qs)) = None \<Longrightarrow> selectTeam qs team = (team, False)"
  by (cases qs) auto

lemma allPlayersReady_iff:
  assumes ok: "room_ok s g"
  shows "allPlayersReady g \<longleftrightarrow> length (rSessions g) = 2
    \<and> (\<forall>p \<in> dom (map_of (rSessions g)). map_of (rReadyPlayers g) p = Some True)"
proof -
  let ?R = "rReadyPlayers g"
  have m: "map_ok (rSessions g)" "map_ok ?R" and d: "dom (map_of ?R) = dom (map_of (rSessions g))"
    using ok by (simp_all add: room_ok_def)
  have len: "length ?R = length (rSessions g)"
    using am.length_keys [OF m(1)] am.length_keys [OF m(2)] d by simp
  have "length (filter snd ?R) = length ?R \<longleftrightarrow> (\<forall>e \<in> set ?R. snd e)"
    by (metis filter_True length_filter_less order_less_irrefl)
  also have "\<dots> \<longleftrightarrow> (\<forall>p \<in> dom (map_of ?R). map_of ?R p = Some True)"
  proof
    show "\<forall>p \<in> dom (map_of ?R). map_of ?R p = Some True" if a: "\<forall>e \<in> set ?R. snd e"
    proof
      fix p assume "p \<in> dom (map_of ?R)"
      then obtain b where "map_of ?R p = Some b" by blast
      then show "map_of ?R p = Some True" using a by (fastforce dest: map_of_SomeD)
    qed
    show "\<forall>e \<in> set ?R. snd e" if a: "\<forall>p \<in> dom (map_of ?R). map_of ?R p = Some True"
    proof
      fix e assume "e \<in> set ?R"
      then have "map_of ?R (fst e) = Some (snd e)" using map_of_in_set [OF m(2)] by simp
      then show "snd e" using a by force
    qed
  qed
  finally show ?thesis using len d by (auto simp: allPlayersReady_def readyCount_def)
qed

lemma heap_broadcastSummary: "only_sends s (broadcastSummary r s)"
  by (simp add: broadcastSummary_def Let_def only_sends_Broadcast split: sum.split)

text \<open>C32: A valid selection (in the room, room waiting, at most six pokemon, every ability a number)
  stores exactly the requested team, marks the player ready, and starts the game in the same step
  exactly if the room has two players and the other one is ready too.\<close>

theorem selection_starts_game:
  assumes ok: "room_ok s (rheap s r)" and mem: "map_of (rSessions (rheap s r)) (pid s a) \<noteq> None"
    and status: "rStatus (rheap s r) = RoomWaiting" and space: "length (sSend (sheap s a)) < sendCap"
    and req: "unmarshal_raw dec_SelectPokemonRequest raw \<lparr>req_Pokemon = None\<rparr> = (\<lparr>req_Pokemon = Some ps\<rparr>, True)"
    and six: "length ps \<le> 6" and ability: "\<forall>p \<in> set ps. as_float64 (Ability p) \<noteq> None"
  shows "\<exists>v. HandleSelectPokemon r a raw s =
      (if length (rSessions (rheap s r)) = 2 \<and> (\<forall>q \<in> dom (map_of (rSessions (rheap s r))).
            q \<noteq> pid s a \<longrightarrow> map_of (rReadyPlayers (rheap s r)) q = Some True)
       then StartGame r v else Done () v)
    \<and> sSelectedPokemon (sheap v a) = Some (List.map chosen ps)
    \<and> rheap v = (rheap s)(r := (rheap s r)\<lparr>rReadyPlayers := AList.update (pid s a) True (rReadyPlayers (rheap s r))\<rparr>)"
proof -
  let ?g = "(rheap s r)\<lparr>rReadyPlayers := AList.update (pid s a) True (rReadyPlayers (rheap s r))\<rparr>"
  let ?s1 = "upd_sess a (\<lambda>n. n\<lparr>sSelectedPokemon := Some (List.map chosen ps)\<rparr>) s"
  let ?s2 = "upd_room r (\<lambda>g. g\<lparr>rReadyPlayers := AList.update (pid s a) True (rReadyPlayers g)\<rparr>) ?s1"
  have "\<exists>s3. SendResponse a ''select_pokemon_res'' CodeSuccess (MSelect PokemonSelected) JNull ?s2 = Done () s3"
    using space by (simp add: SendResponse_def)
  then obtain s3 where send: "SendResponse a ''select_pokemon_res'' CodeSuccess (MSelect PokemonSelected) JNull ?s2 = Done () s3"
    by blast
  have o3: "only_sends ?s2 s3"
    using only_sends_SendResponse [of ?s2 a "''select_pokemon_res''" CodeSuccess "MSelect PokemonSelected" JNull] send by simp
  let ?s4 = "BroadcastToRoom r ''player_ready'' CodeSuccess (MSelect (PlayerReady (pid s3 a))) JNull s3"
  have ne: "raw \<noteq> RawEmpty" using req by (auto simp: unmarshal_raw_def)
  have p: "pid ?s1 a = pid s a" by (simp add: pid_def)
  have okg: "room_ok s ?g" using ok mem by (auto simp: room_ok_def)
  let ?ready = "length (rSessions (rheap s r)) = 2 \<and> (\<forall>q \<in> dom (map_of (rSessions (rheap s r))).
            q \<noteq> pid s a \<longrightarrow> map_of (rReadyPlayers (rheap s r)) q = Some True)"
  have ready: "allPlayersReady ?g \<longleftrightarrow> ?ready" using allPlayersReady_iff [OF okg] by auto
  have eq: "HandleSelectPokemon r a raw s = (if ?ready then StartGame r (broadcastSummary r ?s4) else Done () ?s4)"
    using mem status ne six req ready send
    by (simp add: HandleSelectPokemon_def Let_def selectTeam_all [OF ability] p)
  have o: "only_sends ?s2 ?s4"
    by (rule only_sends_trans [OF o3 only_sends_Broadcast])
  then have o': "only_sends ?s2 (broadcastSummary r ?s4)"
    by (rule only_sends_trans) (rule heap_broadcastSummary)
  have at: "sSelectedPokemon (sheap v a) = Some (List.map chosen ps) \<and> rheap v = (rheap s)(r := ?g)"
    if "only_sends ?s2 v" for v
    using only_sendsD(2) [OF that] only_sends_sess(4) [OF that, of a] by simp
  show ?thesis
    by (rule exI [of _ "if ?ready then broadcastSummary r ?s4 else ?s4"]) (use eq at [OF o] at [OF o'] in auto)
qed

text \<open>A selection refused because an ability is not a number has changed the player's team
  already: the pokemon before the offending one replace the old team, and a player who was ready
  stays ready, so a game can start with the truncated team.\<close>

lemma refused_selection_replaces_team:
  assumes mem: "map_of (rSessions (rheap s r)) (pid s a) \<noteq> None"
    and status: "rStatus (rheap s r) = RoomWaiting" and space: "length (sSend (sheap s a)) < sendCap"
    and req: "unmarshal_raw dec_SelectPokemonRequest raw \<lparr>req_Pokemon = None\<rparr> = (\<lparr>req_Pokemon = Some (ps @ q # qs)\<rparr>, True)"
    and six: "length (ps @ q # qs) \<le> 6" and good: "\<forall>p \<in> set ps. as_float64 (Ability p) \<noteq> None"
    and bad: "as_float64 (Ability q) = None"
  shows "\<exists>t. HandleSelectPokemon r a raw s = Done () t \<and> rheap t = rheap s
    \<and> sSelectedPokemon (sheap t a) = Some (List.map chosen ps)
    \<and> (\<exists>old. sSend (sheap t a) = old @ [\<lparr>Cmd = ''select_pokemon_res'', Code = CodeDataInvalid,
         Msg = MSelect AbilityNotNumber, Data = JNull\<rparr>])"
proof -
  have ne: "raw \<noteq> RawEmpty" using req by (auto simp: unmarshal_raw_def)
  have team: "selectTeam (ps @ q # qs) [] = (List.map chosen ps, False)"
    using selectTeam_prefix [OF good, of "q # qs" "[]"] bad by simp
  show ?thesis using mem status ne six req space
    by (simp add: HandleSelectPokemon_def Let_def team SendResponse_def)
qed

end
