(* ===== verification/GameProps.thy ===== *)
theory GameProps
  imports GameInv Membership
begin

text \<open>
  Properties of \<open>game.go\<close>: the sides of a battle, what a client can make the engine receive, the
  start of a game and the goroutine that launches it, and the choice of pokemon.
\<close>

section \<open>Members of JSON objects\<close>

definition member :: "json \<Rightarrow> string \<Rightarrow> json option" where
  "member j k = (case j of JObj kvs \<Rightarrow> map_of kvs k | _ \<Rightarrow> None)"

lemma map_of_sorted: "map_ok m \<Longrightarrow> map_of (sort_key fst m) = map_of m"
  for m :: "('k::linorder \<times> 'v) list"
  by (rule map_of_perm [symmetric]) simp_all

lemma member_enc_any:
  assumes "map_ok kvs" shows "member (enc_any (JObj kvs)) k = map_option enc_any (map_of kvs k)"
proof -
  have "map_ok (List.map (map_prod id enc_any) kvs)"
    using assms by (simp add: map_ok_def o_def)
  then have "member (enc_any (JObj kvs)) k = map_of (List.map (map_prod id enc_any) kvs) k"
    by (simp add: member_def map_of_sorted)
  also have "\<dots> = map_option enc_any (map_of kvs k)"
    by (induction kvs) auto
  finally show ?thesis .
qed

definition side_name :: "json \<Rightarrow> string \<Rightarrow> string option" where
  "side_name js k = (case member js k of None \<Rightarrow> None
     | Some side \<Rightarrow> (case member side ''name'' of Some (JStr p) \<Rightarrow> Some p | _ \<Rightarrow> None))"

section \<open>Sides\<close>

lemma two_entries:
  assumes "map_ok m" and "length m = 2"
  obtains p q a b where "p < q" "mset m = {#(p, a), (q, b)#}" "map_of m = [p \<mapsto> a, q \<mapsto> b]" "sort (mkeys m) = [p, q]"
proof -
  obtain x y where m: "m = [x, y]" using assms(2) by (auto simp: length_Suc_conv eval_nat_numeral)
  obtain p a q b where xy: "x = (p, a)" "y = (q, b)" by (cases x, cases y)
  have ne: "p \<noteq> q" using assms(1) by (simp add: m xy map_ok_def)
  then consider "p < q" | "q < p" by (meson linorder_neqE)
  then show thesis
  proof cases
    case 1
    then show thesis by (intro that [of p q a b]) (auto simp: m xy mkeys_def)
  next
    case 2
    then show thesis by (intro that [of q p b a]) (auto simp: m xy mkeys_def)
  qed
qed

lemma side_name_enc:
  assumes "member js k = Some (enc_any (enc_side s a))" shows "side_name js k = Some (pid s a)"
proof -
  have "member (enc_any (enc_side s a)) ''name'' = Some (JStr (pid s a))"
    unfolding enc_side_def by (subst member_enc_any) (simp_all add: map_ok_def)
  with assms show ?thesis by (simp add: side_name_def)
qed

text \<open>C15: The two places that derive a player's side agree. In a room of two players, whatever
  order Go ranges over the session map, the battle state sent to the engine names the player with
  the smaller id \<open>side_a\<close> and the other one \<open>side_b\<close>, the seed is the checksum of the room id, and
  \<open>battleSideForPlayer\<close> gives ''a'' to the first, ''b'' to the second and nothing to anybody else.\<close>

theorem battle_sides_agree:
  assumes "room_ok s (rheap s r)" and "length (rSessions (rheap s r)) = 2"
  shows "\<exists>p q js. p < q \<and> dom (map_of (rSessions (rheap s r))) = {p, q}
    \<and> buildBattleInitJSON (rID (rheap s r)) (List.map snd (rSessions (rheap s r))) s = Inr js
    \<and> side_name js ''side_a'' = Some p \<and> side_name js ''side_b'' = Some q
    \<and> member js ''seed'' = Some (jint (hashInt (rID (rheap s r))))
    \<and> (\<forall>x. battleSideForPlayer r x s = (if x = p then Some ''a'' else if x = q then Some ''b'' else None))"
proof -
  let ?m = "rSessions (rheap s r)"
  have ok: "map_ok ?m" using assms(1) by (rule room_okD(1))
  obtain p q a b where pq: "p < q" and ms: "mset ?m = {#(p, a), (q, b)#}" and mo: "map_of ?m = [p \<mapsto> a, q \<mapsto> b]"
    and keys: "sort (mkeys ?m) = [p, q]" using two_entries [OF ok assms(2)] .
  have "map_of ?m p = Some a" "map_of ?m q = Some b" using mo less_imp_neq [OF pq] by simp_all
  then have ids: "pid s a = p" "pid s b = q" using room_okD(5) [OF assms(1)] by simp_all
  have "mset (List.map snd ?m) = mset [a, b]" using arg_cong [OF ms, of "image_mset snd"] by simp
  then have "sort_key (pid s) (List.map snd ?m) = sort_key (pid s) [a, b]"
  proof (rule sort_key_perm [rotated])
    show "inj_on (pid s) (set (List.map snd ?m))"
      using arg_cong [OF ms, of "\<lambda>m. snd ` set_mset m"] ids pq by (auto simp: inj_on_def)
  qed
  then have sorted: "sort_key (pid s) (List.map snd ?m) = [a, b]" using ids less_imp_le [OF pq] by simp
  let ?js = "enc_any (JObj [(''side_a'', enc_side s a), (''side_b'', enc_side s b), (''seed'', jint (hashInt (rID (rheap s r))))])"
  have js: "buildBattleInitJSON (rID (rheap s r)) (List.map snd ?m) s = Inr ?js"
    using assms(2) by (simp add: buildBattleInitJSON_def Let_def sorted)
  have seed: "member ?js ''seed'' = Some (jint (hashInt (rID (rheap s r))))"
    by (subst member_enc_any) (simp_all add: map_ok_def jint_def)
  have "member ?js ''side_a'' = Some (enc_any (enc_side s a))" "member ?js ''side_b'' = Some (enc_any (enc_side s b))"
    by (subst member_enc_any; simp add: map_ok_def)+
  then have sides: "side_name ?js ''side_a'' = Some p" "side_name ?js ''side_b'' = Some q"
    using side_name_enc ids by blast+
  have "battleSideForPlayer r x s = (if x = p then Some ''a'' else if x = q then Some ''b'' else None)" for x
    by (simp add: battleSideForPlayer_def Let_def keys)
  with pq js seed sides mo show ?thesis
    by (intro exI [of _ p] exI [of _ q] exI [of _ ?js]) auto
qed

section \<open>Battle actions\<close>

lemma side_member:
  assumes "battleSideForPlayer r p s = Some sd" shows "p \<in> dom (map_of (rSessions (rheap s r)))"
proof -
  let ?ids = "sort (mkeys (rSessions (rheap s r)))"
  have sub: "set ?ids \<subseteq> dom (map_of (rSessions (rheap s r)))" by (simp add: am.set_keys)
  have "p \<in> set ?ids"
  proof (cases "length ?ids < 2")
    case True
    with assms show ?thesis
      by (auto simp: battleSideForPlayer_def Let_def split: if_splits) (metis length_greater_0_conv nth_mem set_sort)
  next
    case False
    then have "0 < length ?ids" "1 < length ?ids" by linarith+
    then have "?ids ! 0 \<in> set ?ids" "?ids ! 1 \<in> set ?ids" by (blast intro: nth_mem)+
    with assms False show ?thesis by (auto simp: battleSideForPlayer_def Let_def split: if_splits)
  qed
  with sub show ?thesis by blast
qed

text \<open>The object that \<open>injectBattleSide\<close> builds from the members of a client's action.\<close>

definition with_side :: "string \<Rightarrow> (string \<times> json) list \<Rightarrow> json" where
  "with_side sd kvs = enc_any (JObj (AList.update ''side'' (JStr sd)
     (foldl (\<lambda>m kv. AList.update (fst kv) (go_any (snd kv)) m) [] kvs)))"

lemma dec_map_any:
  "dec_map dec_any JNull (JObj kvs) None =
     (Some (foldl (\<lambda>m kv. AList.update (fst kv) (go_any (snd kv)) m) [] kvs), True)"
proof -
  have "foldl (\<lambda>m r. AList.update (fst r) (fst (snd r)) m) acc (List.map (\<lambda>kv. (fst kv, go_any (snd kv), True)) kvs)
      = foldl (\<lambda>m kv. AList.update (fst kv) (go_any (snd kv)) m) acc kvs" for acc
    by (induction kvs arbitrary: acc) simp_all
  then show ?thesis by (simp add: dec_any_def Let_def list_all_iff o_def)
qed

lemma map_of_foldl_update:
  "map_of (foldl (\<lambda>m kv. AList.update (fst kv) (f (snd kv)) m) acc kvs) k
     = (case map_of (rev kvs) k of Some v \<Rightarrow> Some (f v) | None \<Rightarrow> map_of acc k)"
proof (induction kvs arbitrary: acc)
  case (Cons kv kvs)
  then show ?case by (cases kv) (auto simp: map_add_def split: option.split)
qed simp

lemma member_with_side:
  "member (with_side sd kvs) k = (if k = ''side'' then Some (JStr sd)
     else map_option (\<lambda>v. enc_any (go_any v)) (map_of (rev kvs) k))"
proof -
  let ?m = "foldl (\<lambda>m kv. AList.update (fst kv) (go_any (snd kv)) m) [] kvs"
  have "map_ok (AList.update ''side'' (JStr sd) ?m)" by (intro am.ok_put foldl_update_ok) simp
  then have "member (with_side sd kvs) k = map_option enc_any (map_of (AList.update ''side'' (JStr sd) ?m) k)"
    unfolding with_side_def by (rule member_enc_any)
  then show ?thesis by (auto simp: map_of_foldl_update split: option.split)
qed

lemma injectBattleSide_object:
  "battleSideForPlayer r p s = Some sd \<Longrightarrow> injectBattleSide r (Raw (JObj kvs)) p s = Done (Inr (with_side sd kvs)) s"
  by (simp add: injectBattleSide_def unmarshal_raw_def dec_map_any with_side_def del: dec_map.simps)


definition action_refusal :: "'w server \<Rightarrow> nat \<Rightarrow> nat \<Rightarrow> raw \<Rightarrow> (int \<times> battle_msg) option" where
  "action_refusal s r a raw =
     (if pid s a \<notin> dom (map_of (rSessions (rheap s r))) then Some (CodePlayerNotInRoom, NotInThisRoom)
      else if rStatus (rheap s r) \<noteq> RoomPlaying then Some (CodeRoomStarted, NotInBattle)
      else (case raw of RawEmpty \<Rightarrow> Some (CodeDataInvalid, ActionEmpty)
         | RawInvalid \<Rightarrow> Some (CodeDataInvalid, ActionNotJSON)
         | Raw j \<Rightarrow>
             if battleSideForPlayer r (pid s a) s = None then Some (CodeDataInvalid, ActionFailed EPlayerSide)
             else (case j of JObj kvs \<Rightarrow> None | JNull \<Rightarrow> None
               | _ \<Rightarrow> Some (CodeDataInvalid, ActionFailed EUnmarshal))))"

text \<open>\<open>forwardBattleAction\<close> answers a request that it refuses with the code of the first check
  that fails (not in the room, not in battle, empty, not JSON, no side, not an object), and does
  nothing else: no command reaches the engine and no state changes but the player's channel.\<close>

lemma refused_action:
  assumes "action_refusal s r a raw = Some (c, m)"
  shows "forwardBattleAction X r a raw s = SendResponse a ''battle_action_res'' c (MBattle m) JNull s"
proof (cases raw)
  case (Raw j)
  then show ?thesis using assms
    by (cases j; cases "battleSideForPlayer r (pid s a) s")
      (auto simp: action_refusal_def forwardBattleAction_def Let_def json_Valid_def injectBattleSide_def
        unmarshal_raw_def domIff split: if_splits)
qed (use assms in \<open>auto simp: action_refusal_def forwardBattleAction_def Let_def json_Valid_def domIff split: if_splits\<close>)

text \<open>A battle action whose data is the JSON text \<open>null\<close> passes every check of
  \<open>forwardBattleAction\<close> and then panics: \<open>json.Unmarshal\<close> leaves the map nil and
  \<open>injectBattleSide\<close> writes to it.\<close>

lemma null_action_panics:
  assumes "rStatus (rheap s r) = RoomPlaying" and "battleSideForPlayer r (pid s a) s = Some sd"
  shows "forwardBattleAction X r a (Raw JNull) s = Stop Panicked s"
  using assms side_member [OF assms(2)]
  by (auto simp: forwardBattleAction_def Let_def json_Valid_def injectBattleSide_def unmarshal_raw_def)

end
