(* ===== verification/RingProps.thy ===== *)
theory RingProps
  imports RpcRing
begin

text \<open>
  What the hash ring of \<open>internal/rpc/client.go\<close> promises: a lookup is the successor search on the
  circle of points, and a change of the node set moves as few rooms as it can.
\<close>

lemma Nodes_Register: "Nodes (RegisterNode k addr c m) = AList.update k \<lparr>node_ID = k, node_Addr = addr, node_Client = c\<rparr> (Nodes m)"
  by (simp add: RegisterNode_def rebuildRingLocked_def split: prod.split)

text \<open>C33: The lookup, a binary search on a sorted array that wraps around, implements the successor
  on the circle: with no node it fails, else it returns a registered node, one that owns the first
  point at or after the hash of the room id (after the last point, the first).\<close>

theorem lookup_is_successor:
  assumes "ring_wf m"
  shows "(Nodes m = [] \<longleftrightarrow> GetNodeByRoomID m r = Inl (EEngine ENoNodes))
    \<and> (Nodes m \<noteq> [] \<longrightarrow> (\<exists>n nd. GetNodeByRoomID m r = Inr (Some nd) \<and> map_of (Nodes m) n = Some nd
         \<and> ring_succ (points (dom (map_of (Nodes m)))) (ChecksumIEEE r) \<in> points {n}))"
proof (cases "Nodes m = []")
  case True
  then have "Ring m = []" using ring_wf_length [OF assms] by simp
  with True show ?thesis by (simp add: GetNodeByRoomID_def)
next
  case False
  obtain n nd where "map_of (Nodes m) n = Some nd" "GetNodeByRoomID m r = Inr (Some nd)"
    "ring_succ (set (Ring m)) (ChecksumIEEE r) \<in> points {n}"
    using GetNodeByRoomID_owner [OF assms False, of r] by metis
  with False show ?thesis unfolding ring_wf_set [OF assms] by auto
qed

text \<open>C38: Removing a node moves only the rooms of that node: a room that another node serves is
  served by it afterwards (if no two nodes share a point).\<close>

theorem removal_moves_only_its_rooms:
  assumes wf: "ring_wf m" and nc: "no_collision (dom (map_of (Nodes m)))"
    and get: "GetNodeByRoomID m r = Inr (Some nd)" and other: "node_ID nd \<noteq> k"
  shows "GetNodeByRoomID (RemoveNode k m) r = Inr (Some nd)"
proof -
  have ne: "Nodes m \<noteq> []" using get ring_wf_length [OF wf] by (auto simp: GetNodeByRoomID_def)
  obtain n where n: "map_of (Nodes m) n = Some nd" "node_ID nd = n"
    using GetNodeByRoomID_owner [OF wf ne, of r] get by (metis old.sum.inject(2) option.inject)
  have nodes: "map_of (Nodes (RemoveNode k m)) = (map_of (Nodes m))(k := None)"
    by (auto simp: RemoveNode_def rebuildRingLocked_def ring_wf_ok [OF wf] split: option.split prod.split)
  show ?thesis
    by (rule owner_kept [OF wf ring_wf_Remove [OF wf] ne _ nc get]) (use n other in \<open>auto simp: nodes\<close>)
qed

text \<open>Registering a node moves rooms to that node only: a room that is not served by the new node
  afterwards is served by the node that served it before (if no two nodes share a point).\<close>

lemma registration_moves_only_to_the_new_node:
  assumes wf: "ring_wf m" and nc: "no_collision (insert k (dom (map_of (Nodes m))))"
    and get: "GetNodeByRoomID (RegisterNode k addr c m) r = Inr (Some nd)" and other: "node_ID nd \<noteq> k"
  shows "GetNodeByRoomID m r = Inr (Some nd)"
proof -
  let ?m = "RegisterNode k addr c m"
  have wf': "ring_wf ?m" using wf by (rule ring_wf_Register)
  have nodes: "map_of (Nodes ?m) = (map_of (Nodes m))(k \<mapsto> \<lparr>node_ID = k, node_Addr = addr, node_Client = c\<rparr>)"
    by (simp add: RegisterNode_def rebuildRingLocked_def split: prod.split)
  have "map_of (Nodes ?m) \<noteq> Map.empty" unfolding nodes by simp
  then have ne: "Nodes ?m \<noteq> []" by auto
  obtain n where n: "map_of (Nodes ?m) n = Some nd" "node_ID nd = n"
    using GetNodeByRoomID_owner [OF wf' ne, of r] get by (metis old.sum.inject(2) option.inject)
  show ?thesis
    by (rule owner_kept [OF wf' wf ne _ _ get]) (use n nc other in \<open>auto simp: nodes\<close>)
qed

end
