(* ===== verification/RingExample.thy ===== *)
theory RingExample
  imports RingProps
begin

text \<open>
  The hundred points of pod 0 and the hundred points of pod 1, computed, share no point: the
  hypothesis of the two theorems on changes of the node set holds for these nodes.
\<close>

section \<open>Evaluating many checksums with a common prefix\<close>

lemma crc_bit_numeral:
  "crc_bit (numeral w) = (if bit (numeral w :: 32 word) 0 then drop_bit 1 (numeral w) XOR 0xEDB88320 else drop_bit 1 (numeral w))"
  by (simp add: crc_bit_def)

lemma crc_byte_numeral:
  "crc_byte b (numeral w) = crc_bit (crc_bit (crc_bit (crc_bit (crc_bit (crc_bit (crc_bit (crc_bit (numeral w XOR of_char b))))))))"
  by (simp add: crc_byte_def funpow_8)

lemma of_char_word: "(of_char (char_of k :: char) :: 32 word) = of_nat (k mod 256)" for k :: nat
proof -
  have "(of_nat (of_char (char_of k :: char) :: nat) :: 32 word) = of_nat (k mod 256)" by simp
  then show ?thesis by (simp only: of_nat_of_char)
qed

lemmas crc_numeral = crc_byte_numeral crc_bit_numeral of_char_word

text \<open>The states after each of the texts 0 to 99, from the state after the prefix.\<close>

definition units :: "32 word \<Rightarrow> 32 word list" where
  "units c = List.map (\<lambda>d. crc_byte (char_of (48 + d)) c) [0..<10]"

definition tails :: "32 word \<Rightarrow> 32 word list" where
  "tails c = units c @ concat (List.map units (tl (units c)))"

lemma units_eval: "units c = [crc_byte (char_of (48 :: nat)) c, crc_byte (char_of (49 :: nat)) c,
  crc_byte (char_of (50 :: nat)) c, crc_byte (char_of (51 :: nat)) c, crc_byte (char_of (52 :: nat)) c,
  crc_byte (char_of (53 :: nat)) c, crc_byte (char_of (54 :: nat)) c, crc_byte (char_of (55 :: nat)) c,
  crc_byte (char_of (56 :: nat)) c, crc_byte (char_of (57 :: nat)) c]"
  by (simp add: units_def upt_rec)

lemma tails_digits:
  assumes "i < 100" shows "fold crc_byte (digits i) c \<in> set (tails c)"
proof (cases "i < 10")
  case True
  then show ?thesis by (auto simp: digits.simps [of i] tails_def units_def)
next
  case False
  let ?d = "i div 10"
  have d: "1 \<le> ?d" "?d < 10" using False assms by auto
  then have "?d \<in> set [1..<10]" by simp
  moreover have "tl (units c) = List.map (\<lambda>d. crc_byte (char_of (48 + d)) c) [1..<10]"
    by (simp add: units_def upt_rec)
  ultimately have "crc_byte (char_of (48 + ?d)) c \<in> set (tl (units c))" by (simp del: set_upt)
  moreover have "fold crc_byte (digits i) c \<in> set (units (crc_byte (char_of (48 + ?d)) c))"
    using False d by (auto simp: digits.simps [of i] digits.simps [of ?d] units_def)
  ultimately show ?thesis by (auto simp: tails_def)
qed

lemma points_tails: "points {int k} \<subseteq> NOT ` set (tails (fold crc_byte (''node_'' @ digits k @ ''_'') 0xFFFFFFFF))"
proof
  fix x assume "x \<in> points {int k}"
  then obtain i where i: "i < 100" "x = virtualPoint (int k) i" by (auto simp: points_def)
  have "x = NOT (fold crc_byte (digits i) (fold crc_byte (''node_'' @ digits k @ ''_'') 0xFFFFFFFF))"
    by (simp add: i virtualPoint_def ChecksumIEEE_def Itoa_def)
  with tails_digits [OF i(1)] show "x \<in> NOT ` set (tails (fold crc_byte (''node_'' @ digits k @ ''_'') 0xFFFFFFFF))"
    by blast
qed

section \<open>Pods 0 and 1\<close>

lemma tails_0: "tails (fold crc_byte ''node_0_'' 0xFFFFFFFF) =
    [1275760689, 990748839, 2718232861, 3573793163, 1265062952, 1012950206, 2775135492, 3530425746, 1120999427,
    903227541, 1850739527, 425147345, 2153671275, 4149828349, 1765658462, 507183048, 2268311154, 4029980388,
    1619755893, 395097059, 1165842564, 846882834, 2876455336, 3698592062, 1108384925, 890743819, 2887712177,
    3675901223, 1269223606, 1017241632, 1550215621, 727800147, 2993162473, 3312400511, 1527492060, 739024202,
    3037056240, 3254975590, 1388175863, 633000289, 321388290, 1679871892, 4247363118, 2318315192, 340409115,
    1665993613, 4198783543, 2370005665, 503084848, 1794852774, 171757123, 2101083861, 3828526959, 2469765113,
    223414874, 2052471500, 3814681462, 2488818656, 82265713, 1944090343, 554802560, 1444326678, 3474980012,
    3088632890, 645683609, 1367042319, 3362928821, 3212118051, 801772978, 1489839396, 940223681, 1326292055,
    3590639085, 2701393275, 1063741656, 1214273614, 3513321972, 2792241506, 919676147, 1104548965, 3214061582,
    3365240984, 1369231650, 647750068, 3103749143, 3489154177, 1458640187, 569779629, 2974365756, 3327002794,
    2794029391, 3515789785, 1216864355, 1065406709, 2716091734, 3605231040, 1340744826, 955061484, 2823948669,
    3746904555]"
  by (simp add: crc_numeral tails_def units_eval)

lemma tails_1: "tails (fold crc_byte ''node_1_'' 0xFFFFFFFF) =
    [1305016838, 986696336, 2747702058, 3569462204, 1252343327, 1034030729, 2762694451, 3551293349, 1125347892,
    873743010, 3605818402, 2716556468, 954338574, 1340423576, 3514935355, 2793838765, 1066387735, 1216936321,
    3627541520, 2939212934, 4257300449, 2328235895, 332357325, 1690857051, 4205640696, 2376846190, 346200788,
    1671801410, 4078614483, 2216527685, 3839495840, 2480750134, 181694348, 2111004442, 3820473017, 2494626351,
    230271893, 2059311875, 3925968530, 2634462724, 2879101031, 3701254385, 1167456587, 848480733, 2901826686,
    3690032360, 1123564882, 905907652, 2772439125, 3527876803, 2994776358, 3313998256, 1552861194, 730462364,
    3052236095, 3270139305, 1541606419, 753155205, 3160088852, 3411808642, 2578316005, 4004170355, 2007210953,
    10791775, 2663399164, 3922136682, 1892573136, 130641734, 2541122263, 3765518913, 2159463332, 4155636530,
    1857596040, 431987230, 2279280573, 4040965931, 1775595153, 517103111, 2389525398, 4184503040, 120510315,
    1881794557, 3911235143, 2653390545, 4395890, 2000954340, 3998052958, 2571780808, 167075673, 2129817551,
    506848810, 1764939452, 4030433030, 2268903312, 425206323, 1851724453, 4149625631, 2152821641, 284061208,
    1743347342]"
  by (simp add: crc_numeral tails_def units_eval)

lemma unat_tails_0: "List.map unat (tails (fold crc_byte ''node_0_'' 0xFFFFFFFF)) =
    [1275760689, 990748839, 2718232861, 3573793163, 1265062952, 1012950206, 2775135492, 3530425746, 1120999427,
    903227541, 1850739527, 425147345, 2153671275, 4149828349, 1765658462, 507183048, 2268311154, 4029980388,
    1619755893, 395097059, 1165842564, 846882834, 2876455336, 3698592062, 1108384925, 890743819, 2887712177,
    3675901223, 1269223606, 1017241632, 1550215621, 727800147, 2993162473, 3312400511, 1527492060, 739024202,
    3037056240, 3254975590, 1388175863, 633000289, 321388290, 1679871892, 4247363118, 2318315192, 340409115,
    1665993613, 4198783543, 2370005665, 503084848, 1794852774, 171757123, 2101083861, 3828526959, 2469765113,
    223414874, 2052471500, 3814681462, 2488818656, 82265713, 1944090343, 554802560, 1444326678, 3474980012,
    3088632890, 645683609, 1367042319, 3362928821, 3212118051, 801772978, 1489839396, 940223681, 1326292055,
    3590639085, 2701393275, 1063741656, 1214273614, 3513321972, 2792241506, 919676147, 1104548965, 3214061582,
    3365240984, 1369231650, 647750068, 3103749143, 3489154177, 1458640187, 569779629, 2974365756, 3327002794,
    2794029391, 3515789785, 1216864355, 1065406709, 2716091734, 3605231040, 1340744826, 955061484, 2823948669,
    3746904555]"
  unfolding tails_0 by simp

lemma unat_tails_1: "List.map unat (tails (fold crc_byte ''node_1_'' 0xFFFFFFFF)) =
    [1305016838, 986696336, 2747702058, 3569462204, 1252343327, 1034030729, 2762694451, 3551293349, 1125347892,
    873743010, 3605818402, 2716556468, 954338574, 1340423576, 3514935355, 2793838765, 1066387735, 1216936321,
    3627541520, 2939212934, 4257300449, 2328235895, 332357325, 1690857051, 4205640696, 2376846190, 346200788,
    1671801410, 4078614483, 2216527685, 3839495840, 2480750134, 181694348, 2111004442, 3820473017, 2494626351,
    230271893, 2059311875, 3925968530, 2634462724, 2879101031, 3701254385, 1167456587, 848480733, 2901826686,
    3690032360, 1123564882, 905907652, 2772439125, 3527876803, 2994776358, 3313998256, 1552861194, 730462364,
    3052236095, 3270139305, 1541606419, 753155205, 3160088852, 3411808642, 2578316005, 4004170355, 2007210953,
    10791775, 2663399164, 3922136682, 1892573136, 130641734, 2541122263, 3765518913, 2159463332, 4155636530,
    1857596040, 431987230, 2279280573, 4040965931, 1775595153, 517103111, 2389525398, 4184503040, 120510315,
    1881794557, 3911235143, 2653390545, 4395890, 2000954340, 3998052958, 2571780808, 167075673, 2129817551,
    506848810, 1764939452, 4030433030, 2268903312, 425206323, 1851724453, 4149625631, 2152821641, 284061208,
    1743347342]"
  unfolding tails_1 by simp

lemma unat_disjoint:
  "\<forall>x \<in> set (List.map unat (tails (fold crc_byte ''node_0_'' 0xFFFFFFFF))).
     x \<notin> set (List.map unat (tails (fold crc_byte ''node_1_'' 0xFFFFFFFF)))"
  unfolding unat_tails_0 unat_tails_1 by simp

lemma NOT_images_disjoint:
  fixes P Q :: "32 word set"
  assumes "A \<subseteq> NOT ` P" and "B \<subseteq> NOT ` Q" and "P \<inter> Q = {}" shows "A \<inter> B = {}"
proof (rule ccontr)
  assume "A \<inter> B \<noteq> {}"
  then obtain x where "x \<in> A" "x \<in> B" by blast
  then obtain p q where "p \<in> P" "q \<in> Q" "x = NOT p" "x = NOT q" using assms(1,2) by blast
  then have "p \<in> P \<inter> Q" by simp
  with assms(3) show False by simp
qed

lemma points_disjoint: "points {0} \<inter> points {1} = {}"
proof -
  have "digits 0 = ''0''" "digits 1 = ''1''" by (simp_all add: digits.simps char_of_def bit_Suc_0_iff)
  then have "points {0} \<subseteq> NOT ` set (tails (fold crc_byte ''node_0_'' 0xFFFFFFFF))"
    "points {1} \<subseteq> NOT ` set (tails (fold crc_byte ''node_1_'' 0xFFFFFFFF))"
    using points_tails [of 0] points_tails [of 1] by simp_all
  moreover have "set (tails (fold crc_byte ''node_0_'' 0xFFFFFFFF)) \<inter> set (tails (fold crc_byte ''node_1_'' 0xFFFFFFFF)) = {}"
    using unat_disjoint by (auto simp: in_set_conv_nth)
  ultimately show ?thesis by (rule NOT_images_disjoint)
qed

lemma no_collision_01: "no_collision {0, 1}"
  using points_disjoint by (auto simp: no_collision_def)

section \<open>Witnesses\<close>

definition twoPods :: NodeManager where
  "twoPods = RegisterNode 1 ''pod-1'' 11 (RegisterNode 0 ''pod-0'' 10 Mgr_init)"

lemma ring_wf_one: "ring_wf (RegisterNode 0 ''pod-0'' 10 Mgr_init)"
  by (intro ring_wf_Register ring_wf_init)

lemma twoPods_wf: "ring_wf twoPods"
  unfolding twoPods_def by (intro ring_wf_Register ring_wf_init)

lemma twoPods_nodes: "dom (map_of (Nodes twoPods)) = {0, 1}"
  by (auto simp: twoPods_def Nodes_Register Mgr_init_def split: if_splits)

lemma twoPods_owner: "\<exists>nd. GetNodeByRoomID twoPods r = Inr (Some nd) \<and> node_ID nd \<in> {0, 1}"
proof -
  have "Nodes twoPods \<noteq> []" by (simp add: twoPods_def Nodes_Register Mgr_init_def)
  from GetNodeByRoomID_owner [OF twoPods_wf this, of r] obtain n nd
    where "map_of (Nodes twoPods) n = Some nd" "GetNodeByRoomID twoPods r = Inr (Some nd)" "node_ID nd = n" by metis
  then show ?thesis using twoPods_nodes by blast
qed

theorem lookup_is_successor_witness:
  "\<exists>n nd. GetNodeByRoomID twoPods ''room'' = Inr (Some nd) \<and> map_of (Nodes twoPods) n = Some nd
    \<and> ring_succ (points {0, 1}) (ChecksumIEEE ''room'') \<in> points {n}"
  using lookup_is_successor [OF twoPods_wf, of "''room''"] twoPods_nodes
  by (simp add: twoPods_def Nodes_Register Mgr_init_def)

theorem removal_moves_only_its_rooms_witness:
  "\<exists>nd. GetNodeByRoomID twoPods ''room'' = Inr (Some nd)
    \<and> GetNodeByRoomID (RemoveNode (1 - node_ID nd) twoPods) ''room'' = Inr (Some nd)"
proof -
  obtain nd where nd: "GetNodeByRoomID twoPods ''room'' = Inr (Some nd)" "node_ID nd \<in> {0, 1}"
    using twoPods_owner by blast
  have "GetNodeByRoomID (RemoveNode (1 - node_ID nd) twoPods) ''room'' = Inr (Some nd)"
    by (rule removal_moves_only_its_rooms [OF twoPods_wf _ nd(1)]) (use nd(2) in \<open>auto simp: twoPods_nodes no_collision_01\<close>)
  with nd show ?thesis by blast
qed

text \<open>A room whose hash is a point of pod 0 is served by pod 0.\<close>

lemma ring_succ_self: "finite P \<Longrightarrow> h \<in> P \<Longrightarrow> ring_succ P h = h"
proof -
  assume "finite P" "h \<in> P"
  then have "Min {p \<in> P. h \<le> p} = h" by (intro Min_eqI) auto
  with \<open>h \<in> P\<close> show ?thesis by (auto simp: ring_succ_def)
qed

lemma served_by_0: "\<exists>nd. GetNodeByRoomID twoPods ''node_0_5'' = Inr (Some nd) \<and> node_ID nd = 0"
proof -
  let ?h = "ChecksumIEEE ''node_0_5''"
  have "virtualPoint 0 5 = ?h" by (simp add: virtualPoint_def Itoa_def digits.simps char_of_def bit_Suc_0_iff)
  moreover have "virtualPoint 0 5 \<in> points {0}" unfolding points_def by fastforce
  ultimately have h: "?h \<in> points {0}" by simp
  then have "?h \<in> set (Ring twoPods)" unfolding ring_wf_set [OF twoPods_wf] twoPods_nodes by (auto simp: points_def)
  then have succ: "ring_succ (set (Ring twoPods)) ?h = ?h" by (intro ring_succ_self) auto
  have "Nodes twoPods \<noteq> []" by (simp add: twoPods_def Nodes_Register Mgr_init_def)
  from GetNodeByRoomID_owner [OF twoPods_wf this, of "''node_0_5''"] obtain n nd
    where nd: "map_of (Nodes twoPods) n = Some nd" "GetNodeByRoomID twoPods ''node_0_5'' = Inr (Some nd)"
      "?h \<in> points {n}" "node_ID nd = n" unfolding succ by metis
  have "n \<in> {0, 1}" using nd(1) twoPods_nodes by blast
  moreover have "n \<noteq> 1" using nd(3) h points_disjoint by blast
  ultimately show ?thesis using nd by auto
qed

theorem registration_moves_only_to_the_new_node_witness:
  "\<exists>nd. GetNodeByRoomID twoPods ''node_0_5'' = Inr (Some nd)
    \<and> GetNodeByRoomID (RegisterNode 0 ''pod-0'' 10 Mgr_init) ''node_0_5'' = Inr (Some nd)"
proof -
  obtain nd where nd: "GetNodeByRoomID twoPods ''node_0_5'' = Inr (Some nd)" "node_ID nd = 0"
    using served_by_0 by blast
  have "no_collision (insert 1 (dom (map_of (Nodes (RegisterNode 0 ''pod-0'' 10 Mgr_init)))))"
    using no_collision_01 by (simp add: Nodes_Register Mgr_init_def insert_commute)
  from registration_moves_only_to_the_new_node [OF ring_wf_one this nd(1) [unfolded twoPods_def]] nd show ?thesis by auto
qed

end
