(* ===== verification/Examples.thy ===== *)
theory Examples
  imports Lobby Lifecycle Answers Config Selection GameProps RingProps "HOL-Library.List_Lexorder"
begin

text \<open>
  A small concrete world, and on it one instance of every property that has hypotheses: the
  hypotheses hold there, and the property says what its \<open>_witness\<close> states. Redis is a map, the
  engine answers every call with code 0, and the state of the world counts the calls.
\<close>

section \<open>The outside world\<close>

type_synonym demo = "nat \<times> (string \<Rightarrow> rtext option)"

definition okResp :: RPCResponse where
  "okResp = \<lparr>resp_Code = 0, resp_Message = ''ok''\<rparr>"

definition demoParse :: "string \<Rightarrow> json option" where
  "demoParse p = (if p = ''null action''
     then Some (JObj [(''cmd'', JStr ''battle_action''), (''data'', JNull)])
     else if p = ''create'' then Some (JObj [(''cmd'', JStr ''create_room'')])
     else None)"

definition demo :: "demo ext" where
  "demo = \<lparr>x_parse = demoParse, x_now = (\<lambda>w. int (fst w)),
     x_rand = (\<lambda>w. (Some (''room000'' @ [if fst w = 0 then CHR ''0'' else if fst w = 1 then CHR ''1'' else CHR ''2'']),
       (Suc (fst w), snd w))),
     x_env = (\<lambda>_. []), x_dial = (\<lambda>a w. (Inl (EEngine ENoNodes), w)), x_close = (\<lambda>c w. w),
     x_CreateRoom = (\<lambda>c i j w. (Inr okResp, w)), x_SendCommand = (\<lambda>c i p j w. (Inr okResp, w)),
     x_DestroyRoom = (\<lambda>c i w. (Inr okResp, w)), x_GetHeartbeat = (\<lambda>c w. (Inl (EEngine ENoNodes), w)),
     x_redis_set = (\<lambda>k t l w. (None, (fst w, (snd w)(k \<mapsto> t)))),
     x_redis_get = (\<lambda>k w. (Inr (snd w k), w)),
     x_redis_del = (\<lambda>k w. (None, (fst w, (snd w)(k := None)))),
     x_redis_scan = (\<lambda>c p n w. (Inr ([], 0), w)), x_redis_ttl = (\<lambda>k w. (- 1, w))\<rparr>"

lemma demo_simps [simp]:
  "x_parse demo = demoParse" "x_now demo w = int (fst w)" "x_env demo k = []" "x_close demo c w = w"
  "x_dial demo a w = (Inl (EEngine ENoNodes), w)" "x_CreateRoom demo c i j w = (Inr okResp, w)"
  "x_SendCommand demo c i p j w = (Inr okResp, w)" "x_DestroyRoom demo c i w = (Inr okResp, w)"
  "x_GetHeartbeat demo c w = (Inl (EEngine ENoNodes), w)" "x_redis_get demo k w = (Inr (snd w k), w)"
  "x_redis_set demo k t l w = (None, (fst w, (snd w)(k \<mapsto> t)))" "x_redis_scan demo cu p n w = (Inr ([], 0), w)"
  "resp_Code okResp = 0" "resp_Message okResp = ''ok''"
  by (simp_all add: demo_def okResp_def)

definition plainFmt :: gofmt where
  "plainFmt = \<lparr>fm_time = jint, fm_error = (\<lambda>_. ''error''), fm_float32 = (\<lambda>_. JNull), fm_seconds = jint\<rparr>"

section \<open>A server with two players in one room\<close>

definition pod :: EngineNode where
  "pod = \<lparr>PodIndex = 0, PodName = ''pokemon-server-0'', Addr = ''pod-0'', Healthy = True, LastError = None,
     LastHeartbeat = 0, ActiveRooms = 1, CPUUsage = F32 20 0, MemoryUsed = 0, MaxCapacity = 10,
     ServerID = ''s1'', nconn = Some 10, nclient = Some 10, reconnecting = False, reconnectFailures = 0,
     lastReconnectFailure = 0\<rparr>"

definition alice :: Session where
  "alice = \<lparr>sPlayer = \<lparr>ID = ''alice'', Username = ''alice''\<rparr>, sRoomID = ''r1'', sConn = Some 0, sSend = [],
     sSelectedPokemon = None\<rparr>"

definition bob :: Session where
  "bob = \<lparr>sPlayer = \<lparr>ID = ''bob'', Username = ''bob''\<rparr>, sRoomID = ''r1'', sConn = None, sSend = [],
     sSelectedPokemon = None\<rparr>"

definition carol :: Session where
  "carol = \<lparr>sPlayer = \<lparr>ID = ''carol'', Username = ''carol''\<rparr>, sRoomID = [], sConn = Some 2, sSend = [],
     sSelectedPokemon = None\<rparr>"

text \<open>Room 0 holds alice and bob in the given status; room 1 is waiting and holds dave alone.\<close>

definition dave :: Session where
  "dave = \<lparr>sPlayer = \<lparr>ID = ''dave'', Username = ''dave''\<rparr>, sRoomID = ''r2'', sConn = Some 3, sSend = [],
     sSelectedPokemon = None\<rparr>"

definition room1 :: "int \<Rightarrow> GameRoom" where
  "room1 st = \<lparr>rID = ''r1'', rSessions = [(''alice'', 0), (''bob'', 1)], rStatus = st, rNodeID = 0,
     rReadyPlayers = [(''alice'', False), (''bob'', True)], rEngineConn = True\<rparr>"

definition room2 :: GameRoom where
  "room2 = \<lparr>rID = ''r2'', rSessions = [(''dave'', 3)], rStatus = RoomWaiting, rNodeID = 7,
     rReadyPlayers = [(''dave'', False)], rEngineConn = True\<rparr>"

definition demoEngine :: EngineInstance where
  "demoEngine = \<lparr>replicas = 1, namespace = ''default'', statefulSetName = ''pokemon-server'',
     headlessServiceName = ''pokemon-server-headless'', maxPodIndex = 0, nodes = [(0, 0)],
     reassignSet = True, ctxDone = False\<rparr>"

definition demoNet :: "demo net" where
  "demoNet = \<lparr>nheap = (\<lambda>_. pod), nnext = 1, eng = demoEngine, Mgr = RegisterNode 0 ''pod-0'' 10 Mgr_init,
     loops = [], world = (0, Map.empty)\<rparr>"

definition srv_of :: "int \<Rightarrow> demo server" where
  "srv_of st = net.extend demoNet (server.fields
     (\<lambda>a. if a = 0 then alice else if a = 1 then bob else if a = 2 then carol else dave) 4
     (\<lambda>r. if r = 0 then room1 st else room2) 2
     [(''r1'', 0), (''r2'', 1)] [(''alice'', 0), (''bob'', 1), (''carol'', 2), (''dave'', 3)]
     True True 3600 [] [])"

lemma srv_simps [simp]:
  "nheap (srv_of st) = (\<lambda>_. pod)" "nnext (srv_of st) = 1" "eng (srv_of st) = demoEngine"
  "Mgr (srv_of st) = RegisterNode 0 ''pod-0'' 10 Mgr_init" "loops (srv_of st) = []" "world (srv_of st) = (0, Map.empty)"
  "sheap (srv_of st) = (\<lambda>a. if a = 0 then alice else if a = 1 then bob else if a = 2 then carol else dave)"
  "snext (srv_of st) = 4" "rheap (srv_of st) = (\<lambda>r. if r = 0 then room1 st else room2)" "rnext (srv_of st) = 2"
  "Rooms (srv_of st) = [(''r1'', 0), (''r2'', 1)]"
  "AllSessions (srv_of st) = [(''alice'', 0), (''bob'', 1), (''carol'', 2), (''dave'', 3)]"
  "rmStore (srv_of st)" "rmEngine (srv_of st)" "storeTTL (srv_of st) = 3600" "MatchQueue (srv_of st) = []"
  "tasks (srv_of st) = []"
  by (simp_all add: srv_of_def demoNet_def net.extend_def server.fields_def)

lemmas players = alice_def bob_def carol_def dave_def

lemma pid_srv [simp]:
  "pid (srv_of st) a = (if a = 0 then ''alice'' else if a = 1 then ''bob'' else if a = 2 then ''carol'' else ''dave'')"
  by (simp add: pid_def players)

lemma getNode_srv [simp]: "getNode (srv_of st) i = (if i = 0 then Some 0 else None)"
  by (simp add: getNode_def demoEngine_def)

lemma srv_engine_wf: "engine_wf (srv_of st)"
proof -
  have "ring_wf (RegisterNode 0 ''pod-0'' 10 Mgr_init)" by (intro ring_wf_Register ring_wf_init)
  then show ?thesis
    by (simp add: engine_wf_def demoEngine_def node_ok_def pod_def isConnected_def ring_entry_def Nodes_Register
        Mgr_init_def Itoa_def digits.simps char_of_def bit_Suc_0_iff)
qed

lemma srv_room_ok: "room_ok (srv_of st) (room1 st)" "room_ok (srv_of st) room2"
  by (auto simp: room_ok_def map_ok_def room1_def room2_def split: if_splits)

lemma srv_server_wf: "server_wf (srv_of st)"
  using srv_room_ok by (auto simp: server_wf_def map_ok_def room1_def room2_def players sendCap_def less_Suc_eq numeral_eq_Suc split: if_splits)

end
