(* ===== verification/RoomWitnesses.thy ===== *)
theory RoomWitnesses
  imports Examples
begin

text \<open>Instances of the properties of rooms, sessions, games and selections.\<close>

lemma srv_space: "length (sSend (sheap (srv_of st) a)) + 2 \<le> sendCap"
  by (simp add: players sendCap_def)

lemma srv_room [simp]: "map_of (Rooms (srv_of st)) i = (if i = ''r1'' then Some 0 else if i = ''r2'' then Some 1 else None)"
  by auto

lemma srv_draws: "distinct (draws demo (world (srv_of st)) (Suc (length (Rooms (srv_of st)))))"
  by (simp add: demo_def generateRoomID_def hexEncode_id)

section \<open>Rooms\<close>


theorem JoinRoom_admits_iff_witness:
  "\<exists>m t. JoinRoom ''r2'' 2 (srv_of 0) = Done (True, m) t \<and> rSessions (rheap t 1) = [(''dave'', 3), (''carol'', 2)]"
proof -
  have may: "may_join ''r2'' 2 (srv_of 0)" by (simp add: may_join_def room2_def MaxPlayersPerRoom_def)
  have "length (sSend (sheap (srv_of 0) 2)) < sendCap" by (simp add: players sendCap_def)
  from JoinRoom_admits_iff [OF this, of "''r2''"] may obtain m t r where "JoinRoom ''r2'' 2 (srv_of 0) = Done (True, m) t"
    "map_of (Rooms (srv_of 0)) ''r2'' = Some r" "rSessions (rheap t r) = rSessions (rheap (srv_of 0) r) @ [(pid (srv_of 0) 2, 2)]"
    by metis
  then show ?thesis by (simp add: room2_def)
qed

theorem LeaveRoom_spec_witness:
  "\<exists>t. LeaveRoom demo ''r1'' 0 (srv_of RoomPlaying) = Done () t \<and> Rooms t = Rooms (srv_of RoomPlaying)
    \<and> map_of (rSessions (rheap t 0)) = [''bob'' \<mapsto> 1] \<and> rStatus (rheap t 0) = RoomFinished"
proof -
  have "\<not> dom (map_of (rSessions (rheap (srv_of RoomPlaying) 0))) \<subseteq> {pid (srv_of RoomPlaying) 0}"
    by (auto simp: room1_def)
  moreover have "(map_of (rSessions (rheap (srv_of RoomPlaying) 0)))(pid (srv_of RoomPlaying) 0 := None) = [''bob'' \<mapsto> 1]"
    by (auto simp: room1_def)
  moreover have "rStatus (rheap (srv_of RoomPlaying) 0) = RoomPlaying" by (simp add: room1_def)
  moreover have "map_of (Rooms (srv_of RoomPlaying)) ''r1'' = Some 0" by simp
  ultimately show ?thesis
    using LeaveRoom_spec [OF srv_server_wf srv_engine_wf, of RoomPlaying "''r1''" 0 demo 0] by metis
qed

theorem BroadcastToRoom_delivery_witness:
  "sSend (sheap (BroadcastToRoom 0 ''hello'' 0 (MRoom RoomFull) JNull (srv_of 0)) 1)
     = [\<lparr>Cmd = ''hello'', Code = 0, Msg = MRoom RoomFull, Data = JNull\<rparr>]
   \<and> sSend (sheap (BroadcastToRoom 0 ''hello'' 0 (MRoom RoomFull) JNull (srv_of 0)) 2) = []"
proof -
  have mem: "member_of (srv_of 0) 0 1" "\<not> member_of (srv_of 0) 0 2" by (simp_all add: member_of_def room1_def)
  have "0 < rnext (srv_of 0)" by simp
  note B = BroadcastToRoom_delivery [OF srv_server_wf this, of "''hello''" 0 "MRoom RoomFull" JNull]
  show ?thesis using B [of 1] B [of 2] mem by (simp add: players sendCap_def)
qed

end
