(* ===== verification/GameWitnesses.thy ===== *)
theory GameWitnesses
  imports Examples
begin

text \<open>Instances of the properties of games, selections, launches and handlers.\<close>

lemma srv_att: "att_inv 0 (srv_of st)"
  using srv_server_wf srv_engine_wf by (simp add: att_inv_def room1_def room2_def)

section \<open>Sides and actions\<close>

lemma srv_side [simp]: "battleSideForPlayer 0 ''alice'' (srv_of st) = Some ''a''"
  by (simp add: battleSideForPlayer_def room1_def mkeys_def Let_def)

theorem battle_sides_agree_witness:
  "\<exists>p q js. p < q \<and> {''alice'', ''bob''} = {p, q} \<and> buildBattleInitJSON ''r1'' [0, 1] (srv_of 1) = Inr js
    \<and> side_name js ''side_a'' = Some p \<and> side_name js ''side_b'' = Some q \<and> battleSideForPlayer 0 q (srv_of 1) = Some ''b''"
proof -
  have len: "length (rSessions (rheap (srv_of 1) 0)) = 2" by (simp add: room1_def)
  have ok: "room_ok (srv_of 1) (rheap (srv_of 1) 0)" using srv_room_ok by simp
  have dom: "dom (map_of (rSessions (rheap (srv_of 1) 0))) = {''alice'', ''bob''}" by (auto simp: room1_def)
  obtain p q js where "p < q" "{''alice'', ''bob''} = {p, q}"
    "buildBattleInitJSON (rID (rheap (srv_of 1) 0)) (List.map snd (rSessions (rheap (srv_of 1) 0))) (srv_of 1) = Inr js"
    "side_name js ''side_a'' = Some p" "side_name js ''side_b'' = Some q"
    "\<forall>x. battleSideForPlayer 0 x (srv_of 1) = (if x = p then Some ''a'' else if x = q then Some ''b'' else None)"
    using battle_sides_agree [OF ok len] unfolding dom by metis
  moreover from this have "q \<noteq> p" by auto
  ultimately show ?thesis by (intro exI [of _ p] exI [of _ q] exI [of _ js]) (simp add: room1_def)
qed

lemma srv_world: "(srv_of st)\<lparr>world := (0, \<lambda>x. None)\<rparr> = srv_of st"
  by (simp add: srv_of_def demoNet_def net.extend_def server.fields_def)


theorem refused_action_witness:
  "forwardBattleAction demo 0 2 RawEmpty (srv_of RoomPlaying)
    = SendResponse 2 ''battle_action_res'' CodePlayerNotInRoom (MBattle NotInThisRoom) JNull (srv_of RoomPlaying)"
  by (rule refused_action) (simp add: action_refusal_def room1_def)

lemma null_message_panics: "panics (Dispatch demo (InitGameRouters demo plainFmt) 0 ''null action'' (srv_of RoomPlaying))"
  by (simp add: Dispatch_def demoParse_def dec_GameRequest_def dec_struct.simps dec_field_def dec_string.simps field_of_def dec_raw_def
      InitGameRouters_def Register_def do_battle_action_def HandleBattleActionAndPersist_def HandleBattleAction_def
      forwardBattleAction_def injectBattleSide_def unmarshal_raw_def json_Valid_def room1_def players Let_def)


section \<open>Starting a game\<close>

lemma srv_node: "GetNodeForRoom (srv_of st) ''r1'' = Inr 0"
  by (simp add: GetNodeForRoom_def pickPreferredNodeForRoom_def snapshotPodIndices_def demoEngine_def mkeys_def
      chooseByHash_def Let_def pod_def snapshot_def effectiveMax_def CppMaxInstance_def notFull_def underLoad_def GetNodeByPodIndex_def)

theorem StartGame_spec_witness:
  "\<exists>t js. StartGame 0 (srv_of RoomWaiting) = Done () t \<and> rStatus (rheap t 0) = RoomPlaying
    \<and> tasks t = [TStart 0 0 js]"
proof -
  have "rEngineConn (rheap (srv_of RoomWaiting) 0)" by (simp add: room1_def)
  from StartGame_spec [OF this] show ?thesis by (auto simp: room1_def srv_node pod_def)
qed

theorem launch_terminates_witness:
  "\<exists>t. runToEnd demo 4 (TStart 0 0 JNull) (srv_of RoomPlaying) = Some (Done () t) \<and> launched 0 (srv_of RoomPlaying) t"
  by (rule launch_terminates [OF srv_engine_wf])

section \<open>Selecting a team\<close>

definition selection :: "json \<Rightarrow> raw" where
  "selection ability = Raw (JObj [(''pokemon'', JArr [JObj [(''ability'', ability)]])])"

lemma selection_request:
  "unmarshal_raw dec_SelectPokemonRequest (selection ability) \<lparr>req_Pokemon = None\<rparr>
    = (\<lparr>req_Pokemon = Some [zero_Pokemon\<lparr>Ability := go_any ability\<rparr>]\<rparr>, True)"
  by (simp add: selection_def unmarshal_raw_def dec_SelectPokemonRequest_def dec_struct.simps dec_field_def dec_slice.simps field_of_def
      dec_Pokemon_def dec_any_def)

theorem selection_starts_game_witness:
  "\<exists>v. HandleSelectPokemon 0 0 (selection (jint 7)) (srv_of RoomWaiting) = StartGame 0 v
    \<and> sSelectedPokemon (sheap v 0) = Some [chosen (zero_Pokemon\<lparr>Ability := jint 7\<rparr>)]"
proof -
  let ?s = "srv_of RoomWaiting" and ?p = "zero_Pokemon\<lparr>Ability := jint 7\<rparr>"
  have h: "room_ok ?s (rheap ?s 0)" "map_of (rSessions (rheap ?s 0)) (pid ?s 0) \<noteq> None" "rStatus (rheap ?s 0) = RoomWaiting"
    "length (sSend (sheap ?s 0)) < sendCap" using srv_room_ok by (simp_all add: room1_def players sendCap_def)
  have req: "unmarshal_raw dec_SelectPokemonRequest (selection (jint 7)) \<lparr>req_Pokemon = None\<rparr> = (\<lparr>req_Pokemon = Some [?p]\<rparr>, True)"
    by (simp add: selection_request jint_def)
  have ready: "\<forall>q \<in> dom (map_of (rSessions (rheap ?s 0))). q \<noteq> pid ?s 0 \<longrightarrow> map_of (rReadyPlayers (rheap ?s 0)) q = Some True"
    and two: "length (rSessions (rheap ?s 0)) = 2" by (auto simp: room1_def)
  have ability: "length [?p] \<le> 6" "\<forall>p \<in> set [?p]. as_float64 (Ability p) \<noteq> None" by (simp_all add: jint_def as_float64.simps)
  from selection_starts_game [OF h req ability] ready two show ?thesis by auto
qed

section \<open>Handlers\<close>

theorem takeover_keeps_session_witness:
  "\<exists>t. HandleWS_open ''alice'' 9 (srv_of 0) = Done (0, True) t \<and> sConn (sheap t 0) = Some 9
    \<and> HandleWS_close 0 5 t = (False, t)"
proof -
  have o: "HandleWS_open ''alice'' 9 (srv_of 0) = Done (0, True) (upd_sess 0 (\<lambda>n. n\<lparr>sConn := Some 9\<rparr>) (srv_of 0))"
    by (simp add: HandleWS_open_def FindSession_def players Let_def)
  have "FindSession ''alice'' (srv_of 0) = Some 0" by (simp add: FindSession_def)
  from takeover_keeps_session [OF this _ o, of 5] o show ?thesis by auto
qed

end
