(* ===== verification/EngineWitnesses.thy ===== *)
theory EngineWitnesses
  imports Examples
begin

text \<open>Instances of the properties of the engine, the failover, Redis and the whole server.\<close>

section \<open>Choosing a node\<close>

lemma srv_preferred: "pickPreferredNodeForRoom (srv_of st) i = Some 0"
  by (simp add: pickPreferredNodeForRoom_def snapshotPodIndices_def demoEngine_def mkeys_def chooseByHash_def Let_def
      pod_def snapshot_def effectiveMax_def CppMaxInstance_def notFull_def underLoad_def GetNodeByPodIndex_def)

theorem preferred_node_is_eligible_witness: "\<exists>i. getNode (srv_of 0) i = Some 0 \<and> eligible (nheap (srv_of 0) 0)"
  using preferred_node_is_eligible [OF srv_preferred [of 0 "''r1''"]] by blast

definition noNodes :: "demo server" where
  "noNodes = (srv_of 0)\<lparr>eng := demoEngine\<lparr>nodes := []\<rparr>\<rparr>"

theorem GetNodeForRoom_error_iff_witness: "GetNodeForRoom noNodes ''r1'' = Inl (EEngine (EPodNotFound 0))"
  using GetNodeForRoom_error_iff [of noNodes "''r1''" "EEngine (EPodNotFound 0)"]
  by (simp add: noNodes_def getNode_def demoEngine_def)

definition twoNodes :: "(int \<times> nat) list \<Rightarrow> demo server" where
  "twoNodes ns = (srv_of 0)\<lparr>eng := demoEngine\<lparr>nodes := ns\<rparr>\<rparr>"

theorem GetNodeForRoom_order_independent_witness:
  "GetNodeForRoom (twoNodes [(0, 0), (1, 1)]) ''r1'' = GetNodeForRoom (twoNodes [(1, 1), (0, 0)]) ''r1''"
proof -
  have "twoNodes ns = (twoNodes ms)\<lparr>eng := demoEngine\<lparr>nodes := ns\<rparr>\<rparr>" for ns ms by (simp add: twoNodes_def)
  then show ?thesis
    using GetNodeForRoom_order_independent [of "twoNodes [(1, 1), (0, 0)]" "demoEngine\<lparr>nodes := [(0, 0), (1, 1)]\<rparr>" "''r1''"]
    by (simp add: twoNodes_def map_ok_def add_mset_commute)
qed

theorem second_failure_drops_node_witness:
  "recordReconnectFailure demo (reassignFunc demo) 0 (srv_of 0)
    = Done () (upd_node 0 (incrementReconnectFailures 0) (srv_of 0))"
proof -
  have "0 \<le> reconnectFailures (nheap (srv_of 0) 0)" "getNode (srv_of 0) 0 = Some 0" by (simp_all add: pod_def)
  from second_failure_drops_node [OF srv_engine_wf this(2,1), of demo "reassignFunc demo"] show ?thesis
    by (simp add: Let_def pod_def)
qed

section \<open>Failover\<close>


theorem targetRooms_exact_witness:
  "set (fst (targetRooms demo (GetStatus (srv_of 0)) (List.map snd (Rooms (srv_of 0))) [] (srv_of 0))) = {1}"
proof -
  have "snd (x_redis_get demo k v) = v" for k v by simp
  from targetRooms_exact [OF srv_engine_wf this] show ?thesis
    by (auto simp: room1_def room2_def pod_def restarted_def LoadRoomSnapshot_def)
qed

section \<open>Redis\<close>

definition snap :: RoomSnapshot where
  "snap = \<lparr>sn_RoomID = ''r1'', sn_Status = RoomPlaying, sn_NodeID = 0, sn_ServerID = ''s1'',
     sn_Players = Some [''alice'', ''bob''], sn_ReadyPlayers = Some [(''bob'', True), (''alice'', True)],
     sn_SelectedPokemon = None, sn_UpdatedAt = 5\<rparr>"

lemma demo_redis_ok: "redis_ok demo"
  by (simp add: redis_ok_def)




section \<open>The whole server\<close>

definition demoStart :: "demo net" where
  "demoStart = demoNet\<lparr>eng := demoEngine\<lparr>nodes := []\<rparr>, Mgr := Mgr_init\<rparr>"

lemma demo_restorable: "restorable demo w"
  by (simp add: restorable_def ListRoomSnapshots_def scanRooms.simps)

lemma demo_start_net: "NewEngineInstance demo demoStart = demoStart\<lparr>eng := initEngine demo\<rparr>"
proof -
  let ?s = "demoStart\<lparr>eng := initEngine demo\<rparr>"
  have "fold (\<lambda>i t. snd (connectAndRegisterPod demo i (buildPodDNSAddr demo (eng t) i) t)) is' ?s = ?s" for is'
    by (induction is') (simp_all add: connectAndRegisterPod_def)
  then show ?thesis by (simp add: NewEngineInstance_def Let_def)
qed

lemma demo_start_server:
  "srv (startServer demo 3600 demoStart) = SetReassignRoomsFunc (NewRoomManager True True 3600 (demoStart\<lparr>eng := initEngine demo\<rparr>))"
proof -
  let ?s = "NewRoomManager True True 3600 (demoStart\<lparr>eng := initEngine demo\<rparr>)"
  have w: "?s\<lparr>world := (0, Map.empty)\<rparr> = ?s" "world ?s = (0, Map.empty)" "rmStore ?s" "rmEngine ?s" "nodes (eng ?s) = []"
    by (simp_all add: NewRoomManager_def demoStart_def demoNet_def net.extend_def server.fields_def initEngine_def Let_def)
  have "healthyPods (GetStatus ?s) = []"
    by (simp add: healthyPods_def GetStatus_def snapshotPodIndices_def w mkeys_def Let_def)
  then have "RestoreFromStore demo 0 ?s = Done None ?s"
    by (simp add: RestoreFromStore_def ListRoomSnapshots_def scanRooms.simps w Let_def
        ReassignRunningRoomsFromUnavailableNodes_def)
  then show ?thesis by (simp add: startServer_def initRoomManager_def demo_start_net)
qed

lemma demo_idle: "AllSessions (srv (startServer demo 3600 demoStart)) = []" "snext (srv (startServer demo 3600 demoStart)) = 0"
  "Rooms (srv (startServer demo 3600 demoStart)) = []" "rnext (srv (startServer demo 3600 demoStart)) = 0"
  "world (srv (startServer demo 3600 demoStart)) = (0, Map.empty)"
  "\<not> crashed (startServer demo 3600 demoStart)" "links (startServer demo 3600 demoStart) = []"
  "pumps (startServer demo 3600 demoStart) = []"
  by (simp_all add: demo_start_server SetReassignRoomsFunc_def NewRoomManager_def net.extend_def server.fields_def)
    (simp_all add: startServer_def Let_def demoStart_def demoNet_def)

text \<open>A player connects.\<close>

definition erinSrv :: "demo server" where
  "erinSrv = (let s = srv (startServer demo 3600 demoStart) in RegisterSession ''erin'' 0
     (s\<lparr>sheap := (sheap s)(0 := NewSession \<lparr>ID = ''erin'', Username = []\<rparr> (Some 0)), snext := 1\<rparr>))"

definition erinSys :: "demo system" where
  "erinSys = (startServer demo 3600 demoStart)\<lparr>srv := erinSrv, links := [(0, 0)], pumps := [(0, 0)], syncs := []\<rparr>"

lemma erin_simps [simp]: "Rooms erinSrv = []" "rnext erinSrv = 0" "world erinSrv = (0, Map.empty)" "pid erinSrv 0 = ''erin''"
  "map_of (AllSessions erinSrv) ''erin'' = Some 0" "sSend (sheap erinSrv 0) = []"
  by (simp_all add: erinSrv_def RegisterSession_def Let_def demo_idle pid_def NewSession_def)

lemma demo_connected: "reachable demo F 3600 demoStart erinSys"
proof (rule stepped [OF started])
  let ?y = "startServer demo 3600 demoStart"
  have t: "HandleWS_open ''erin'' 0 (srv ?y) = Done (0, False) erinSrv"
    by (simp add: HandleWS_open_def FindSession_def Let_def erinSrv_def demo_idle)
  have eq: "erinSys = ?y\<lparr>srv := erinSrv, links := (0, 0) # links ?y, pumps := (0, 0) # pumps ?y,
      syncs := (if False then 0 # syncs ?y else syncs ?y)\<rparr>"
    by (simp add: erinSys_def demo_idle startServer_def Let_def)
  show "step demo F ?y erinSys"
    unfolding eq by (rule connect [OF _ _ _ _ t]) (simp_all add: demo_idle)
qed

text \<open>She creates a room.\<close>

lemma erin_creates:
  "\<exists>t i. Dispatch demo (InitGameRouters demo F) 0 ''create'' erinSrv = Done () t \<and> Rooms t = [(i, 0)]
    \<and> rSessions (rheap t 0) = [(''erin'', 0)]"
proof -
  have fresh: "\<exists>i w. freshRoomID demo [] (0, Map.empty) = Some (i, w)"
    by (cases "generateRoomID demo (0, Map.empty)") (simp add: freshRoomID.simps)
  then obtain i w where i: "freshRoomID demo [] (0, Map.empty) = Some (i, w)" by blast
  have create: "Dispatch demo (InitGameRouters demo F) 0 ''create'' erinSrv = andthen (CreateRoom demo 0 erinSrv) (\<lambda>_ s1. Done () s1)"
    by (simp add: Dispatch_def demoParse_def dec_GameRequest_def dec_struct.simps dec_field_def dec_string.simps field_of_def
        InitGameRouters_def Register_def do_create_room_def)
  show ?thesis unfolding create
    by (simp add: CreateRoom_def i Let_def SendResponse_def enterRoom_def new_room_def sendCap_def
        pid_def erin_simps(4) [unfolded pid_def])
qed

lemma erin_has_room:
  "\<exists>z i. reachable demo F 3600 demoStart z \<and> step demo F erinSys z \<and> Rooms (srv z) = [(i, 0)]
    \<and> rSessions (rheap (srv z) 0) = [(''erin'', 0)]"
proof -
  obtain t i where t: "Dispatch demo (InitGameRouters demo F) 0 ''create'' (srv erinSys) = Done () t" "Rooms t = [(i, 0)]"
    "rSessions (rheap t 0) = [(''erin'', 0)]"
    using erin_creates [of F] by (auto simp: erinSys_def)
  have "step demo F erinSys (erinSys\<lparr>srv := t\<rparr>)"
    by (rule message [OF _ _ t(1)]) (simp_all add: erinSys_def demo_idle)
  with stepped [OF demo_connected this] t(2,3) show ?thesis by force
qed

lemma demo_hyps: "Mgr demoStart = Mgr_init" "restorable demo (world (NewEngineInstance demo demoStart))"
  by (simp_all add: demoStart_def demo_restorable)






lemma srv_all_inv: "all_inv 0 (srv_of st)"
  using srv_server_wf srv_engine_wf
  by (simp add: all_inv_def cap_inv_def occ_inv_def att_inv_def at_most_two_def no_empty_room_def room1_def room2_def MaxPlayersPerRoom_def)

text \<open>Alice and bob are both offline in the middle of a game.\<close>

definition gone :: "demo server" where
  "gone = upd_sess 0 (\<lambda>n. n\<lparr>sConn := None\<rparr>) (srv_of RoomPlaying)"

theorem abandoned_room_is_destroyed_witness:
  "\<exists>t. foreach [''bob'', ''alice''] (CleanUpIfStillOffline demo) gone = Done () t
    \<and> map_of (Rooms t) = [''r2'' \<mapsto> 1] \<and> map_of (AllSessions t) ''alice'' = None"
proof -
  have inv: "all_inv 0 gone"
    unfolding gone_def by (rule all_quiet [OF srv_all_inv]) (rule quiet_upd_sess, simp)
  then have wf: "server_wf gone" "engine_wf gone" "no_empty_room gone" by (simp_all add: all_inv_def cap_inv_def occ_inv_def)
  have r: "map_of (Rooms gone) ''r1'' = Some 0" by (simp add: gone_def)
  have ab: "abandoned ''r1'' 0 gone" by (simp add: abandoned_def gone_def room1_def players)
  have ps: "set [''bob'', ''alice''] = dom (map_of (rSessions (rheap gone 0)))" by (auto simp: gone_def room1_def)
  have rest: "(map_of (Rooms gone))(''r1'' := None) = [''r2'' \<mapsto> 1]" by (auto simp: gone_def)
  show ?thesis
    using abandoned_room_is_destroyed [OF wf r _ ab _ ps, of demo] rest by auto
qed

definition stale :: "demo system" where
  "stale = \<lparr>srv = (deleteNode demo 0 (srv_of RoomPlaying))\<lparr>tasks := [TStartTry 0 0 JNull 2]\<rparr>, links = [], pumps = [],
     timers = [], syncs = [], matching = True, crashed = False\<rparr>"

lemma stale_client: "nclient (nheap (srv stale) 0) = None"
  using deleteNode_closes [of "srv_of RoomPlaying" 0 0 demo] by (simp add: stale_def)

lemma stale_ok: "sys_ok stale"
proof -
  let ?s = "deleteNode demo 0 (srv_of RoomPlaying)"
  have "all_inv 0 ?s" by (rule all_engine [OF srv_all_inv]) (simp_all add: engine_wf_delete [OF srv_engine_wf])
  then have "all_inv 0 (?s\<lparr>tasks := ts\<rparr>)" for ts by (rule all_quiet) simp
  then show ?thesis by (simp add: stale_def sys_ok_def links_ok_def)
qed

lemma stale_crashes: "step demo F stale (stale\<lparr>srv := (srv stale)\<lparr>tasks := []\<rparr>, crashed := True\<rparr>)"
proof -
  have "runTask demo (TStartTry 0 0 JNull 2) ((srv stale)\<lparr>tasks := [] @ []\<rparr>) = Stop Panicked ((srv stale)\<lparr>tasks := []\<rparr>)"
    using stale_client by (simp add: runTask_def runStartTry_def)
  from background_stop [OF _ _ this] show ?thesis by (simp add: stale_def)
qed



end
