(* ===== verification/Goroutine.thy ===== *)
theory Goroutine
  imports Prelude
begin

text \<open>
  Goroutines that share memory and locks, for any state \<open>'s\<close> and any family \<open>'l\<close> of locks. A
  program is a tree of the points at which other goroutines can run: an access to shared memory
  (which can be guarded, as a channel operation is), taking a lock, giving one back. Any number of
  goroutines runs in any interleaving.

  Three theorems hold for every program that keeps its part: an invariant survives every
  interleaving if each access keeps it, relying on the locks it holds; goroutines that take locks
  in an order cannot deadlock; and a goroutine that runs alone does what \<open>seq\<close> says.
\<close>

section \<open>Programs\<close>

datatype 'l hold = Reading 'l | Writing 'l

primrec lk :: "'l hold \<Rightarrow> 'l" where
  "lk (Reading l) = l"
| "lk (Writing l) = l"

definition conflict :: "'l hold \<Rightarrow> 'l hold \<Rightarrow> bool" where
  "conflict g h \<longleftrightarrow> lk g = lk h \<and> (g = Writing (lk g) \<or> h = Writing (lk h))"

datatype ('l, 's) prog =
    Ret
  | Panic
  | Spin
  | Act "'s \<Rightarrow> bool" "'s \<Rightarrow> 's" "'s \<Rightarrow> ('l, 's) prog"
  | Acquire "'l hold" "('l, 's) prog"
  | Release "'l hold" "('l, 's) prog"

text \<open>Read and go on; write and go on.\<close>

definition look :: "('s \<Rightarrow> ('l, 's) prog) \<Rightarrow> ('l, 's) prog" where
  "look k = Act (\<lambda>_. True) id k"

definition upd :: "('s \<Rightarrow> 's) \<Rightarrow> ('l, 's) prog \<Rightarrow> ('l, 's) prog" where
  "upd u p = Act (\<lambda>_. True) u (\<lambda>_. p)"

section \<open>Alone\<close>

primrec seq :: "('l, 's) prog \<Rightarrow> 's \<Rightarrow> (unit, 's) exec" where
  "seq Ret s = Done () s"
| "seq Panic s = Stop Panicked s"
| "seq Spin s = Stop Diverged s"
| "seq (Act g u k) s = (if g s then seq (k s) (u s) else Stop Blocked s)"
| "seq (Acquire h p) s = seq p s"
| "seq (Release h p) s = seq p s"

lemma seq_look [simp]: "seq (look k) s = seq (k s) s"
  and seq_upd [simp]: "seq (upd u p) s = seq p (u s)"
  by (simp_all add: look_def upd_def)

section \<open>Together\<close>

text \<open>A goroutine is the locks it holds and the rest of its program; a configuration is the shared
  state and the goroutines. A lock is free if no goroutine holds it in a conflicting way.\<close>

type_synonym ('l, 's) routine = "'l hold list \<times> ('l, 's) prog"
type_synonym ('l, 's) conf = "'s \<times> ('l, 's) routine list"

definition avail :: "'l hold \<Rightarrow> ('l, 's) routine list \<Rightarrow> bool" where
  "avail h ts \<longleftrightarrow> (\<forall>t \<in> set ts. \<forall>g \<in> set (fst t). \<not> conflict g h)"

inductive moves :: "nat \<Rightarrow> ('l, 's) conf \<Rightarrow> ('l, 's) conf \<Rightarrow> bool" where
  act: "i < length ts \<Longrightarrow> ts ! i = (H, Act g u k) \<Longrightarrow> g s \<Longrightarrow> moves i (s, ts) (u s, ts[i := (H, k s)])"
| acquire: "i < length ts \<Longrightarrow> ts ! i = (H, Acquire h p) \<Longrightarrow> avail h ts \<Longrightarrow> moves i (s, ts) (s, ts[i := (h # H, p)])"
| release: "i < length ts \<Longrightarrow> ts ! i = (H, Release h p) \<Longrightarrow> moves i (s, ts) (s, ts[i := (remove1 h H, p)])"
| spin: "i < length ts \<Longrightarrow> ts ! i = (H, Spin) \<Longrightarrow> moves i (s, ts) (s, ts)"

inductive_cases movesE: "moves i c d"
inductive_simps moves_simps: "moves i (s, ts) d"

text \<open>\<open>start s s' p\<close>: from \<open>s\<close> the surroundings can change the state to \<open>s'\<close> and start a goroutine
  with program \<open>p\<close>.\<close>

inductive csteps :: "('s \<Rightarrow> 's \<Rightarrow> ('l, 's) prog \<Rightarrow> bool) \<Rightarrow> ('l, 's) conf \<Rightarrow> ('l, 's) conf \<Rightarrow> bool" for start where
  idle: "csteps start c c"
| run: "csteps start c d \<Longrightarrow> moves i d e \<Longrightarrow> csteps start c e"
| go: "csteps start c (s, ts) \<Longrightarrow> start s s' p \<Longrightarrow> csteps start c (s', ts @ [([], p)])"

text \<open>A schedule as a list of goroutine numbers.\<close>

fun turn :: "nat \<Rightarrow> ('l, 's) conf \<Rightarrow> ('l, 's) conf option" where
  "turn i (s, ts) = (if i < length ts then (case ts ! i of
       (H, Act g u k) \<Rightarrow> if g s then Some (u s, ts[i := (H, k s)]) else None
     | (H, Acquire h p) \<Rightarrow> if avail h ts then Some (s, ts[i := (h # H, p)]) else None
     | (H, Release h p) \<Rightarrow> Some (s, ts[i := (remove1 h H, p)])
     | _ \<Rightarrow> None) else None)"

fun schedule :: "nat list \<Rightarrow> ('l, 's) conf \<Rightarrow> ('l, 's) conf option" where
  "schedule [] c = Some c"
| "schedule (i # is) c = (case turn i c of None \<Rightarrow> None | Some d \<Rightarrow> schedule is d)"

lemma turn_moves: "turn i c = Some d \<Longrightarrow> moves i c d"
  by (cases c) (auto split: if_splits prod.splits prog.splits intro: moves.intros)

lemma csteps_trans: "csteps start d e \<Longrightarrow> csteps start c d \<Longrightarrow> csteps start c e"
  by (induction rule: csteps.induct) (auto intro: csteps.intros)

lemma schedule_csteps: "schedule is c = Some d \<Longrightarrow> csteps start c d"
proof (induction "is" arbitrary: c)
  case (Cons i "is")
  then obtain e where "turn i c = Some e" "schedule is e = Some d" by (auto split: option.splits)
  then show ?case using csteps_trans [OF Cons.IH run [OF idle turn_moves]] by blast
qed (simp add: idle)

section \<open>Mutual exclusion\<close>

definition exclusive :: "('l, 's) routine list \<Rightarrow> bool" where
  "exclusive ts \<longleftrightarrow> (\<forall>i j. i < length ts \<longrightarrow> j < length ts \<longrightarrow> i \<noteq> j \<longrightarrow>
     (\<forall>g \<in> set (fst (ts ! i)). \<forall>h \<in> set (fst (ts ! j)). \<not> conflict g h))"

lemma conflict_sym: "conflict g h \<longleftrightarrow> conflict h g"
  by (auto simp: conflict_def)

lemma exclusive_less:
  assumes "exclusive ts" "set H' \<subseteq> set (fst (ts ! i))"
  shows "exclusive (ts[i := (H', p)])"
  unfolding exclusive_def
proof (intro allI impI ballI)
  fix j k g h
  assume jk: "j < length (ts[i := (H', p)])" "k < length (ts[i := (H', p)])" "j \<noteq> k"
    and g: "g \<in> set (fst (ts[i := (H', p)] ! j))" and h: "h \<in> set (fst (ts[i := (H', p)] ! k))"
  have "g \<in> set (fst (ts ! j))" using g jk(1) assms(2) by (cases "j = i") auto
  moreover have "h \<in> set (fst (ts ! k))" using h jk(2) assms(2) by (cases "k = i") auto
  ultimately show "\<not> conflict g h" using assms(1) jk unfolding exclusive_def by simp
qed

lemma exclusive_more:
  assumes x: "exclusive ts" and a: "avail h ts" and i: "ts ! i = (H, q)"
  shows "exclusive (ts[i := (h # H, p)])"
  unfolding exclusive_def
proof (intro allI impI ballI)
  fix j k g g'
  assume jk: "j < length (ts[i := (h # H, p)])" "k < length (ts[i := (h # H, p)])" "j \<noteq> k"
    and g: "g \<in> set (fst (ts[i := (h # H, p)] ! j))" and g': "g' \<in> set (fst (ts[i := (h # H, p)] ! k))"
  have new: "\<not> conflict f h" if "f \<in> set (fst (ts ! n))" "n < length ts" for f n
    using a that unfolding avail_def by (metis nth_mem)
  have old: "\<not> conflict f f'" if "f \<in> set (fst (ts ! m))" "f' \<in> set (fst (ts ! n))" "m < length ts" "n < length ts" "m \<noteq> n" for f f' m n
    using x that unfolding exclusive_def by blast
  consider "j = i" | "k = i" | "j \<noteq> i" "k \<noteq> i" by blast
  then show "\<not> conflict g g'"
  proof cases
    case 1
    then have k: "g' \<in> set (fst (ts ! k))" using g' jk by simp
    from 1 g jk have "g = h \<or> g \<in> set (fst (ts ! i))" using i by auto
    then show ?thesis using new [OF k] old [OF _ k, of g i] conflict_sym jk 1 by auto
  next
    case 2
    then have j: "g \<in> set (fst (ts ! j))" using g jk by simp
    from 2 g' jk have "g' = h \<or> g' \<in> set (fst (ts ! i))" using i by auto
    then show ?thesis using new [OF j] old [OF j, of g' i] jk 2 by auto
  next
    case 3
    then show ?thesis using old g g' jk by simp
  qed
qed

lemma exclusive_new: "exclusive ts \<Longrightarrow> exclusive (ts @ [([], p)])"
  by (auto simp: exclusive_def nth_append)

lemma moves_exclusive: "moves i c d \<Longrightarrow> exclusive (snd c) \<Longrightarrow> exclusive (snd d)"
proof (induction rule: moves.induct)
  case (act i ts H g u k s)
  then show ?case using exclusive_less [of ts H i] by simp
next
  case (acquire i ts H h p s)
  then show ?case using exclusive_more [of ts h i H "Acquire h p" p] by simp
next
  case (release i ts H h p s)
  then show ?case using exclusive_less [of ts "remove1 h H" i] set_remove1_subset [of h H] by simp
qed simp

section \<open>Keeping an invariant\<close>

text \<open>
  A contract between goroutines. It speaks about an extended state \<open>'x\<close>, of which the programs see
  the part \<open>actual\<close>; \<open>track\<close> brings it up to date when they change that part. \<open>Inv\<close> holds at all times;
  \<open>Evo\<close> relates a state to its futures; \<open>Keep l\<close> says that what the lock \<open>l\<close> protects has not changed,
  and \<open>Res l\<close> holds whenever nobody has \<open>l\<close> for writing. A goroutine with the locks \<open>H\<close> relies on \<open>Inv\<close>,
  \<open>Evo\<close> and \<open>Keep l\<close> for its locks; each of its accesses must grant \<open>Inv\<close>, \<open>Evo\<close> and \<open>Keep l\<close> for every
  lock that it does not have for writing, and it must restore \<open>Res l\<close> before it gives \<open>l\<close> back. In
  \<open>safe C p H x\<close>, \<open>x\<close> is the state that the goroutine saw last.
\<close>

record ('l, 's, 'x) contract =
  actual :: "'x \<Rightarrow> 's"
  track :: "'s \<Rightarrow> 'x \<Rightarrow> 'x"
  Inv :: "'x \<Rightarrow> bool"
  Evo :: "'x \<Rightarrow> 'x \<Rightarrow> bool"
  Keep :: "'l \<Rightarrow> 'x \<Rightarrow> 'x \<Rightarrow> bool"
  Res :: "'l \<Rightarrow> 'x \<Rightarrow> bool"

definition rely :: "('l, 's, 'x) contract \<Rightarrow> 'l hold list \<Rightarrow> 'x \<Rightarrow> 'x \<Rightarrow> bool" where
  "rely C H x y \<longleftrightarrow> Inv C y \<and> Evo C x y \<and> (\<forall>h \<in> set H. Keep C (lk h) x y)"

definition guar :: "('l, 's, 'x) contract \<Rightarrow> 'l hold list \<Rightarrow> 'x \<Rightarrow> 'x \<Rightarrow> bool" where
  "guar C H x y \<longleftrightarrow> Inv C y \<and> Evo C x y \<and> (\<forall>l. Writing l \<notin> set H \<longrightarrow> Keep C l x y)"

primrec safe :: "('l, 's, 'x) contract \<Rightarrow> ('l, 's) prog \<Rightarrow> 'l hold list \<Rightarrow> 'x \<Rightarrow> bool" where
  "safe C Ret H x = True"
| "safe C Panic H x = True"
| "safe C Spin H x = True"
| "safe C (Act g u k) H x = (\<forall>y. rely C H x y \<longrightarrow> g (actual C y) \<longrightarrow>
     (let z = track C (u (actual C y)) y in guar C H y z \<and> safe C (k (actual C y)) H z))"
| "safe C (Acquire h p) H x = (\<forall>y. rely C H x y \<longrightarrow> Res C (lk h) y \<longrightarrow> safe C p (h # H) y)"
| "safe C (Release h p) H x = (\<forall>y. rely C H x y \<longrightarrow>
     (h = Writing (lk h) \<longrightarrow> Res C (lk h) y) \<and> safe C p (remove1 h H) y)"

locale rely_guarantee =
  fixes C :: "('l, 's, 'x) contract"
  assumes actual_track: "actual C (track C s x) = s"
    and Evo_refl: "Evo C x x" and Evo_trans: "Evo C x y \<Longrightarrow> Evo C y z \<Longrightarrow> Evo C x z"
    and Keep_refl: "Keep C l x x" and Keep_trans: "Keep C l x y \<Longrightarrow> Keep C l y z \<Longrightarrow> Keep C l x z"
    and Res_Keep: "Res C l x \<Longrightarrow> Keep C l x y \<Longrightarrow> Res C l y"
begin

lemma rely_refl: "Inv C x \<Longrightarrow> rely C H x x"
  by (simp add: rely_def Evo_refl Keep_refl)

lemma rely_trans: "rely C H x y \<Longrightarrow> rely C H y z \<Longrightarrow> rely C H x z"
  unfolding rely_def using Evo_trans Keep_trans by blast

lemma guar_refl: "Inv C x \<Longrightarrow> guar C H x x"
  by (simp add: guar_def Evo_refl Keep_refl)

lemma safe_mono:
  assumes "safe C p H x" and xy: "rely C H x y" shows "safe C p H y"
proof -
  have "rely C H x z" if "rely C H y z" for z by (rule rely_trans [OF xy that])
  with assms(1) show ?thesis by (cases p) simp_all
qed

text \<open>What another goroutine is entitled to after an access of one that excludes it.\<close>

lemma guar_rely:
  assumes "guar C H x y" and "\<And>g h. g \<in> set H \<Longrightarrow> h \<in> set H' \<Longrightarrow> \<not> conflict g h"
  shows "rely C H' x y"
proof -
  have "Writing (lk h) \<notin> set H" if "h \<in> set H'" for h
    using assms(2) [OF _ that, of "Writing (lk h)"] by (auto simp: conflict_def)
  then show ?thesis using assms(1) by (auto simp: rely_def guar_def)
qed

definition unwritten :: "'l \<Rightarrow> ('l, 's) routine list \<Rightarrow> bool" where
  "unwritten l ts \<longleftrightarrow> (\<forall>t \<in> set ts. Writing l \<notin> set (fst t))"

definition fine :: "'x \<Rightarrow> ('l, 's) routine list \<Rightarrow> bool" where
  "fine x ts \<longleftrightarrow> Inv C x \<and> exclusive ts \<and> (\<forall>l. unwritten l ts \<longrightarrow> Res C l x) \<and> (\<forall>t \<in> set ts. safe C (snd t) (fst t) x)"

lemma fine_thread: "fine x ts \<Longrightarrow> i < length ts \<Longrightarrow> ts ! i = (H, p) \<Longrightarrow> safe C p H x"
  using nth_mem [of i ts] by (auto simp: fine_def)

lemma fine_update:
  assumes f: "fine x ts" and i: "i < length ts" and g: "guar C (fst (ts ! i)) x y"
    and p: "safe C p H y" and e: "exclusive (ts[i := (H, p)])"
    and r: "\<And>l. unwritten l (ts[i := (H, p)]) \<Longrightarrow> Res C l y"
  shows "fine y (ts[i := (H, p)])"
proof -
  have "safe C (snd (ts ! j)) (fst (ts ! j)) y" if "j < length ts" "j \<noteq> i" for j
  proof (rule safe_mono)
    show "safe C (snd (ts ! j)) (fst (ts ! j)) x" using f that by (auto simp: fine_def)
    show "rely C (fst (ts ! j)) x y"
      by (rule guar_rely [OF g]) (use f that i in \<open>auto simp: fine_def exclusive_def\<close>)
  qed
  then have "safe C (snd (ts[i := (H, p)] ! j)) (fst (ts[i := (H, p)] ! j)) y" if "j < length ts" for j
    using that p by (cases "j = i") simp_all
  then have "safe C (snd t) (fst t) y" if "t \<in> set (ts[i := (H, p)])" for t
    using that by (metis in_set_conv_nth length_list_update)
  then show ?thesis using g e r by (auto simp: fine_def guar_def)
qed

lemma unwritten_update:
  assumes "unwritten l (ts[i := (H, p)])" "i < length ts" "Writing l \<notin> set (fst (ts ! i))"
  shows "unwritten l ts"
  unfolding unwritten_def
proof
  fix t assume "t \<in> set ts"
  then obtain j where j: "j < length ts" "ts ! j = t" by (auto simp: in_set_conv_nth)
  show "Writing l \<notin> set (fst t)"
  proof (cases "j = i")
    case False
    then have "t \<in> set (ts[i := (H, p)])" using j by (metis length_list_update nth_list_update_neq nth_mem)
    then show ?thesis using assms(1) by (simp add: unwritten_def)
  qed (use assms(3) j in simp)
qed

lemma unwritten_own: "unwritten l (ts[i := (H, p)]) \<Longrightarrow> i < length ts \<Longrightarrow> Writing l \<notin> set H"
  using set_update_memI [of i ts "(H, p)"] by (auto simp: unwritten_def)

lemma moves_fine:
  assumes m: "moves i (s, ts) (s', ts')" and f: "fine x ts" and s: "actual C x = s"
  shows "\<exists>y. fine y ts' \<and> actual C y = s' \<and> guar C (fst (ts ! i)) x y"
proof -
  have I: "Inv C x" and x: "exclusive ts'" and res: "\<And>l. unwritten l ts \<Longrightarrow> Res C l x"
    using f moves_exclusive [OF m] by (auto simp: fine_def)
  from m show ?thesis
  proof (cases rule: moves.cases)
    case (act H g u k)
    define y where "y = track C (u s) x"
    have y: "guar C H x y" "safe C (k s) H y"
      using fine_thread [OF f act(3,4), unfolded safe.simps, rule_format, of x] act(5) rely_refl [OF I, of H] s
      by (simp_all add: y_def Let_def)
    have "Res C l y" if "unwritten l ts'" for l
    proof -
      have w: "Writing l \<notin> set H" using unwritten_own that act by blast
      then have n: "unwritten l ts" using unwritten_update [of l ts i H "k s"] that act by simp
      have "Keep C l x y" using y(1) w by (simp add: guar_def)
      then show ?thesis by (rule Res_Keep [OF res [OF n]])
    qed
    then have "fine y ts'" using fine_update [OF f act(3), of y "k s" H] y x act by simp
    moreover have "actual C y = s'" using act by (simp add: y_def actual_track)
    ultimately show ?thesis using y(1) act by auto
  next
    case (acquire H h p)
    have "conflict (Writing (lk h)) h" by (simp add: conflict_def)
    then have "unwritten (lk h) ts" using acquire(5) unfolding unwritten_def avail_def by blast
    then have p: "safe C p (h # H) x"
      using fine_thread [OF f acquire(3,4)] res rely_refl [OF I, of H] by simp
    have "Res C l x" if "unwritten l ts'" for l
    proof -
      have "Writing l \<notin> set H" using unwritten_own [of l ts i "h # H" p] that acquire by simp
      then show ?thesis using unwritten_update [of l ts i "h # H" p] that acquire res by simp
    qed
    then have "fine x ts'" using fine_update [OF f acquire(3), of x p "h # H"] p x acquire guar_refl [OF I] by simp
    then show ?thesis using s acquire guar_refl [OF I] by auto
  next
    case (release H h p)
    have p: "h = Writing (lk h) \<Longrightarrow> Res C (lk h) x" "safe C p (remove1 h H) x"
      using fine_thread [OF f release(3,4)] rely_refl [OF I, of H] by simp_all
    have "Res C l x" if "unwritten l ts'" for l
    proof (cases "Writing l \<in> set H")
      case True
      have "Writing l \<notin> set (remove1 h H)" using unwritten_own [of l ts i "remove1 h H" p] that release by simp
      then have "h = Writing l" using True by (metis in_set_remove1)
      then show ?thesis using p(1) by simp
    next
      case False
      then show ?thesis using unwritten_update [of l ts i "remove1 h H" p] that release res by simp
    qed
    then have "fine x ts'" using fine_update [OF f release(3), of x p "remove1 h H"] p x release guar_refl [OF I] by simp
    then show ?thesis using s release guar_refl [OF I] by auto
  next
    case spin
    then show ?thesis using f s guar_refl [OF I] by auto
  qed
qed

text \<open>What a lock guards stays as it is while another goroutine moves.\<close>

lemma held_by_others:
  assumes m: "moves i (s, ts) (s', ts')" and f: "fine x ts" and s: "actual C x = s"
    and i: "i < length ts" and j: "j < length ts" "j \<noteq> i" "h \<in> set (fst (ts ! j))"
  shows "\<exists>y. actual C y = s' \<and> Keep C (lk h) x y"
proof -
  obtain y where y: "actual C y = s'" "guar C (fst (ts ! i)) x y" using moves_fine [OF m f s] by blast
  have "rely C (fst (ts ! j)) x y"
    by (rule guar_rely [OF y(2)]) (use f i j in \<open>auto simp: fine_def exclusive_def\<close>)
  then show ?thesis using y(1) j(3) by (auto simp: rely_def)
qed

end

locale guarded = rely_guarantee C
  for C :: "('l, 's, 'x) contract" +
  fixes start :: "'s \<Rightarrow> 's \<Rightarrow> ('l, 's) prog \<Rightarrow> bool"
  assumes start_guar: "start (actual C x) s p \<Longrightarrow> Inv C x \<Longrightarrow> guar C [] x (track C s x)"
    and start_safe: "start (actual C x) s p \<Longrightarrow> Inv C x \<Longrightarrow> safe C p [] (track C s x)"
begin

lemma go_fine:
  assumes f: "fine x ts" and st: "start (actual C x) s p"
  shows "fine (track C s x) (ts @ [([], p)])"
proof -
  have I: "Inv C x" and e: "exclusive ts" and r: "\<And>l. unwritten l ts \<Longrightarrow> Res C l x"
    and sf: "\<And>t. t \<in> set ts \<Longrightarrow> safe C (snd t) (fst t) x"
    using f by (auto simp: fine_def)
  have g: "guar C [] x (track C s x)" by (rule start_guar [OF st I])
  have "safe C (snd t) (fst t) (track C s x)" if "t \<in> set ts" for t
    by (rule safe_mono [OF sf [OF that] guar_rely [OF g]]) simp
  moreover have "Res C l (track C s x)" if "unwritten l (ts @ [([], p)])" for l
  proof -
    have "unwritten l ts" using that by (simp add: unwritten_def)
    moreover have "Keep C l x (track C s x)" using g by (simp add: guar_def)
    ultimately show ?thesis using Res_Keep r by blast
  qed
  ultimately show ?thesis using start_safe [OF st I] exclusive_new [OF e] g by (auto simp: fine_def guar_def)
qed

lemma csteps_fine:
  assumes "csteps start c d" and "fine x (snd c)" "actual C x = fst c"
  shows "\<exists>y. fine y (snd d) \<and> actual C y = fst d \<and> Evo C x y"
  using assms
proof (induction rule: csteps.induct)
  case (idle c)
  then show ?case using Evo_refl by blast
next
  case (run c d i e)
  then obtain y where y: "fine y (snd d)" "actual C y = fst d" "Evo C x y" by blast
  from run.hyps(2) have "moves i (fst d, snd d) (fst e, snd e)" by simp
  then obtain z where "fine z (snd e)" "actual C z = fst e" "guar C (fst (snd d ! i)) y z" using moves_fine y by blast
  then have "fine z (snd e)" "actual C z = fst e" "Evo C y z" by (simp_all add: guar_def)
  then show ?case using Evo_trans y(3) by blast
next
  case (go c s ts s' p)
  then obtain y where y: "fine y ts" "actual C y = s" "Evo C x y" by auto
  then have st: "start (actual C y) s' p" using go.hyps by simp
  have "fine (track C s' y) (ts @ [([], p)])" by (rule go_fine [OF y(1) st])
  moreover have "Evo C y (track C s' y)" using start_guar [OF st] y(1) by (auto simp: fine_def guar_def)
  ultimately show ?case using Evo_trans [OF y(3)] actual_track by auto
qed

theorem csteps_invariant:
  assumes "csteps start (s, []) (t, ts)" and "actual C x = s" "Inv C x" "\<And>l. Res C l x"
  shows "\<exists>y. actual C y = t \<and> Inv C y \<and> Evo C x y"
proof -
  have "fine x []" using assms(3,4) by (simp add: fine_def exclusive_def)
  then show ?thesis using csteps_fine [OF assms(1), of x] assms(2) by (auto simp: fine_def)
qed

theorem csteps_held:
  assumes run: "csteps start (s, []) (t, ts)" and x: "actual C x = s" "Inv C x" "\<And>l. Res C l x"
    and m: "moves i (t, ts) (t', ts')" and j: "j < length ts" "j \<noteq> i" "h \<in> set (fst (ts ! j))"
  shows "\<exists>y z. actual C y = t \<and> actual C z = t' \<and> Keep C (lk h) y z"
proof -
  have "fine x []" using x(2,3) by (simp add: fine_def exclusive_def)
  then obtain y where y: "fine y ts" "actual C y = t" using csteps_fine [OF run, of x] x(1) by auto
  have "i < length ts" using m by cases auto
  then show ?thesis using held_by_others [OF m y _ j] y(2) by blast
qed

text \<open>The surroundings, too.\<close>

theorem start_held: "start (actual C x) s p \<Longrightarrow> Inv C x \<Longrightarrow> Keep C l x (track C s x)"
  using start_guar by (simp add: guar_def)

end

section \<open>No deadlock\<close>

text \<open>Locks are taken in the order of their rank, only held ones are given back, and a goroutine
  ends, also by a panic, without a lock.\<close>

primrec disciplined :: "('l \<Rightarrow> nat) \<Rightarrow> ('l, 's) prog \<Rightarrow> 'l hold list \<Rightarrow> bool" where
  "disciplined rank Ret H = (H = [])"
| "disciplined rank Panic H = (H = [])"
| "disciplined rank Spin H = True"
| "disciplined rank (Act g u k) H = (\<forall>s. disciplined rank (k s) H)"
| "disciplined rank (Acquire h p) H = ((\<forall>g \<in> set H. rank (lk g) < rank (lk h)) \<and> disciplined rank p (h # H))"
| "disciplined rank (Release h p) H = (h \<in> set H \<and> disciplined rank p (remove1 h H))"

lemma disciplined_look [simp]: "disciplined rank (look k) H = (\<forall>s. disciplined rank (k s) H)"
  and disciplined_upd [simp]: "disciplined rank (upd u p) H = disciplined rank p H"
  by (simp_all add: look_def upd_def)

text \<open>A goroutine that is alone gets every lock, and gets where \<open>seq\<close> says.\<close>

lemma lone_avail:
  fixes rank :: "'l \<Rightarrow> nat"
  assumes "\<forall>g \<in> set H. rank (lk g) < rank (lk h)"
  shows "avail h [(H, p)]"
proof -
  have "lk g \<noteq> lk h" if "g \<in> set H" for g using bspec [OF assms that] by auto
  then show ?thesis by (auto simp: avail_def conflict_def)
qed

lemma lone_run:
  "disciplined rank p H \<Longrightarrow> seq p s = Done () t \<Longrightarrow> csteps start (s, [(H, p)]) (t, [([], Ret)])"
proof (induction p arbitrary: H s)
  case Ret
  then show ?case by (simp add: idle)
next
  case (Act g u k)
  have g: "g s" using Act.prems(2) by (cases "g s") simp_all
  then have k: "seq (k s) (u s) = Done () t" using Act.prems(2) by simp
  have "moves 0 (s, [(H, Act g u k)]) (u s, [(H, Act g u k)][0 := (H, k s)])" by (rule moves.act [where g = g and u = u and k = k and H = H]) (simp_all add: g)
  from run [OF idle [of start] this] have "csteps start (s, [(H, Act g u k)]) (u s, [(H, k s)])" by simp
  moreover have "csteps start (u s, [(H, k s)]) (t, [([], Ret)])"
    using Act.IH [of "k s" H "u s"] Act.prems(1) k by simp
  ultimately show ?case using csteps_trans by blast
next
  case (Acquire h p)
  have "moves 0 (s, [(H, Acquire h p)]) (s, [(H, Acquire h p)][0 := (h # H, p)])"
    using Acquire.prems(1) lone_avail [of H rank h] by (intro moves.acquire) auto
  from run [OF idle [of start] this] have "csteps start (s, [(H, Acquire h p)]) (s, [(h # H, p)])" by simp
  then show ?case using Acquire.IH [of "h # H" s] Acquire.prems csteps_trans [of start] by simp
next
  case (Release h p)
  have "moves 0 (s, [(H, Release h p)]) (s, [(H, Release h p)][0 := (remove1 h H, p)])"
    by (rule moves.release) simp_all
  from run [OF idle [of start] this] have "csteps start (s, [(H, Release h p)]) (s, [(remove1 h H, p)])" by simp
  then show ?case using Release.IH [of "remove1 h H" s] Release.prems csteps_trans [of start] by simp
qed simp_all

definition parked :: "'s \<Rightarrow> ('l, 's) prog \<Rightarrow> bool" where
  "parked s p \<longleftrightarrow> (case p of Act g u k \<Rightarrow> \<not> g s | _ \<Rightarrow> False)"

definition waits :: "('l, 's) prog \<Rightarrow> 'l hold \<Rightarrow> bool" where
  "waits p h \<longleftrightarrow> (case p of Acquire g q \<Rightarrow> g = h | _ \<Rightarrow> False)"

definition ended :: "('l, 's) prog \<Rightarrow> bool" where
  "ended p \<longleftrightarrow> p = Ret \<or> p = Panic"

text \<open>A move that also a lock that prefers waiting writers to new readers allows.\<close>

definition fair_move :: "nat \<Rightarrow> ('l, 's) conf \<Rightarrow> bool" where
  "fair_move i c \<longleftrightarrow> (\<exists>d. moves i c d) \<and>
     (\<forall>l. waits (snd (snd c ! i)) (Reading l) \<longrightarrow> (\<forall>t \<in> set (snd c). \<not> waits (snd t) (Writing l)))"

lemma waits_unique: "waits p h1 \<Longrightarrow> waits p h2 \<Longrightarrow> h1 = h2"
  by (simp add: waits_def split: prog.splits)

lemma finite_waits:
  fixes ts :: "('l, 's) routine list"
  shows "finite {h. \<exists>t \<in> set ts. waits (snd t) h}"
proof (rule finite_subset)
  show "{h. \<exists>t \<in> set ts. waits (snd t) h} \<subseteq> (\<Union>t \<in> set ts. {h. waits (snd t) h})" by blast
  have "finite {h. waits p h}" for p :: "('l, 's) prog"
  proof (cases p)
    case (Acquire h q)
    then have "{h. waits p h} = {h}" by (auto simp: waits_def)
    then show ?thesis by simp
  qed (simp_all add: waits_def)
  then show "finite (\<Union>t \<in> set ts. {h. waits (snd t) h})" by simp
qed

locale ordered_locks =
  fixes rank :: "'l \<Rightarrow> nat" and start :: "'s \<Rightarrow> 's \<Rightarrow> ('l, 's) prog \<Rightarrow> bool"
  assumes start_disciplined: "start s s' p \<Longrightarrow> disciplined rank p []"
begin

definition orderly :: "('l, 's) conf \<Rightarrow> bool" where
  "orderly c \<longleftrightarrow> (\<forall>t \<in> set (snd c). disciplined rank (snd t) (fst t))"

lemma moves_orderly: "moves i c d \<Longrightarrow> orderly c \<Longrightarrow> orderly d"
proof (induction rule: moves.induct)
  case (act i ts H g u k s)
  then have "disciplined rank (Act g u k) H" using nth_mem [of i ts] by (auto simp: orderly_def)
  then show ?case using act by (auto simp: orderly_def dest: set_update_subset_insert [THEN subsetD])
next
  case (acquire i ts H h p s)
  then have "disciplined rank (Acquire h p) H" using nth_mem [of i ts] by (auto simp: orderly_def)
  then show ?case using acquire by (auto simp: orderly_def dest: set_update_subset_insert [THEN subsetD])
next
  case (release i ts H h p s)
  then have "disciplined rank (Release h p) H" using nth_mem [of i ts] by (auto simp: orderly_def)
  then show ?case using release by (auto simp: orderly_def dest: set_update_subset_insert [THEN subsetD])
qed simp

lemma csteps_orderly: "csteps start c d \<Longrightarrow> orderly c \<Longrightarrow> orderly d"
proof (induction rule: csteps.induct)
  case (go c s ts s' p)
  then show ?case using start_disciplined [OF go.hyps(2)] by (auto simp: orderly_def)
qed (auto intro: moves_orderly)

lemma free_lock_moves:
  assumes i: "i < length ts" and w: "waits (snd (ts ! i)) h"
    and free: "\<And>t g. t \<in> set ts \<Longrightarrow> g \<in> set (fst t) \<Longrightarrow> lk g \<noteq> lk h"
  shows "\<exists>d. moves i (s, ts) d"
proof -
  obtain H p where t: "ts ! i = (H, Acquire h p)"
    using w by (cases "ts ! i") (auto simp: waits_def split: prog.splits)
  have "avail h ts" using free by (auto simp: avail_def conflict_def)
  then show ?thesis using acquire [OF i t] by blast
qed

lemma not_waiting_moves:
  assumes j: "j < length ts" and e: "\<not> ended (snd (ts ! j))" and np: "\<not> parked s (snd (ts ! j))"
    and nw: "\<And>h. \<not> waits (snd (ts ! j)) h"
  shows "fair_move j (s, ts)"
proof -
  obtain H p where t: "ts ! j = (H, p)" by force
  have "\<exists>d. moves j (s, ts) d"
  proof (cases p)
    case (Act g u k)
    then show ?thesis using act [OF j, of H g u k s] t np by (auto simp: parked_def)
  next
    case (Acquire h q)
    then show ?thesis using nw [of h] t by (simp add: waits_def)
  next
    case (Release h q)
    then show ?thesis using release [OF j, of H h q s] t by auto
  next
    case Spin
    then show ?thesis using spin [OF j, of H s] t by auto
  qed (use e t in \<open>simp_all add: ended_def\<close>)
  then show ?thesis using nw by (simp add: fair_move_def)
qed

lemma waits_rank: "waits p h \<Longrightarrow> disciplined rank p H \<Longrightarrow> g \<in> set H \<Longrightarrow> rank (lk g) < rank (lk h)"
  by (auto simp: waits_def split: prog.splits)

lemma no_deadlock:
  assumes o: "orderly (s, ts)" and i: "i < length ts" and e: "\<not> ended (snd (ts ! i))" and np: "\<not> parked s (snd (ts ! i))"
    and holders: "\<And>t. t \<in> set ts \<Longrightarrow> fst t \<noteq> [] \<Longrightarrow> \<not> parked s (snd t)"
  shows "\<exists>j < length ts. fair_move j (s, ts)"
proof (rule ccontr)
  assume no: "\<not> ?thesis"
  have at: "\<exists>h. waits (snd (ts ! j)) h"
    if "j < length ts" "\<not> ended (snd (ts ! j))" "\<not> parked s (snd (ts ! j))" for j
    using not_waiting_moves [OF that] no that(1) by blast
  define W where "W = {h. \<exists>t \<in> set ts. waits (snd t) h}"
  have W: "\<exists>j < length ts. waits (snd (ts ! j)) h" if h: "h \<in> W" for h
  proof -
    obtain t where "t \<in> set ts" "waits (snd t) h" using h unfolding W_def by blast
    then show ?thesis using in_set_conv_nth [of t ts] by blast
  qed
  have fin: "finite (rank ` lk ` W)" using finite_waits [of ts] by (simp add: W_def)
  obtain h0 where "waits (snd (ts ! i)) h0" using at [OF i e np] by blast
  then have "h0 \<in> W" using nth_mem [OF i] unfolding W_def by blast
  then have "Max (rank ` lk ` W) \<in> rank ` lk ` W" using Max_in [OF fin] by blast
  then obtain b where b: "b \<in> W" "Max (rank ` lk ` W) = rank (lk b)" by (elim imageE) blast
  have top: "rank (lk h) \<le> rank (lk b)" if "h \<in> W" for h
    using Max_ge [OF fin, of "rank (lk h)"] that b(2) by simp
  have free: "lk g \<noteq> lk b" if t: "t \<in> set ts" and g: "g \<in> set (fst t)" for t g
  proof
    assume eq: "lk g = lk b"
    obtain j where j: "j < length ts" "ts ! j = t" using t by (auto simp: in_set_conv_nth)
    have d: "disciplined rank (snd t) (fst t)" using o t by (simp add: orderly_def)
    have ne: "fst t \<noteq> []" using g by auto
    have "\<not> ended (snd t)" using d ne by (auto simp: ended_def)
    then obtain h where h: "waits (snd t) h" using at [OF j(1)] j(2) holders [OF t ne] by blast
    have "rank (lk g) < rank (lk h)" by (rule waits_rank [OF h d g])
    moreover have "h \<in> W" using h t unfolding W_def by blast
    ultimately show False using top [of h] eq by simp
  qed
  have mv: "\<exists>d. moves j (s, ts) d" if "j < length ts" "waits (snd (ts ! j)) h" "lk h = lk b" for j h
    using free_lock_moves [OF that(1,2)] free that(3) by metis
  show False
  proof (cases "Writing (lk b) \<in> W")
    case True
    then obtain j where j: "j < length ts" "waits (snd (ts ! j)) (Writing (lk b))" using W by blast
    have "\<not> waits (snd (ts ! j)) (Reading l)" for l using waits_unique [OF j(2), of "Reading l"] by blast
    then have "fair_move j (s, ts)" using mv [OF j] by (simp add: fair_move_def)
    then show False using no j by blast
  next
    case False
    obtain j where j: "j < length ts" "waits (snd (ts ! j)) b" using W b(1) by blast
    have "\<not> waits (snd t) (Writing l)" if r: "waits (snd (ts ! j)) (Reading l)" and t: "t \<in> set ts" for l t
    proof
      assume "waits (snd t) (Writing l)"
      then have "Writing l \<in> W" using t unfolding W_def by blast
      then show False using False waits_unique [OF j(2) r] by simp
    qed
    then have "fair_move j (s, ts)" using mv [OF j] by (simp add: fair_move_def)
    then show False using no j by blast
  qed
qed

end

end
