(* ===== verification/Solo.thy ===== *)
theory Solo
  imports Goroutine
begin

text \<open>
  One goroutine of many runs for a while, and the others, which hold no locks, do not: \<open>solo H p s H' q t\<close>
  says that its program \<open>p\<close> gets from the state \<open>s\<close> with the locks \<open>H\<close> to the rest \<open>q\<close> of the program, the
  state \<open>t\<close> and the locks \<open>H'\<close>.
\<close>

inductive solo :: "'l hold list \<Rightarrow> ('l, 's) prog \<Rightarrow> 's \<Rightarrow> 'l hold list \<Rightarrow> ('l, 's) prog \<Rightarrow> 's \<Rightarrow> bool" where
  solo_here: "solo H p s H p s"
| solo_act: "g s \<Longrightarrow> solo H (k s) (u s) H' q t \<Longrightarrow> solo H (Act g u k) s H' q t"
| solo_acquire: "\<forall>g \<in> set H. \<not> conflict g h \<Longrightarrow> solo (h # H) p s H' q t \<Longrightarrow> solo H (Acquire h p) s H' q t"
| solo_release: "solo (remove1 h H) p s H' q t \<Longrightarrow> solo H (Release h p) s H' q t"

lemma solo_trans: "solo H p s H' q t \<Longrightarrow> solo H' q t H'' r u \<Longrightarrow> solo H p s H'' r u"
  by (induction rule: solo.induct) (simp_all add: solo.intros)

lemma solo_look: "solo H (k s) s H' q t \<Longrightarrow> solo H (look k) s H' q t"
  and solo_upd: "solo H p (u s) H' q t \<Longrightarrow> solo H (upd u p) s H' q t"
  unfolding look_def upd_def by (rule solo_act; simp)+

text \<open>Such a run is a run of all the goroutines.\<close>

lemma solo_csteps:
  assumes "solo H p s H' q t" "i < length ts" "ts ! i = (H, p)"
    and "\<And>j. j < length ts \<Longrightarrow> j \<noteq> i \<Longrightarrow> fst (ts ! j) = []"
  shows "csteps start (s, ts) (t, ts[i := (H', q)])"
  using assms
proof (induction arbitrary: ts rule: solo.induct)
  case (solo_here H p s)
  have "ts[i := (H, p)] = ts" using solo_here(2) list_update_id [of ts i] by simp
  then show ?case by (simp add: idle)
next
  case (solo_act g s H k u H' q t)
  have "csteps start (u s, ts[i := (H, k s)]) (t, ts[i := (H, k s), i := (H', q)])"
    by (rule solo_act.IH) (use solo_act.prems in auto)
  moreover have "csteps start (s, ts) (u s, ts[i := (H, k s)])"
    by (rule run [OF idle act [of i ts H g u k s]]) (use solo_act in auto)
  ultimately show ?case using csteps_trans by fastforce
next
  case (solo_acquire H h p s H' q t)
  have "csteps start (s, ts[i := (h # H, p)]) (t, ts[i := (h # H, p), i := (H', q)])"
    by (rule solo_acquire.IH) (use solo_acquire.prems in auto)
  moreover have "avail h ts"
    unfolding avail_def
  proof (intro ballI)
    fix x g assume "x \<in> set ts" and g: "g \<in> set (fst x)"
    then obtain j where j: "j < length ts" "ts ! j = x" by (auto simp: in_set_conv_nth)
    then have "j = i" using solo_acquire.prems(3) [OF j(1)] g by (cases "j = i") auto
    then show "\<not> conflict g h" using solo_acquire.hyps(1) solo_acquire.prems(2) g j(2) [symmetric] by simp
  qed
  then have "csteps start (s, ts) (s, ts[i := (h # H, p)])"
    by (intro run [OF idle acquire [of i ts H h p s]]) (use solo_acquire.prems in auto)
  ultimately show ?case using csteps_trans by fastforce
next
  case (solo_release h H p s H' q t)
  have "csteps start (s, ts[i := (remove1 h H, p)]) (t, ts[i := (remove1 h H, p), i := (H', q)])"
    by (rule solo_release.IH) (use solo_release.prems in auto)
  moreover have "csteps start (s, ts) (s, ts[i := (remove1 h H, p)])"
    by (rule run [OF idle release [of i ts H h p s]]) (use solo_release.prems in auto)
  ultimately show ?case using csteps_trans by fastforce
qed

text \<open>A program that takes its locks in order can run on to where \<open>seq\<close> says it ends.\<close>

lemma solo_seq:
  fixes rank :: "'l \<Rightarrow> nat"
  shows "disciplined rank p H \<Longrightarrow> seq p s = Done () t \<Longrightarrow> solo H p s [] Ret t"
    and "disciplined rank p H \<Longrightarrow> seq p s = Stop Panicked t \<Longrightarrow> solo H p s [] Panic t"
proof (induction p arbitrary: H s)
  case (Acquire h p)
  {
    case 1
    then have "\<forall>g \<in> set H. \<not> conflict g h" by (auto simp: conflict_def)
    then show ?case using Acquire.IH(1) 1 by (auto intro: solo_acquire)
  next
    case 2
    then have "\<forall>g \<in> set H. \<not> conflict g h" by (auto simp: conflict_def)
    then show ?case using Acquire.IH(2) 2 by (auto intro: solo_acquire)
  }
qed (auto intro: solo.intros split: if_splits)

end
