(* ===== verification/EngineProgs.thy ===== *)
theory EngineProgs
  imports Goroutine EngineOps
begin

text \<open>
  \<open>internal/engine/manager.go\<close> once more, at the granularity of its locks: \<open>EngineMu\<close> is
  \<open>EngineInstance.mu\<close>, \<open>NodeMu a\<close> and \<open>ReconnectMu a\<close> are the two locks of the node at address \<open>a\<close>, and
  \<open>MgrMu\<close> is the lock of \<open>rpc.Mgr\<close>; \<open>RM\<close> and \<open>RoomMu r\<close> are those of the room manager and of room \<open>r\<close>.
  Every critical section, every access without a lock, every dial and every RPC is a point at which
  other goroutines run. A critical section whose fields are touched only under its lock is one
  access between \<open>Acquire\<close> and \<open>Release\<close>.

  The programs are in continuation style, in the order of the statements of the code: \<open>k\<close> is what the
  caller does next. \<open>fn\<close> is the registered callback.
\<close>

section \<open>Locks and calls\<close>

datatype slock = RM | RoomMu nat | EngineMu | NodeMu nat | ReconnectMu nat | MgrMu

primrec lock_rank :: "slock \<Rightarrow> nat" where
  "lock_rank RM = 0"
| "lock_rank (RoomMu r) = 1"
| "lock_rank EngineMu = 2"
| "lock_rank (NodeMu a) = 2"
| "lock_rank (ReconnectMu a) = 2"
| "lock_rank MgrMu = 2"

type_synonym ('w, 'm) eprog = "(slock, ('w, 'm) net_scheme) prog"

text \<open>A call that reads the state and changes the world; \<open>None\<close> is a nil dereference.\<close>

definition callP :: "(('w, 'm) net_scheme \<Rightarrow> ('r \<times> 'w) option) \<Rightarrow> ('r \<Rightarrow> ('w, 'm) eprog) \<Rightarrow> ('w, 'm) eprog" where
  "callP f k = Act (\<lambda>_. True) (\<lambda>s. case f s of None \<Rightarrow> s | Some (_, w) \<Rightarrow> s\<lparr>world := w\<rparr>)
     (\<lambda>s. case f s of None \<Rightarrow> Panic | Some (res, _) \<Rightarrow> k res)"

text \<open>Reads and writes of the instance and of a node under their locks.\<close>

definition readEngine :: "(EngineInstance \<Rightarrow> 'r) \<Rightarrow> ('r \<Rightarrow> ('w, 'm) eprog) \<Rightarrow> ('w, 'm) eprog" where
  "readEngine f k = Acquire (Reading EngineMu) (look (\<lambda>s. Release (Reading EngineMu) (k (f (eng s)))))"

definition readNode :: "nat \<Rightarrow> (EngineNode \<Rightarrow> 'r) \<Rightarrow> ('r \<Rightarrow> ('w, 'm) eprog) \<Rightarrow> ('w, 'm) eprog" where
  "readNode a f k = Acquire (Reading (NodeMu a)) (look (\<lambda>s. Release (Reading (NodeMu a)) (k (f (nheap s a)))))"

definition writeNode :: "nat \<Rightarrow> ('w \<Rightarrow> EngineNode \<Rightarrow> EngineNode \<times> 'r) \<Rightarrow> ('r \<Rightarrow> ('w, 'm) eprog) \<Rightarrow> ('w, 'm) eprog" where
  "writeNode a f k = Acquire (Writing (NodeMu a))
     (Act (\<lambda>_. True) (\<lambda>s. upd_node a (\<lambda>n. fst (f (world s) n)) s)
       (\<lambda>s. Release (Writing (NodeMu a)) (k (snd (f (world s) (nheap s a))))))"

section \<open>Lookups\<close>

definition getNodeP :: "int \<Rightarrow> (nat option \<Rightarrow> ('w, 'm) eprog) \<Rightarrow> ('w, 'm) eprog" where
  "getNodeP podIndex k = readEngine (\<lambda>e. map_of (nodes e) podIndex) k"

definition snapshotPodIndicesP :: "(int list \<Rightarrow> ('w, 'm) eprog) \<Rightarrow> ('w, 'm) eprog" where
  "snapshotPodIndicesP k = readEngine (\<lambda>e. mkeys (nodes e)) k"

definition isReconnectingP :: "nat \<Rightarrow> (bool \<Rightarrow> ('w, 'm) eprog) \<Rightarrow> ('w, 'm) eprog" where
  "isReconnectingP a k = Acquire (Writing (ReconnectMu a)) (look (\<lambda>s.
     Release (Writing (ReconnectMu a)) (k (reconnecting (nheap s a)))))"

definition setReconnectingP :: "bool \<Rightarrow> nat \<Rightarrow> ('w, 'm) eprog \<Rightarrow> ('w, 'm) eprog" where
  "setReconnectingP b a k = Acquire (Writing (ReconnectMu a))
     (upd (upd_node a (\<lambda>n. n\<lparr>reconnecting := b\<rparr>)) (Release (Writing (ReconnectMu a)) k))"

definition isConnectedP :: "nat \<Rightarrow> (bool \<Rightarrow> ('w, 'm) eprog) \<Rightarrow> ('w, 'm) eprog" where
  "isConnectedP a k = readNode a isConnected k"

definition addrSnapshotP :: "nat \<Rightarrow> (string \<Rightarrow> ('w, 'm) eprog) \<Rightarrow> ('w, 'm) eprog" where
  "addrSnapshotP a k = readNode a Addr k"

definition snapshotP :: "nat \<Rightarrow> (EngineNodeStatus \<Rightarrow> ('w, 'm) eprog) \<Rightarrow> ('w, 'm) eprog" where
  "snapshotP a k = readNode a snapshot k"

definition getReconnectFailuresP :: "nat \<Rightarrow> (int \<Rightarrow> ('w, 'm) eprog) \<Rightarrow> ('w, 'm) eprog" where
  "getReconnectFailuresP a k = readNode a reconnectFailures k"

definition clearReconnectFailuresP :: "nat \<Rightarrow> ('w, 'm) eprog \<Rightarrow> ('w, 'm) eprog" where
  "clearReconnectFailuresP a k = writeNode a (\<lambda>w n. (n\<lparr>reconnectFailures := 0\<rparr>, ())) (\<lambda>_. k)"

definition getMaxPodIndexP :: "(int \<Rightarrow> ('w, 'm) eprog) \<Rightarrow> ('w, 'm) eprog" where
  "getMaxPodIndexP k = readEngine maxPodIndex k"

text \<open>\<open>clientSnapshot\<close> and \<open>GetClient\<close> are the same.\<close>

definition GetClientP :: "nat \<Rightarrow> (client option \<Rightarrow> ('w, 'm) eprog) \<Rightarrow> ('w, 'm) eprog" where
  "GetClientP a k = readNode a nclient k"

definition GetNodeByPodIndexP :: "int \<Rightarrow> (error + nat \<Rightarrow> ('w, 'm) eprog) \<Rightarrow> ('w, 'm) eprog" where
  "GetNodeByPodIndexP podIndex k = getNodeP podIndex (\<lambda>node. case node of
      None \<Rightarrow> k (Inl (EEngine (EPodNotFound podIndex)))
    | Some a \<Rightarrow> k (Inr a))"

definition hashRoomP :: "string \<Rightarrow> (int \<Rightarrow> ('w, 'm) eprog) \<Rightarrow> ('w, 'm) eprog" where
  "hashRoomP roomID k = readEngine replicas (\<lambda>r. k (hashInt roomID mod (if r \<le> 0 then 1 else r)))"

text \<open>The loop over the pods; it collects those that are not full, and among them those with little load.\<close>

primrec candidatesP :: "int list \<Rightarrow> int list \<Rightarrow> int list \<Rightarrow> (int list \<Rightarrow> int list \<Rightarrow> ('w, 'm) eprog) \<Rightarrow> ('w, 'm) eprog" where
  "candidatesP [] notFullIndices underLoadIndices k = k notFullIndices underLoadIndices"
| "candidatesP (idx # is) notFullIndices underLoadIndices k = getNodeP idx (\<lambda>node. case node of
      None \<Rightarrow> candidatesP is notFullIndices underLoadIndices k
    | Some a \<Rightarrow> snapshotP a (\<lambda>status.
        if \<not> st_Healthy status then candidatesP is notFullIndices underLoadIndices k
        else if effectiveMax status > 0 \<and> st_ActiveRooms status \<ge> effectiveMax status
        then candidatesP is notFullIndices underLoadIndices k
        else candidatesP is (notFullIndices @ [idx])
          (if f32_less (st_CPUUsage status) 70 then underLoadIndices @ [idx] else underLoadIndices) k))"

definition pickPreferredNodeForRoomP :: "string \<Rightarrow> (nat option \<Rightarrow> ('w, 'm) eprog) \<Rightarrow> ('w, 'm) eprog" where
  "pickPreferredNodeForRoomP roomID k = snapshotPodIndicesP (\<lambda>indices.
     if indices = [] then k None
     else candidatesP indices [] [] (\<lambda>notFullIndices underLoadIndices.
       let candidates = (if underLoadIndices = [] then notFullIndices else underLoadIndices) in
       if candidates = [] then k None
       else GetNodeByPodIndexP (chooseByHash roomID candidates) (\<lambda>res. case res of
          Inl e \<Rightarrow> k None | Inr a \<Rightarrow> k (Some a))))"

text \<open>It reads \<open>e.replicas\<close> without the lock.\<close>

definition GetNodeForRoomP :: "string \<Rightarrow> (error + nat \<Rightarrow> ('w, 'm) eprog) \<Rightarrow> ('w, 'm) eprog" where
  "GetNodeForRoomP roomID k = pickPreferredNodeForRoomP roomID (\<lambda>found. case found of
      Some a \<Rightarrow> k (Inr a)
    | None \<Rightarrow> look (\<lambda>s. if replicas (eng s) \<le> 0 then k (Inl (EEngine ENoReplicas))
        else hashRoomP roomID (\<lambda>podIndex. getNodeP podIndex (\<lambda>node. case node of
            None \<Rightarrow> k (Inl (EEngine (EPodNotFound podIndex)))
          | Some a \<Rightarrow> k (Inr a)))))"

primrec statusesP :: "int list \<Rightarrow> EngineNodeStatus list \<Rightarrow> (EngineNodeStatus list \<Rightarrow> ('w, 'm) eprog) \<Rightarrow> ('w, 'm) eprog" where
  "statusesP [] statuses k = k statuses"
| "statusesP (idx # is) statuses k = getNodeP idx (\<lambda>node. case node of
      None \<Rightarrow> statusesP is statuses k
    | Some a \<Rightarrow> snapshotP a (\<lambda>st.
        if \<not> st_Healthy st \<and> st_ActiveRooms st = 0 then statusesP is statuses k
        else statusesP is (statuses @ [st]) k))"

definition GetStatusP :: "(EngineStatus \<Rightarrow> ('w, 'm) eprog) \<Rightarrow> ('w, 'm) eprog" where
  "GetStatusP k = readEngine id (\<lambda>e. snapshotPodIndicesP (\<lambda>indices. statusesP indices [] (\<lambda>statuses.
     let healthy = int (length (filter st_Healthy statuses)) in
     k \<lparr>es_Total = int (length statuses), es_Healthy = healthy,
        es_Unhealthy = int (length statuses) - healthy, es_Nodes = statuses,
        es_Replicas = replicas e, es_Namespace = namespace e,
        es_ServiceName = headlessServiceName e, es_StatefulSetName = statefulSetName e,
        es_HeadlessServiceName = headlessServiceName e\<rparr>)))"

end
