(* ===== verification/EngineOpsProgs.thy ===== *)
theory EngineOpsProgs
  imports EngineProgs
begin

text \<open>
  The operations of \<open>internal/engine/manager.go\<close> that change state, at the granularity of the locks, in
  the conventions of theory \<open>EngineProgs\<close>. A turn of \<open>attemptReconnectLoop\<close> that goes on puts the loop
  back into \<open>loops\<close>, from where its next turn starts.
\<close>

section \<open>Connecting\<close>

definition resetReconnectFailuresP :: "int \<Rightarrow> ('w, 'm) eprog \<Rightarrow> ('w, 'm) eprog" where
  "resetReconnectFailuresP podIndex k = getNodeP podIndex (\<lambda>node. case node of
      None \<Rightarrow> k
    | Some a \<Rightarrow> getReconnectFailuresP a (\<lambda>failures. clearReconnectFailuresP a k))"

definition ensureNodeP :: "int \<Rightarrow> (nat \<Rightarrow> ('w, 'm) eprog) \<Rightarrow> ('w, 'm) eprog" where
  "ensureNodeP podIndex k = Acquire (Writing EngineMu)
     (Act (\<lambda>_. True) (\<lambda>s. snd (ensureNode podIndex s))
       (\<lambda>s. Release (Writing EngineMu) (k (fst (ensureNode podIndex s)))))"

definition registerP :: "(NodeManager \<Rightarrow> NodeManager) \<Rightarrow> ('w, 'm) eprog \<Rightarrow> ('w, 'm) eprog" where
  "registerP f k = Acquire (Writing MgrMu) (upd (\<lambda>s. s\<lparr>Mgr := f (Mgr s)\<rparr>) (Release (Writing MgrMu) k))"

definition connectAndRegisterPodP ::
  "'w ext \<Rightarrow> int \<Rightarrow> string \<Rightarrow> (error option \<Rightarrow> ('w, 'm) eprog) \<Rightarrow> ('w, 'm) eprog" where
  "connectAndRegisterPodP X podIndex addr k = callP (\<lambda>s. Some (x_dial X addr (world s))) (\<lambda>res. case res of
      Inl e \<Rightarrow> k (Some e)
    | Inr c \<Rightarrow> ensureNodeP podIndex (\<lambda>a.
        writeNode a (\<lambda>w. replaceConnection addr c c (x_now X w)) (\<lambda>oldConn.
          registerP (RegisterNode podIndex addr c)
            (upd (closeClient X oldConn) (resetReconnectFailuresP podIndex (k None))))))"

section \<open>Removal, shrinking, discovery, shutdown\<close>

definition disconnectP :: "'w ext \<Rightarrow> int \<Rightarrow> nat \<Rightarrow> ('w, 'm) eprog \<Rightarrow> ('w, 'm) eprog" where
  "disconnectP X podIndex a k = writeNode a (\<lambda>w. closeConn) (\<lambda>conn. case conn of
      None \<Rightarrow> k
    | Some c \<Rightarrow> registerP (RemoveNode podIndex) (upd (closeClient X conn) k))"

definition dropNode :: "int \<Rightarrow> ('w, 'm) net_scheme \<Rightarrow> ('w, 'm) net_scheme" where
  "dropNode podIndex s = s\<lparr>eng := (eng s)\<lparr>nodes := AList.delete podIndex (nodes (eng s))\<rparr>\<rparr>"

definition deleteNodeP :: "'w ext \<Rightarrow> int \<Rightarrow> ('w, 'm) eprog \<Rightarrow> ('w, 'm) eprog" where
  "deleteNodeP X podIndex k = Acquire (Writing EngineMu) (look (\<lambda>s. case map_of (nodes (eng s)) podIndex of
      None \<Rightarrow> Release (Writing EngineMu) k
    | Some a \<Rightarrow> upd (dropNode podIndex) (Release (Writing EngineMu) (disconnectP X podIndex a k))))"

primrec maxHealthyP :: "int list \<Rightarrow> int \<Rightarrow> (int \<Rightarrow> ('w, 'm) eprog) \<Rightarrow> ('w, 'm) eprog" where
  "maxHealthyP [] mx k = k mx"
| "maxHealthyP (idx # is) mx k = getNodeP idx (\<lambda>node. case node of
      None \<Rightarrow> maxHealthyP is mx k
    | Some a \<Rightarrow> snapshotP a (\<lambda>status.
        maxHealthyP is (if st_Healthy status \<and> idx > mx then idx else mx) k))"

definition shrinkTo :: "int \<Rightarrow> ('w, 'm) net_scheme \<Rightarrow> ('w, 'm) net_scheme" where
  "shrinkTo newReplicas s =
     (if newReplicas \<ge> replicas (eng s) then s
      else s\<lparr>eng := (eng s)\<lparr>replicas := newReplicas,
             maxPodIndex := (if maxPodIndex (eng s) \<ge> newReplicas then newReplicas - 1 else maxPodIndex (eng s))\<rparr>\<rparr>)"

definition shrinkReplicaCountIfNeededP :: "('w, 'm) eprog \<Rightarrow> ('w, 'm) eprog" where
  "shrinkReplicaCountIfNeededP k = snapshotPodIndicesP (\<lambda>indices. maxHealthyP indices (- 1) (\<lambda>mh.
     if mh < 0 then k
     else Acquire (Writing EngineMu) (upd (shrinkTo (mh + 1)) (Release (Writing EngineMu) k))))"

definition updateMaxPodIndexP :: "int \<Rightarrow> ('w, 'm) eprog \<Rightarrow> ('w, 'm) eprog" where
  "updateMaxPodIndexP podIndex k = Acquire (Writing EngineMu)
     (upd (updateMaxPodIndex podIndex) (Release (Writing EngineMu) k))"

text \<open>The parts of an address are fields that are never written again.\<close>

definition discoverPodP :: "'w ext \<Rightarrow> int \<Rightarrow> ('w, 'm) eprog \<Rightarrow> ('w, 'm) eprog" where
  "discoverPodP X i k = getNodeP i (\<lambda>node. case node of
      Some _ \<Rightarrow> k
    | None \<Rightarrow> look (\<lambda>s. let addr = buildPodDNSAddr X (eng s) i in
        callP (\<lambda>s. Some (x_dial X addr (world s))) (\<lambda>res. case res of
            Inl e \<Rightarrow> k
          | Inr c \<Rightarrow> upd (closeClient X (Some c)) (connectAndRegisterPodP X i addr (\<lambda>err. case err of
                Some e \<Rightarrow> k
              | None \<Rightarrow> updateMaxPodIndexP i k)))))"

definition discoverNewPodsP :: "'w ext \<Rightarrow> ('w, 'm) eprog \<Rightarrow> ('w, 'm) eprog" where
  "discoverNewPodsP X k = getMaxPodIndexP (\<lambda>m. foldr (discoverPodP X) [0..m + 10] k)"

definition closeNodeP :: "'w ext \<Rightarrow> int \<Rightarrow> ('w, 'm) eprog \<Rightarrow> ('w, 'm) eprog" where
  "closeNodeP X idx k = getNodeP idx (\<lambda>node. case node of
      None \<Rightarrow> k
    | Some a \<Rightarrow> disconnectP X idx a k)"

text \<open>\<open>wg.Wait\<close> waits for the health check loop only; here it may return at any time.\<close>

definition ShutdownP :: "'w ext \<Rightarrow> ('w, 'm) eprog \<Rightarrow> ('w, 'm) eprog" where
  "ShutdownP X k = upd (\<lambda>s. s\<lparr>eng := (eng s)\<lparr>ctxDone := True\<rparr>\<rparr>) (snapshotPodIndicesP (\<lambda>indices.
     foldr (closeNodeP X) indices (Acquire (Writing EngineMu)
       (upd (\<lambda>s. s\<lparr>eng := (eng s)\<lparr>nodes := []\<rparr>\<rparr>) (Release (Writing EngineMu) k)))))"

section \<open>Reconnection\<close>

definition triggerReassignRoomsP :: "(('w, 'm) eprog \<Rightarrow> ('w, 'm) eprog) \<Rightarrow> ('w, 'm) eprog \<Rightarrow> ('w, 'm) eprog" where
  "triggerReassignRoomsP fn k = readEngine reassignSet (\<lambda>registered. if registered then fn k else k)"

definition checkAndTriggerReassignP :: "(('w, 'm) eprog \<Rightarrow> ('w, 'm) eprog) \<Rightarrow> ('w, 'm) eprog \<Rightarrow> ('w, 'm) eprog" where
  "checkAndTriggerReassignP fn k = GetStatusP (\<lambda>status.
     if es_Unhealthy status > 0 then triggerReassignRoomsP fn k else k)"

text \<open>The count is raised in one critical section and read in another.\<close>

definition recordReconnectFailureP :: "'w ext \<Rightarrow> (('w, 'm) eprog \<Rightarrow> ('w, 'm) eprog) \<Rightarrow> int
    \<Rightarrow> ('w, 'm) eprog \<Rightarrow> ('w, 'm) eprog" where
  "recordReconnectFailureP X fn podIndex k = getNodeP podIndex (\<lambda>node. case node of
      None \<Rightarrow> k
    | Some a \<Rightarrow> writeNode a (\<lambda>w n. (incrementReconnectFailures (x_now X w) n, ())) (\<lambda>_.
        getReconnectFailuresP a (\<lambda>failures.
          let delete = (if failures \<ge> 2 then deleteNodeP X podIndex k else k) in
          if failures > 1 then triggerReassignRoomsP fn delete else delete)))"

definition startLoop :: "int \<times> string \<times> int \<Rightarrow> ('w, 'm) net_scheme \<Rightarrow> ('w, 'm) net_scheme" where
  "startLoop l s = s\<lparr>loops := loops s @ [l]\<rparr>"

definition reconnectP :: "'w ext \<Rightarrow> int \<Rightarrow> string \<Rightarrow> (error option \<Rightarrow> ('w, 'm) eprog) \<Rightarrow> ('w, 'm) eprog" where
  "reconnectP X podIndex addr k = getNodeP podIndex (\<lambda>node. case node of
      None \<Rightarrow> k (Some (EEngine (EPodNotFound podIndex)))
    | Some a \<Rightarrow> Acquire (Writing (ReconnectMu a)) (look (\<lambda>s.
        if reconnecting (nheap s a)
        then Release (Writing (ReconnectMu a)) (k (Some (EEngine EReconnectInProgress)))
        else upd (upd_node a (\<lambda>n. n\<lparr>reconnecting := True\<rparr>)) (Release (Writing (ReconnectMu a))
          (connectAndRegisterPodP X podIndex addr (\<lambda>err. case err of
              None \<Rightarrow> setReconnectingP False a (k None)
            | Some e \<Rightarrow> upd (startLoop (podIndex, addr, 1)) (k (Some (EEngine EReconnectScheduled)))))))))"

definition endLoopP :: "int \<Rightarrow> ('w, 'm) eprog \<Rightarrow> ('w, 'm) eprog" where
  "endLoopP podIndex k = getNodeP podIndex (\<lambda>node. case node of
      None \<Rightarrow> k
    | Some a \<Rightarrow> setReconnectingP False a k)"

definition attemptReconnectP :: "'w ext \<Rightarrow> (('w, 'm) eprog \<Rightarrow> ('w, 'm) eprog) \<Rightarrow> int \<times> string \<times> int
    \<Rightarrow> ('w, 'm) eprog \<Rightarrow> ('w, 'm) eprog" where
  "attemptReconnectP X fn l k = (case l of (podIndex, addr, backoff) \<Rightarrow> look (\<lambda>s.
     if ctxDone (eng s) then endLoopP podIndex k
     else connectAndRegisterPodP X podIndex addr (\<lambda>err. case err of
         None \<Rightarrow> resetReconnectFailuresP podIndex (endLoopP podIndex k)
       | Some e \<Rightarrow> recordReconnectFailureP X fn podIndex
           (upd (startLoop (podIndex, addr, nextBackoff backoff)) k))))"

definition ensureConnectedAtP :: "'w ext \<Rightarrow> int \<Rightarrow> ('w, 'm) eprog \<Rightarrow> ('w, 'm) eprog" where
  "ensureConnectedAtP X i k = getNodeP i (\<lambda>node. case node of
      None \<Rightarrow> k
    | Some a \<Rightarrow> isConnectedP a (\<lambda>connected. if connected then k
        else isReconnectingP a (\<lambda>reconnecting. if reconnecting then k
        else addrSnapshotP a (\<lambda>addr. if addr = [] then k
        else reconnectP X i addr (\<lambda>err. k)))))"

text \<open>The bound \<open>e.replicas\<close> is written by the health check loop only, which runs this loop.\<close>

definition ensureConnectedP :: "'w ext \<Rightarrow> ('w, 'm) eprog \<Rightarrow> ('w, 'm) eprog" where
  "ensureConnectedP X k = look (\<lambda>s. foldr (ensureConnectedAtP X) [0..replicas (eng s) - 1] k)"

section \<open>Heartbeats\<close>

definition checkSingleNodeP :: "'w ext \<Rightarrow> (('w, 'm) eprog \<Rightarrow> ('w, 'm) eprog) \<Rightarrow> int
    \<Rightarrow> (error option \<Rightarrow> ('w, 'm) eprog) \<Rightarrow> ('w, 'm) eprog" where
  "checkSingleNodeP X fn podIndex k = getNodeP podIndex (\<lambda>node. case node of
      None \<Rightarrow> k (Some (EEngine (EPodNotFound podIndex)))
    | Some a \<Rightarrow> GetClientP a (\<lambda>client.
        if client = None
        then writeNode a (\<lambda>w n. (markUnhealthy (EEngine ENotConnected) n, ())) (\<lambda>_. k (Some (EEngine ENotConnected)))
        else callP (\<lambda>s. CallGetHeartbeat X client (world s)) (\<lambda>res. case res of
            Inl e \<Rightarrow> writeNode a (\<lambda>w n. (markUnhealthy e n, ())) (\<lambda>_. k (Some e))
          | Inr hb \<Rightarrow> writeNode a (\<lambda>w. markHealthy hb (x_now X w)) (\<lambda>serverIDChanged.
              if serverIDChanged then triggerReassignRoomsP fn (k None) else k None))))"

definition checkHeartbeatAtP :: "'w ext \<Rightarrow> (('w, 'm) eprog \<Rightarrow> ('w, 'm) eprog) \<Rightarrow> int
    \<Rightarrow> ('w, 'm) eprog \<Rightarrow> ('w, 'm) eprog" where
  "checkHeartbeatAtP X fn i k = getNodeP i (\<lambda>node. case node of
      None \<Rightarrow> k
    | Some a \<Rightarrow> checkSingleNodeP X fn i (\<lambda>err. case err of
          None \<Rightarrow> k
        | Some e \<Rightarrow> addrSnapshotP a (\<lambda>addr. if addr = [] then k
            else reconnectP X i addr (\<lambda>recErr. case recErr of
                None \<Rightarrow> k
              | Some e' \<Rightarrow> recordReconnectFailureP X fn i k))))"

definition checkHeartbeatP :: "'w ext \<Rightarrow> (('w, 'm) eprog \<Rightarrow> ('w, 'm) eprog)
    \<Rightarrow> ('w, 'm) eprog \<Rightarrow> ('w, 'm) eprog" where
  "checkHeartbeatP X fn k = snapshotPodIndicesP (\<lambda>indices. foldr (checkHeartbeatAtP X fn) indices k)"

text \<open>The two ticker branches of \<open>healthCheckLoop\<close>.\<close>

definition healthTickP :: "'w ext \<Rightarrow> (('w, 'm) eprog \<Rightarrow> ('w, 'm) eprog) \<Rightarrow> ('w, 'm) eprog \<Rightarrow> ('w, 'm) eprog" where
  "healthTickP X fn k =
     ensureConnectedP X (checkHeartbeatP X fn (shrinkReplicaCountIfNeededP (checkAndTriggerReassignP fn k)))"

definition discoveryTickP :: "'w ext \<Rightarrow> ('w, 'm) eprog \<Rightarrow> ('w, 'm) eprog" where
  "discoveryTickP X k = discoverNewPodsP X k"

end
