(* ===== verification/RoomProgs.thy ===== *)
theory RoomProgs
  imports EngineOpsProgs Handler
begin

text \<open>
  \<open>internal/room/manager.go\<close>, \<open>session.go\<close> and \<open>match.go\<close> once more, now at the granularity of the
  locks, in the conventions of theory \<open>EngineProgs\<close>: every read or write of shared memory, every
  channel operation, every RPC and every \<open>Lock\<close> and \<open>Unlock\<close> is a point at which other goroutines run.

  Two fields written side by side under a lock under which alone they are read together
  (\<open>Sessions\<close> and \<open>ReadyPlayers\<close>) are one write; a call through the Redis client or an RPC stub is one
  access; drawing a fresh room id is one access.
\<close>

type_synonym 'w gprog = "(slock, 'w server) prog"

section \<open>Sending\<close>

definition push :: "GameResponse \<Rightarrow> Session \<Rightarrow> Session" where
  "push m n = n\<lparr>sSend := sSend n @ [m]\<rparr>"

definition sendP :: "nat \<Rightarrow> string \<Rightarrow> int \<Rightarrow> msg \<Rightarrow> json \<Rightarrow> 'w gprog \<Rightarrow> 'w gprog" where
  "sendP a cmd code msg data k = Act (\<lambda>s. length (sSend (sheap s a)) < sendCap)
     (upd_sess a (push \<lparr>Cmd = cmd, Code = code, Msg = msg, Data = data\<rparr>)) (\<lambda>_. k)"

definition broadcastP :: "nat \<Rightarrow> string \<Rightarrow> int \<Rightarrow> msg \<Rightarrow> json \<Rightarrow> 'w gprog \<Rightarrow> 'w gprog" where
  "broadcastP r cmd code msg data k = Acquire (Writing (RoomMu r)) (look (\<lambda>s.
     foldr (\<lambda>e. upd (upd_sess (snd e) (offer \<lparr>Cmd = cmd, Code = code, Msg = msg, Data = data\<rparr>)))
       (rSessions (rheap s r)) (Release (Writing (RoomMu r)) k)))"

text \<open>\<open>WritePump\<close>, from its receive to its next: it compares \<open>s.Conn\<close> with the connection it writes to.\<close>

definition WritePumpP :: "nat \<Rightarrow> nat \<Rightarrow> 'w gprog" where
  "WritePumpP a c = Act (\<lambda>s. sSend (sheap s a) \<noteq> []) (upd_sess a (\<lambda>n. n\<lparr>sSend := tl (sSend n)\<rparr>))
     (\<lambda>_. look (\<lambda>s. if sConn (sheap s a) \<noteq> Some c then Ret else Ret))"

section \<open>Create and join\<close>

definition fileRoom :: "string \<Rightarrow> 'w server \<Rightarrow> 'w server" where
  "fileRoom roomID s = s\<lparr>rheap := (rheap s)(rnext s := new_room roomID (rmEngine s)), rnext := Suc (rnext s),
     Rooms := AList.update roomID (rnext s) (Rooms s)\<rparr>"

definition seat :: "nat \<Rightarrow> nat \<Rightarrow> 'w server \<Rightarrow> 'w server" where
  "seat r a s = upd_room r (\<lambda>g. g\<lparr>rSessions := AList.update (pid s a) a (rSessions g),
     rReadyPlayers := AList.update (pid s a) False (rReadyPlayers g)\<rparr>) s"

definition setRoomID :: "nat \<Rightarrow> string \<Rightarrow> 'w server \<Rightarrow> 'w server" where
  "setRoomID a roomID = upd_sess a (\<lambda>n. n\<lparr>sRoomID := roomID\<rparr>)"

definition CreateRoomP :: "'w ext \<Rightarrow> nat \<Rightarrow> 'w gprog \<Rightarrow> 'w gprog" where
  "CreateRoomP X a k = Acquire (Writing RM)
     (Act (\<lambda>_. True) (\<lambda>s. case freshRoomID X (Rooms s) (world s) of None \<Rightarrow> s | Some (_, w) \<Rightarrow> s\<lparr>world := w\<rparr>)
       (\<lambda>s. case freshRoomID X (Rooms s) (world s) of
          None \<Rightarrow> Spin
        | Some (roomID, _) \<Rightarrow>
            Act (\<lambda>_. True) (fileRoom roomID) (\<lambda>s. let r = rnext s in
              Acquire (Writing (RoomMu r))
                (upd (setRoomID a roomID)
                (upd (seat r a)
                (Release (Writing (RoomMu r))
                (sendP a ''create_room_res'' CodeSuccess (MRoom RoomCreated) (JObj [(''room_id'', JStr roomID)])
                (Release (Writing RM) k))))))))"

definition JoinRoomP :: "string \<Rightarrow> nat \<Rightarrow> 'w gprog \<Rightarrow> 'w gprog" where
  "JoinRoomP roomID a k = Acquire (Writing RM) (look (\<lambda>s. case map_of (Rooms s) roomID of
      None \<Rightarrow> sendP a ''join_room_res'' CodeRoomNotExist (MRoom CheckRoomNumber) JNull (Release (Writing RM) k)
    | Some r \<Rightarrow> Release (Writing RM) (Acquire (Writing (RoomMu r))
       (let refuse = (\<lambda>code m. sendP a ''join_room_res'' code m JNull (Release (Writing (RoomMu r)) k)) in
        look (\<lambda>s. if map_of (rSessions (rheap s r)) (pid s a) \<noteq> None then refuse CodeSendDuplicate (MRoom AlreadyInRoom)
        else look (\<lambda>s. if rStatus (rheap s r) \<noteq> RoomWaiting then refuse CodeRoomFull (MRoom RoomStartedOrEnded)
        else look (\<lambda>s. if length (rSessions (rheap s r)) \<ge> MaxPlayersPerRoom then refuse CodeRoomFull (MRoom RoomFull)
        else upd (setRoomID a roomID)
            (upd (seat r a)
            (Release (Writing (RoomMu r))
            (sendP a ''join_room_res'' CodeSuccess (MRoom Joined) JNull
            (look (\<lambda>s. broadcastP r ''join_room'' CodeSuccess (MRoom (PlayerJoined (pid s a))) JNull k))))))))))))"

section \<open>Destroying rooms\<close>

primrec destroyAttemptsP :: "'w ext \<Rightarrow> nat \<Rightarrow> string \<Rightarrow> nat \<Rightarrow> (bool \<Rightarrow> 'w gprog) \<Rightarrow> 'w gprog" where
  "destroyAttemptsP X na roomID 0 k = k False"
| "destroyAttemptsP X na roomID (Suc n) k =
     GetClientP na (\<lambda>client. callP (\<lambda>s. CallDestroyRoom X client roomID (world s)) (\<lambda>res. case res of
        Inl e \<Rightarrow> destroyAttemptsP X na roomID n k
      | Inr resp \<Rightarrow> if resp_Code resp \<noteq> 0 then destroyAttemptsP X na roomID n k else k True))"

definition sendDestroyRoomRequestSyncP :: "'w ext \<Rightarrow> string \<Rightarrow> int \<Rightarrow> (bool \<Rightarrow> 'w gprog) \<Rightarrow> 'w gprog" where
  "sendDestroyRoomRequestSyncP X roomID nodeID k = look (\<lambda>s.
     if \<not> rmEngine s then k False
     else GetNodeByPodIndexP nodeID (\<lambda>res. case res of
        Inl e \<Rightarrow> k False
      | Inr na \<Rightarrow> destroyAttemptsP X na roomID 3 k))"

definition spawn :: "task \<Rightarrow> 'w server \<Rightarrow> 'w server" where
  "spawn t s = s\<lparr>tasks := tasks s @ [t]\<rparr>"

definition sendDestroyRoomRequestP :: "string \<Rightarrow> int \<Rightarrow> 'w gprog \<Rightarrow> 'w gprog" where
  "sendDestroyRoomRequestP roomID nodeID k = look (\<lambda>s.
     if \<not> rmEngine s then k
     else GetNodeByPodIndexP nodeID (\<lambda>res. case res of
        Inl e \<Rightarrow> k
      | Inr na \<Rightarrow> upd (spawn (TDestroy na roomID)) k))"

definition forgetRoomP :: "string \<Rightarrow> 'w gprog \<Rightarrow> 'w gprog" where
  "forgetRoomP roomID k = Acquire (Writing RM) (upd (forgetRoom roomID) (Release (Writing RM) k))"

definition DeleteRoomP :: "'w ext \<Rightarrow> string \<Rightarrow> 'w gprog \<Rightarrow> 'w gprog" where
  "DeleteRoomP X roomID k = Acquire (Reading RM) (look (\<lambda>s. Release (Reading RM)
     (case map_of (Rooms s) roomID of
        None \<Rightarrow> k
      | Some r \<Rightarrow>
          look (\<lambda>s. let status = rStatus (rheap s r) in
          look (\<lambda>s. let targetNodeID = rNodeID (rheap s r) in
            if status \<noteq> RoomWaiting
            then sendDestroyRoomRequestSyncP X roomID targetNodeID
              (\<lambda>ok. if ok then forgetRoomP roomID k else forgetRoomP roomID k)
            else forgetRoomP roomID k)))))"

primrec readNodesP :: "(string \<times> nat) list \<Rightarrow> (string \<times> int) list \<Rightarrow> ((string \<times> int) list \<Rightarrow> 'w gprog) \<Rightarrow> 'w gprog" where
  "readNodesP [] acc k = k acc"
| "readNodesP (e # es) acc k = look (\<lambda>s. readNodesP es (acc @ [(fst e, rNodeID (rheap s (snd e)))]) k)"

definition DestroyAllRoomsP :: "'w gprog \<Rightarrow> 'w gprog" where
  "DestroyAllRoomsP k = Acquire (Reading RM) (look (\<lambda>s.
     readNodesP (Rooms s) [] (\<lambda>roomsToDestroy. Release (Reading RM)
       (foldr (\<lambda>e. sendDestroyRoomRequestP (fst e) (snd e)) roomsToDestroy
         (Acquire (Writing RM) (upd (\<lambda>s. s\<lparr>Rooms := []\<rparr>) (Release (Writing RM) k)))))))"

section \<open>Leaving\<close>

definition unseat :: "nat \<Rightarrow> nat \<Rightarrow> 'w server \<Rightarrow> 'w server" where
  "unseat r a s = upd_room r (\<lambda>g. g\<lparr>rSessions := AList.delete (pid s a) (rSessions g),
     rReadyPlayers := AList.delete (pid s a) (rReadyPlayers g)\<rparr>) s"

definition setStatus :: "nat \<Rightarrow> int \<Rightarrow> 'w server \<Rightarrow> 'w server" where
  "setStatus r st = upd_room r (\<lambda>g. g\<lparr>rStatus := st\<rparr>)"

definition LeaveRoomP :: "'w ext \<Rightarrow> string \<Rightarrow> nat \<Rightarrow> 'w gprog \<Rightarrow> 'w gprog" where
  "LeaveRoomP X roomID a k = Acquire (Reading RM) (look (\<lambda>s. Release (Reading RM)
     (case map_of (Rooms s) roomID of
        None \<Rightarrow> sendP a ''leave_room_res'' CodeRoomNotExist (MRoom RoomNotExist) JNull k
      | Some r \<Rightarrow>
          Acquire (Writing (RoomMu r)) (upd (unseat r a) (look (\<lambda>s.
            let remainingCount = length (rSessions (rheap s r)) in
            Release (Writing (RoomMu r)) (upd (setRoomID a [])
              (if remainingCount = 0 then DeleteRoomP X roomID k
               else look (\<lambda>s. broadcastP r (''Player Left! (playerID: '' @ pid s a @ '')'') CodeSuccess
                       (MRoom (PlayerLeft (pid s a))) JNull
                 (Acquire (Writing (RoomMu r)) (look (\<lambda>s.
                   if rStatus (rheap s r) = RoomPlaying
                   then upd (setStatus r RoomFinished) (Release (Writing (RoomMu r))
                     (broadcastP r ''room_status_change'' CodeSuccess (MRoom StoppedByLeave) JNull k))
                   else Release (Writing (RoomMu r)) k))))))))))))"

section \<open>Queries\<close>

primrec listRoomsP :: "(string \<times> nat) list \<Rightarrow> (string \<times> bool) list \<Rightarrow> ((string \<times> bool) list \<Rightarrow> 'w gprog) \<Rightarrow> 'w gprog" where
  "listRoomsP [] acc k = k acc"
| "listRoomsP (e # es) acc k = Acquire (Writing (RoomMu (snd e))) (look (\<lambda>s.
     let full = length (rSessions (rheap s (snd e))) \<ge> 2 in
     Release (Writing (RoomMu (snd e))) (listRoomsP es (acc @ [(fst e, full)]) k)))"

definition GetRoomsP :: "((string \<times> bool) list \<Rightarrow> 'w gprog) \<Rightarrow> 'w gprog" where
  "GetRoomsP k = Acquire (Reading RM) (look (\<lambda>s.
     listRoomsP (Rooms s) [] (\<lambda>roomList. Release (Reading RM) (k roomList))))"

text \<open>\<open>rm.Rooms[s.RoomID]\<close> under the read lock, as the game's handlers look it up.\<close>

definition lookupP :: "nat \<Rightarrow> (nat option \<Rightarrow> 'w gprog) \<Rightarrow> 'w gprog" where
  "lookupP a k = Acquire (Reading RM) (look (\<lambda>s. let roomID = sRoomID (sheap s a) in
     look (\<lambda>s. Release (Reading RM) (k (map_of (Rooms s) roomID)))))"

section \<open>Session registry\<close>

definition FindSessionP :: "string \<Rightarrow> (nat option \<Rightarrow> 'w gprog) \<Rightarrow> 'w gprog" where
  "FindSessionP uid k = Acquire (Reading RM) (look (\<lambda>s. Release (Reading RM) (k (FindSession uid s))))"

definition RegisterSessionP :: "string \<Rightarrow> nat \<Rightarrow> 'w gprog \<Rightarrow> 'w gprog" where
  "RegisterSessionP uid a k = Acquire (Writing RM) (upd (RegisterSession uid a) (Release (Writing RM) k))"

definition forgetSession :: "string \<Rightarrow> 'w server \<Rightarrow> 'w server" where
  "forgetSession uid s = s\<lparr>AllSessions := AList.delete uid (AllSessions s)\<rparr>"

definition CleanUpIfStillOfflineP :: "'w ext \<Rightarrow> string \<Rightarrow> 'w gprog \<Rightarrow> 'w gprog" where
  "CleanUpIfStillOfflineP X uid k = Acquire (Writing RM) (look (\<lambda>s. case map_of (AllSessions s) uid of
      None \<Rightarrow> Release (Writing RM) k
    | Some a \<Rightarrow> look (\<lambda>s.
        if sConn (sheap s a) \<noteq> None then Release (Writing RM) k
        else look (\<lambda>s. let roomID = sRoomID (sheap s a) in
          upd (forgetSession uid) (Release (Writing RM)
            (if roomID \<noteq> [] then LeaveRoomP X roomID a k else k))))))"

definition GetSnapshotP :: "nat \<Rightarrow> (ReconnectResponse \<Rightarrow> 'w gprog) \<Rightarrow> 'w gprog" where
  "GetSnapshotP r k = Acquire (Writing (RoomMu r)) (look (\<lambda>s. let resp = GetSnapshot r s in
     Release (Writing (RoomMu r)) (k resp)))"

text \<open>It reads \<open>rm.Rooms\<close> without its lock.\<close>

definition SyncRoomStateP :: "nat \<Rightarrow> 'w gprog \<Rightarrow> 'w gprog" where
  "SyncRoomStateP a k = look (\<lambda>s. let roomID = sRoomID (sheap s a) in look (\<lambda>s. case map_of (Rooms s) roomID of
      None \<Rightarrow> sendP a ''reconnect_error'' 404 (MRoom RoomDestroyed) JNull k
    | Some r \<Rightarrow> GetSnapshotP r (\<lambda>snapshot.
        sendP a ''reconnect_res'' CodeSuccess (MRoom StateRestored) (enc_ReconnectResponse snapshot)
        (look (\<lambda>s. broadcastP r ''player_reconnect'' CodeSuccess (MRoom (PlayerReconnected (pid s a)))
          (JObj [(''uid'', JStr (pid s a))]) k)))))"

section \<open>Matching\<close>

definition receiveP :: "(nat \<Rightarrow> 'w gprog) \<Rightarrow> 'w gprog" where
  "receiveP k = Act (\<lambda>s. MatchQueue s \<noteq> []) (\<lambda>s. s\<lparr>MatchQueue := tl (MatchQueue s)\<rparr>) (\<lambda>s. k (hd (MatchQueue s)))"

definition matchTurnP :: "'w ext \<Rightarrow> 'w gprog \<Rightarrow> 'w gprog" where
  "matchTurnP X k = receiveP (\<lambda>player1. receiveP (\<lambda>player2.
     CreateRoomP X player1 (look (\<lambda>s. JoinRoomP (sRoomID (sheap s player1)) player2 k))))"

end
