(* ===== verification/GameProgs.thy ===== *)
theory GameProgs
  imports RoomProgs
begin

text \<open>
  \<open>internal/room/game.go\<close> at the granularity of the locks, in the conventions of theory
  \<open>RoomProgs\<close>: starting a game and the goroutine it leaves behind, battle actions, the choice of
  pokemon, and moving rooms off lost nodes (\<open>manager.go\<close>).
\<close>

section \<open>Starting a game\<close>

definition handleStartErrorP :: "nat \<Rightarrow> start_msg \<Rightarrow> 'w gprog \<Rightarrow> 'w gprog" where
  "handleStartErrorP r reason k = Acquire (Writing (RoomMu r)) (upd (setStatus r RoomWaiting)
     (Release (Writing (RoomMu r)) (broadcastP r ''game_start_error'' CodeCppRPCError (MStart reason) JNull k)))"

text \<open>The sort reads only player ids, which never change; the two teams are read one after the other.\<close>

definition buildBattleInitJSONP :: "string \<Rightarrow> nat list \<Rightarrow> (error + json \<Rightarrow> 'w gprog) \<Rightarrow> 'w gprog" where
  "buildBattleInitJSONP roomID sessions k =
     (if length sessions < 2 then k (Inl ESessionsFew)
      else look (\<lambda>s. let sorted = sort_key (pid s) sessions; seed = hashInt roomID in
        look (\<lambda>s. let side_a = enc_side s (sorted ! 0) in
        look (\<lambda>s. let side_b = enc_side s (sorted ! 1) in
          k (Inr (enc_any (JObj [(''side_a'', side_a), (''side_b'', side_b), (''seed'', jint seed)])))))))"

definition setNodeID :: "nat \<Rightarrow> nat \<Rightarrow> 'w server \<Rightarrow> 'w server" where
  "setNodeID r na s = upd_room r (\<lambda>g. g\<lparr>rNodeID := PodIndex (nheap s na)\<rparr>) s"

definition StartGameP :: "nat \<Rightarrow> 'w gprog \<Rightarrow> 'w gprog" where
  "StartGameP r k = Acquire (Writing (RoomMu r)) (look (\<lambda>s.
     if rStatus (rheap s r) \<noteq> RoomWaiting then Release (Writing (RoomMu r)) k
     else look (\<lambda>s. let sessions = List.map snd (rSessions (rheap s r)) in
       upd (setStatus r RoomPlaying) (Release (Writing (RoomMu r))
       (if length sessions < 2 then handleStartErrorP r TooFewPlayers k
        else look (\<lambda>s. buildBattleInitJSONP (rID (rheap s r)) sessions (\<lambda>res. case res of
            Inl e \<Rightarrow> handleStartErrorP r (InitJSONFailed e) k
          | Inr initJSON \<Rightarrow> look (\<lambda>s.
              if \<not> rEngineConn (rheap s r) then Panic
              else GetNodeForRoomP (rID (rheap s r)) (\<lambda>res. case res of
                  Inl e \<Rightarrow> handleStartErrorP r (AllocFailed e) k
                | Inr na \<Rightarrow>
                    Acquire (Writing (RoomMu r)) (upd (setNodeID r na) (look (\<lambda>s.
                      let targetNodeID = rNodeID (rheap s r) in
                      Release (Writing (RoomMu r)) (upd (spawn (TStart r targetNodeID initJSON)) k)))))))))))))"

text \<open>The loop over the RPC attempts, of which \<open>n\<close> are left; the client is read anew each time.\<close>

primrec attemptsP :: "'w ext \<Rightarrow> nat \<Rightarrow> nat \<Rightarrow> json \<Rightarrow> nat \<Rightarrow> 'w gprog" where
  "attemptsP X r na initJSON 0 = Ret"
| "attemptsP X r na initJSON (Suc n) =
     GetClientP na (\<lambda>client. callP (\<lambda>s. CallCreateRoom X client (rID (rheap s r)) initJSON (world s)) (\<lambda>res. case res of
         Inr resp \<Rightarrow>
           if resp_Code resp = 0 then broadcastP r ''game_started'' CodeSuccess (MStart GameStarted) JNull Ret
           else if n \<noteq> 0 then attemptsP X r na initJSON n
           else handleStartErrorP r (RespFailed (resp_Code resp) (resp_Message resp)) Ret
       | Inl rpcErr \<Rightarrow>
           if n \<noteq> 0 then attemptsP X r na initJSON n
           else handleStartErrorP r (CallFailed rpcErr) Ret))"

definition launchP :: "'w ext \<Rightarrow> nat \<Rightarrow> int \<Rightarrow> json \<Rightarrow> 'w gprog" where
  "launchP X r targetNodeID initJSON = GetNodeByPodIndexP targetNodeID (\<lambda>target. case target of
      Inr na \<Rightarrow> attemptsP X r na initJSON maxRetries
    | Inl _ \<Rightarrow> look (\<lambda>s. GetNodeForRoomP (rID (rheap s r)) (\<lambda>res. case res of
          Inl e \<Rightarrow> handleStartErrorP r (NoNode e) Ret
        | Inr na \<Rightarrow> attemptsP X r na initJSON maxRetries)))"

text \<open>A call whose panic is recovered and whose errors are only logged.\<close>

definition destroyCall :: "'w ext \<Rightarrow> client option \<Rightarrow> string \<Rightarrow> 'w server \<Rightarrow> 'w server" where
  "destroyCall X client roomID s = (case CallDestroyRoom X client roomID (world s) of
      None \<Rightarrow> s
    | Some (_, w) \<Rightarrow> s\<lparr>world := w\<rparr>)"

text \<open>A goroutine of the room code; the one that destroys a room recovers from a panic.\<close>

primrec taskP :: "'w ext \<Rightarrow> task \<Rightarrow> 'w gprog" where
  "taskP X (TStart r targetNodeID initJSON) = launchP X r targetNodeID initJSON"
| "taskP X (TStartTry r na initJSON attempt) = attemptsP X r na initJSON (Suc (maxRetries - attempt))"
| "taskP X (TDestroy na roomID) = GetClientP na (\<lambda>client. upd (destroyCall X client roomID) Ret)"

definition StartGameForSessionP :: "nat \<Rightarrow> 'w gprog \<Rightarrow> 'w gprog" where
  "StartGameForSessionP a k = look (\<lambda>s.
     if sRoomID (sheap s a) = []
     then sendP a ''start_game_res'' CodeRoomNotExist (MRoom NotInRoom) JNull k
     else lookupP a (\<lambda>found. case found of
         None \<Rightarrow> sendP a ''start_game_res'' CodeRoomNotExist (MRoom RoomNotExist) JNull k
       | Some r \<Rightarrow> StartGameP r k))"

section \<open>Battle actions\<close>

definition battleSideP :: "nat \<Rightarrow> nat \<Rightarrow> (string option \<Rightarrow> 'w gprog) \<Rightarrow> 'w gprog" where
  "battleSideP r a k = Acquire (Writing (RoomMu r)) (look (\<lambda>s. let side = battleSideForPlayer r (pid s a) s in
     Release (Writing (RoomMu r)) (k side)))"

definition injectBattleSideP :: "nat \<Rightarrow> raw \<Rightarrow> nat \<Rightarrow> (error + json \<Rightarrow> 'w gprog) \<Rightarrow> 'w gprog" where
  "injectBattleSideP r rawAction a k = battleSideP r a (\<lambda>found. case found of
      None \<Rightarrow> k (Inl EPlayerSide)
    | Some side \<Rightarrow> (case unmarshal_raw (dec_map dec_any JNull) rawAction None of
          (action, False) \<Rightarrow> k (Inl EUnmarshal)
        | (None, True) \<Rightarrow> Panic
        | (Some action, True) \<Rightarrow> k (Inr (enc_any (JObj (AList.update ''side'' (JStr side) action))))))"

definition reportTurnP :: "'w ext \<Rightarrow> nat \<Rightarrow> nat \<Rightarrow> string \<Rightarrow> 'w gprog \<Rightarrow> 'w gprog" where
  "reportTurnP X r a message k =
     (let turnResult = parseTurn X message in
      if go_bool turnResult ''waiting''
      then battleSideP r a (\<lambda>found. look (\<lambda>s.
        let t2 = (case found of
                Some completedSide \<Rightarrow> AList.update ''completed_side'' (JStr completedSide) (the turnResult)
              | None \<Rightarrow> the turnResult);
            t3 = AList.update ''completed_player_id'' (JStr (pid s a)) t2
        in sendP a ''battle_action_res'' CodeSuccess (MBattle ActionWaiting) (enc_any (JObj t3))
             (broadcastP r ''battle_state_push'' CodeSuccess (MBattle OpponentWaiting) (enc_any (JObj t3)) k)))
      else sendP a ''battle_action_res'' CodeSuccess (MBattle ActionDone) (enc_any_map turnResult)
             (broadcastP r ''battle_state_push'' CodeSuccess (MBattle BattleUpdate) (enc_any_map turnResult) k))"

definition forwardBattleActionP :: "'w ext \<Rightarrow> nat \<Rightarrow> nat \<Rightarrow> raw \<Rightarrow> 'w gprog \<Rightarrow> 'w gprog" where
  "forwardBattleActionP X r a rawAction k = Acquire (Writing (RoomMu r))
     (look (\<lambda>s. let status = rStatus (rheap s r) in
      look (\<lambda>s. let targetNodeID = rNodeID (rheap s r) in
      look (\<lambda>s. let inRoom = map_of (rSessions (rheap s r)) (pid s a) \<noteq> None;
                     reply = (\<lambda>code m. sendP a ''battle_action_res'' code m JNull k) in
      Release (Writing (RoomMu r))
        (if \<not> inRoom then reply CodePlayerNotInRoom (MBattle NotInThisRoom)
         else if status \<noteq> RoomPlaying then reply CodeRoomStarted (MBattle NotInBattle)
         else if rawAction = RawEmpty then reply CodeDataInvalid (MBattle ActionEmpty)
         else if \<not> json_Valid rawAction then reply CodeDataInvalid (MBattle ActionNotJSON)
         else injectBattleSideP r rawAction a (\<lambda>res. case res of
             Inl e \<Rightarrow> reply CodeDataInvalid (MBattle (ActionFailed e))
           | Inr actionWithSide \<Rightarrow> look (\<lambda>s.
               if \<not> rEngineConn (rheap s r) then Panic
               else GetNodeByPodIndexP targetNodeID (\<lambda>target. case target of
                  Inl e \<Rightarrow> reply CodeCppRPCError (MBattle TargetUnavailable)
                | Inr na \<Rightarrow>
                    GetClientP na (\<lambda>client.
                    callP (\<lambda>s. CallSendCommand X client (rID (rheap s r)) (pid s a) actionWithSide (world s))
                      (\<lambda>res. case res of
                         Inl e \<Rightarrow> reply CodeCppRPCError (MBattle (CppCallFailed e))
                       | Inr resp \<Rightarrow>
                           if resp_Code resp \<noteq> 0 then reply (resp_Code resp) (MBattle (CppMessage (resp_Message resp)))
                           else reportTurnP X r a (resp_Message resp) k))))))))))"

definition HandleBattleActionP :: "'w ext \<Rightarrow> nat \<Rightarrow> raw \<Rightarrow> 'w gprog \<Rightarrow> 'w gprog" where
  "HandleBattleActionP X a rawAction k = look (\<lambda>s.
     if sRoomID (sheap s a) = []
     then sendP a ''battle_action_res'' CodeRoomNotExist (MRoom NotInRoom) JNull k
     else lookupP a (\<lambda>found. case found of
         None \<Rightarrow> sendP a ''battle_action_res'' CodeRoomNotExist (MRoom RoomNotExist) JNull k
       | Some r \<Rightarrow> forwardBattleActionP X r a rawAction k))"

definition HandleBattleActionAndPersistP :: "'w ext \<Rightarrow> nat \<Rightarrow> raw \<Rightarrow> 'w gprog \<Rightarrow> 'w gprog" where
  "HandleBattleActionAndPersistP X a rawAction k = HandleBattleActionP X a rawAction (look (\<lambda>s.
     if sRoomID (sheap s a) = [] then k
     else lookupP a (\<lambda>found. case found of None \<Rightarrow> k | Some r \<Rightarrow> k)))"

section \<open>Choosing pokemon\<close>

definition clearTeam :: "nat \<Rightarrow> 'w server \<Rightarrow> 'w server" where
  "clearTeam a = upd_sess a (\<lambda>n. n\<lparr>sSelectedPokemon := Some []\<rparr>)"

definition addPokemon :: "nat \<Rightarrow> poke_map \<Rightarrow> 'w server \<Rightarrow> 'w server" where
  "addPokemon a m = upd_sess a (\<lambda>n. n\<lparr>sSelectedPokemon :=
     Some ((case sSelectedPokemon n of None \<Rightarrow> [] | Some team \<Rightarrow> team) @ [m])\<rparr>)"

primrec selectTeamP :: "nat \<Rightarrow> Pokemon list \<Rightarrow> (bool \<Rightarrow> 'w gprog) \<Rightarrow> 'w gprog" where
  "selectTeamP a [] k = k True"
| "selectTeamP a (poke # ps) k = (case as_float64 (Ability poke) of
      None \<Rightarrow> k False
    | Some ability \<Rightarrow> upd (addPokemon a (pokeMap poke (float_trunc ability))) (selectTeamP a ps k))"

definition setReady :: "nat \<Rightarrow> nat \<Rightarrow> 'w server \<Rightarrow> 'w server" where
  "setReady r a s = upd_room r (\<lambda>g. g\<lparr>rReadyPlayers := AList.update (pid s a) True (rReadyPlayers g)\<rparr>) s"

text \<open>The summary walks over \<open>r.Sessions\<close> without the room's lock.\<close>

definition broadcastSummaryP :: "nat \<Rightarrow> 'w gprog \<Rightarrow> 'w gprog" where
  "broadcastSummaryP r k = look (\<lambda>s. let sessions = sort_key (pid s) (List.map snd (rSessions (rheap s r))) in
     buildBattleInitJSONP (rID (rheap s r)) sessions (\<lambda>res. case res of
         Inl e \<Rightarrow> k
       | Inr initJSON \<Rightarrow> broadcastP r ''pokemon_selection_summary'' CodeSuccess (MSelect SelectionSummary) initJSON k))"

definition HandleSelectPokemonP :: "nat \<Rightarrow> nat \<Rightarrow> raw \<Rightarrow> 'w gprog \<Rightarrow> 'w gprog" where
  "HandleSelectPokemonP r a rawData k = Acquire (Writing (RoomMu r))
     (look (\<lambda>s. let status = rStatus (rheap s r) in
      look (\<lambda>s. let inRoom = map_of (rSessions (rheap s r)) (pid s a) \<noteq> None;
                     reply = (\<lambda>code m. sendP a ''select_pokemon_res'' code m JNull) in
      Release (Writing (RoomMu r))
        (if \<not> inRoom then reply CodePlayerNotInRoom (MBattle NotInThisRoom) k
         else if status \<noteq> RoomWaiting then reply CodeRoomStarted (MSelect GameAlreadyStarted) k
         else if rawData = RawEmpty then reply CodeDataInvalid (MSelect PokemonEmpty) k
         else (case unmarshal_raw dec_SelectPokemonRequest rawData \<lparr>req_Pokemon = None\<rparr> of
             (req, False) \<Rightarrow> reply CodeDataInvalid (MSelect ParseFailed) k
           | (req, True) \<Rightarrow>
             (let pokemon = (case req_Pokemon req of None \<Rightarrow> [] | Some ps \<Rightarrow> ps) in
              if length pokemon > 6 then reply CodeDataInvalid (MSelect TooManyPokemon) k
              else upd (clearTeam a) (selectTeamP a pokemon (\<lambda>ok.
                if \<not> ok then reply CodeDataInvalid (MSelect AbilityNotNumber) k
                else Acquire (Writing (RoomMu r)) (upd (setReady r a) (look (\<lambda>s.
                  let ready = allPlayersReady (rheap s r) in
                  Release (Writing (RoomMu r))
                  (reply CodeSuccess (MSelect PokemonSelected)
                  (look (\<lambda>s. broadcastP r ''player_ready'' CodeSuccess (MSelect (PlayerReady (pid s a))) JNull
                  (if ready then broadcastSummaryP r (StartGameP r k) else k)))))))))))))))"

definition HandleSelectPokemonAndPersistP :: "nat \<Rightarrow> raw \<Rightarrow> 'w gprog \<Rightarrow> 'w gprog" where
  "HandleSelectPokemonAndPersistP a rawData k = look (\<lambda>s.
     if sRoomID (sheap s a) = []
     then sendP a ''select_pokemon_res'' CodeRoomNotExist (MRoom NotInRoom) JNull k
     else lookupP a (\<lambda>found. case found of
         None \<Rightarrow> sendP a ''select_pokemon_res'' CodeRoomNotExist (MRoom RoomNotExist) JNull k
       | Some r \<Rightarrow> HandleSelectPokemonP r a rawData k))"

section \<open>Moving rooms\<close>

text \<open>The rooms to move are chosen while \<open>rm.mu\<close> is held for reading, Redis calls included.\<close>

primrec targetRoomsP :: "'w ext \<Rightarrow> EngineStatus \<Rightarrow> nat list \<Rightarrow> nat list \<Rightarrow> (nat list \<Rightarrow> 'w gprog) \<Rightarrow> 'w gprog" where
  "targetRoomsP X status [] acc k = k acc"
| "targetRoomsP X status (r # rs) acc k = Acquire (Writing (RoomMu r)) (look (\<lambda>s. let nodeID = rNodeID (rheap s r) in
     Release (Writing (RoomMu r))
     (callP (\<lambda>s. Some (mustMove X (rmStore s) status ((rheap s r)\<lparr>rNodeID := nodeID\<rparr>) (world s)))
       (\<lambda>move. targetRoomsP X status rs (if move then acc @ [r] else acc) k))))"

definition pickHealthyNodeForRoomP :: "string \<Rightarrow> int \<Rightarrow> (error + nat \<Rightarrow> 'w gprog) \<Rightarrow> 'w gprog" where
  "pickHealthyNodeForRoomP roomID excludePodIndex k = look (\<lambda>s.
     if \<not> rmEngine s then k (Inl (EEngine EEngineNil))
     else GetStatusP (\<lambda>status.
       let healthyIndices = List.map st_PodIndex
             (filter (\<lambda>node. \<not> (\<not> st_Healthy node \<or> st_PodIndex node = excludePodIndex)) (es_Nodes status)) in
       if healthyIndices = [] then k (Inl (EEngine ENoHealthyNodes))
       else GetNodeByPodIndexP (chooseByHash roomID healthyIndices) k))"

text \<open>The rest of the turn once the node is chosen.\<close>

definition moveRoomP :: "'w ext \<Rightarrow> nat \<Rightarrow> nat \<Rightarrow> (bool \<Rightarrow> 'w gprog) \<Rightarrow> 'w gprog" where
  "moveRoomP X r newNode k =
     Acquire (Writing (RoomMu r)) (look (\<lambda>s. let oldNodeID = rNodeID (rheap s r) in
      look (\<lambda>s. let roomStatus = rStatus (rheap s r) in
      Release (Writing (RoomMu r))
      (if roomStatus \<noteq> RoomPlaying then k True
       else look (\<lambda>s. if \<not> rmStore s then k False
       else callP (\<lambda>s. Some (LoadRoomSnapshot X (rID (rheap s r)) (world s))) (\<lambda>res. case res of
           Inl e \<Rightarrow> k False
         | Inr snap \<Rightarrow>
             GetClientP newNode (\<lambda>client.
             callP (\<lambda>s. CallCreateRoom X client (rID (rheap s r)) (enc_RoomSnapshot snap) (world s))
               (\<lambda>res. case res of
                  Inl e \<Rightarrow> k False
                | Inr resp \<Rightarrow> if resp_Code resp \<noteq> 0 then k False
                    else Acquire (Writing (RoomMu r)) (upd (setNodeID r newNode) (Release (Writing (RoomMu r))
                      (look (\<lambda>s. let n = nheap s newNode;
                           updatedSnapshot = \<lparr>sn_RoomID = rID (rheap s r), sn_Status = roomStatus,
                              sn_NodeID = PodIndex n, sn_ServerID = ServerID n, sn_Players = sn_Players snap,
                              sn_ReadyPlayers = sn_ReadyPlayers snap,
                              sn_SelectedPokemon = sn_SelectedPokemon snap,
                              sn_UpdatedAt = x_now X (world s)\<rparr>
                         in upd (saveSnapshot X updatedSnapshot)
                           (sendDestroyRoomRequestP (rID (rheap s r)) oldNodeID
                             (upd (saveSnapshot X updatedSnapshot) (k True)))))))))))))))"

definition reassignRoomP :: "'w ext \<Rightarrow> nat \<Rightarrow> (bool \<Rightarrow> 'w gprog) \<Rightarrow> 'w gprog" where
  "reassignRoomP X r k = Acquire (Writing (RoomMu r)) (Release (Writing (RoomMu r))
     (look (\<lambda>s. let exclude = rNodeID (rheap s r) in
      look (\<lambda>s. pickHealthyNodeForRoomP (rID (rheap s r)) exclude (\<lambda>picked. case picked of
        Inl e \<Rightarrow> k False
      | Inr newNode \<Rightarrow> moveRoomP X r newNode k)))))"

primrec reassignRoomsP :: "'w ext \<Rightarrow> nat list \<Rightarrow> int \<times> int \<Rightarrow> (int \<times> int \<Rightarrow> 'w gprog) \<Rightarrow> 'w gprog" where
  "reassignRoomsP X [] n k = k n"
| "reassignRoomsP X (r # rs) n k = reassignRoomP X r (\<lambda>moved.
     reassignRoomsP X rs (if moved then (fst n + 1, snd n) else (fst n, snd n + 1)) k)"

definition ReassignRunningRoomsP :: "'w ext \<Rightarrow> (int \<times> int \<Rightarrow> 'w gprog) \<Rightarrow> 'w gprog" where
  "ReassignRunningRoomsP X k = look (\<lambda>s. if \<not> rmEngine s then k (0, 0)
     else GetStatusP (\<lambda>status.
       if healthyPods status = [] then k (0, 0)
       else Acquire (Reading RM) (look (\<lambda>s. targetRoomsP X status (List.map snd (Rooms s)) [] (\<lambda>targets.
         Release (Reading RM) (reassignRoomsP X targets (0, 0) k))))))"

end
