(* ===== verification/HandlerProgs.thy ===== *)
theory HandlerProgs
  imports GameProgs
begin

text \<open>
  \<open>internal/handler\<close> at the granularity of the locks: the command handlers, the router, and the
  connection's goroutine. \<open>entry\<close> names every goroutine of the server, \<open>entryP\<close> its program.
\<close>

section \<open>Commands\<close>

type_synonym 'w handlerP = "nat \<Rightarrow> GameRequest \<Rightarrow> 'w gprog \<Rightarrow> 'w gprog"

definition do_cluster_statusP :: "gofmt \<Rightarrow> 'w handlerP" where
  "do_cluster_statusP F a req k = GetStatusP (\<lambda>status.
     sendP a ''cluster_status_res'' CodeSuccess (MRouter ClusterStatus) (enc_EngineStatus F status) k)"

definition redisReply :: "gofmt \<Rightarrow> DebugRoomInfo list \<Rightarrow> int \<Rightarrow> EngineStatus \<Rightarrow> json" where
  "redisReply F debugInfos timestamp status = JObj (sort_key fst
     [(''type'', JStr ''get_redis_res''), (''count'', jint (int (length debugInfos))), (''timestamp'', jint timestamp),
      (''rooms'', JArr (List.map (enc_DebugRoomInfo F) debugInfos)), (''engine_status'', enc_EngineStatus F status)])"

definition do_get_redisP :: "'w ext \<Rightarrow> gofmt \<Rightarrow> 'w handlerP" where
  "do_get_redisP X F a req k = look (\<lambda>s.
     if \<not> rmStore s then sendP a ''get_redis_res'' CodeServerErr (MRouter RedisNotInit) JNull k
     else Act (\<lambda>_. True) (\<lambda>s. case InspectAllRooms X (world s) of None \<Rightarrow> s | Some (_, w) \<Rightarrow> s\<lparr>world := w\<rparr>)
       (\<lambda>s. case InspectAllRooms X (world s) of
          None \<Rightarrow> Spin
        | Some (Inl e, _) \<Rightarrow> sendP a ''get_redis_res'' CodeServerErr (MRouter RedisUnreadable) JNull k
        | Some (Inr debugInfos, _) \<Rightarrow>
            look (\<lambda>s. let timestamp = x_now X (world s) in
            GetStatusP (\<lambda>status. sendP a ''get_redis_res'' CodeSuccess (MRouter RedisData)
              (redisReply F debugInfos timestamp status) k))))"

definition do_create_roomP :: "'w ext \<Rightarrow> 'w handlerP" where
  "do_create_roomP X a req k = CreateRoomP X a k"

definition do_join_roomP :: "'w handlerP" where
  "do_join_roomP a req k = JoinRoomP (fst (unmarshal_raw dec_joinData (req_Data req) [])) a k"

definition do_leave_roomP :: "'w ext \<Rightarrow> 'w handlerP" where
  "do_leave_roomP X a req k = look (\<lambda>s. let roomID = sRoomID (sheap s a) in
     LeaveRoomP X roomID a (sendP a ''leave_room_res'' CodeSuccess (MRouter LeftRoom) JNull k))"

definition do_list_roomsP :: "'w handlerP" where
  "do_list_roomsP a req k = GetRoomsP (\<lambda>rooms.
     sendP a ''list_rooms_res'' CodeSuccess (MRouter RoomListed) (JArr (List.map enc_RoomInfo rooms)) k)"

definition do_matchP :: "'w handlerP" where
  "do_matchP a req k = Act (\<lambda>s. length (MatchQueue s) < MatchQueueSize) (\<lambda>s. s\<lparr>MatchQueue := MatchQueue s @ [a]\<rparr>)
     (\<lambda>_. sendP a ''match_res'' CodeSuccess (MRouter MatchQueued) JNull k)"

definition do_start_gameP :: "'w handlerP" where
  "do_start_gameP a req k = StartGameForSessionP a k"

definition do_select_pokemonP :: "'w handlerP" where
  "do_select_pokemonP a req k = HandleSelectPokemonAndPersistP a (req_Data req) k"

definition do_battle_actionP :: "'w ext \<Rightarrow> 'w handlerP" where
  "do_battle_actionP X a req k = HandleBattleActionAndPersistP X a (req_Data req) k"

definition InitGameRoutersP :: "'w ext \<Rightarrow> gofmt \<Rightarrow> (string \<times> 'w handlerP) list" where
  "InitGameRoutersP X F =
     AList.update ''battle_action'' (do_battle_actionP X) (
     AList.update ''select_pokemon'' do_select_pokemonP (
     AList.update ''start_game'' do_start_gameP (
     AList.update ''match'' do_matchP (
     AList.update ''list_rooms'' do_list_roomsP (
     AList.update ''leave_room'' (do_leave_roomP X) (
     AList.update ''join_room'' do_join_roomP (
     AList.update ''create_room'' (do_create_roomP X) (
     AList.update ''get_redis'' (do_get_redisP X F) (
     AList.update ''cluster_status'' (do_cluster_statusP F) [])))))))))"

definition DispatchP :: "'w ext \<Rightarrow> (string \<times> 'w handlerP) list \<Rightarrow> nat \<Rightarrow> string \<Rightarrow> 'w gprog \<Rightarrow> 'w gprog" where
  "DispatchP X handlers a payload k = (case x_parse X payload of
      None \<Rightarrow> k
    | Some j \<Rightarrow> (case dec_GameRequest j \<lparr>req_Cmd = [], req_Data = RawEmpty\<rparr> of
        (req, False) \<Rightarrow> k
      | (req, True) \<Rightarrow> (case map_of handlers (req_Cmd req) of
            Some handler \<Rightarrow> handler a req k
          | None \<Rightarrow> sendP a (req_Cmd req @ ''_res'') CodeSendInvalid (MRouter UnknownCmd) JNull k)))"

section \<open>A connection\<close>

definition setConn :: "nat \<Rightarrow> nat option \<Rightarrow> 'w server \<Rightarrow> 'w server" where
  "setConn a c = upd_sess a (\<lambda>n. n\<lparr>sConn := c\<rparr>)"

definition addSession :: "string \<Rightarrow> nat \<Rightarrow> 'w server \<Rightarrow> 'w server" where
  "addSession uid c s = s\<lparr>sheap := (sheap s)(snext s := NewSession \<lparr>ID = uid, Username = []\<rparr> (Some c)),
     snext := Suc (snext s)\<rparr>"

text \<open>\<open>oldSession.Conn.Close()\<close> reads the field a third time, and dereferences it.\<close>

definition closeOldP :: "nat \<Rightarrow> 'w gprog \<Rightarrow> 'w gprog" where
  "closeOldP a k = look (\<lambda>s. if sConn (sheap s a) = None then k
     else look (\<lambda>s. if sConn (sheap s a) = None then k
     else look (\<lambda>s. if sConn (sheap s a) = None then Panic else k)))"

definition HandleWS_openP :: "string \<Rightarrow> nat \<Rightarrow> (nat \<times> bool \<Rightarrow> 'w gprog) \<Rightarrow> 'w gprog" where
  "HandleWS_openP uid currentConn k = FindSessionP uid (\<lambda>found. case found of
      Some a \<Rightarrow> closeOldP a (upd (setConn a (Some currentConn)) (look (\<lambda>s.
        let lobby = sendP a ''reconnect_success'' CodeSuccess (MRouter BackToLobby) JNull (k (a, False)) in
        if sRoomID (sheap s a) = [] then lobby
        else look (\<lambda>s. let roomID = sRoomID (sheap s a) in look (\<lambda>s.
          if map_of (Rooms s) roomID \<noteq> None then k (a, True) else lobby)))))
    | None \<Rightarrow> Act (\<lambda>_. True) (addSession uid currentConn) (\<lambda>s. let a = snext s in
        RegisterSessionP uid a (k (a, False))))"

text \<open>The deferred function tests \<open>s.Conn\<close> and clears it in two accesses.\<close>

definition HandleWS_closeP :: "nat \<Rightarrow> nat \<Rightarrow> (bool \<Rightarrow> 'w gprog) \<Rightarrow> 'w gprog" where
  "HandleWS_closeP a currentConn k = look (\<lambda>s.
     if sConn (sheap s a) = Some currentConn then upd (setConn a None) (k True) else k False)"

section \<open>All goroutines\<close>

datatype entry =
    EOpen string nat
  | EMessage nat string
  | EClose nat nat
  | EPump nat nat
  | ESync nat
  | EExpire string
  | EMatch
  | ETask task
  | EHealth
  | EDiscovery
  | EReconnect "int \<times> string \<times> int"
  | EShutdown

text \<open>The callback that \<open>main\<close> registers.\<close>

definition reassignP :: "'w ext \<Rightarrow> 'w gprog \<Rightarrow> 'w gprog" where
  "reassignP X k = ReassignRunningRoomsP X (\<lambda>_. k)"

primrec entryP :: "'w ext \<Rightarrow> gofmt \<Rightarrow> entry \<Rightarrow> 'w gprog" where
  "entryP X F (EOpen uid c) = HandleWS_openP uid c (\<lambda>_. Ret)"
| "entryP X F (EMessage a payload) = DispatchP X (InitGameRoutersP X F) a payload Ret"
| "entryP X F (EClose a c) = HandleWS_closeP a c (\<lambda>_. Ret)"
| "entryP X F (EPump a c) = WritePumpP a c"
| "entryP X F (ESync a) = SyncRoomStateP a Ret"
| "entryP X F (EExpire uid) = CleanUpIfStillOfflineP X uid Ret"
| "entryP X F EMatch = matchTurnP X Ret"
| "entryP X F (ETask t) = taskP X t"
| "entryP X F EHealth = healthTickP X (reassignP X) Ret"
| "entryP X F EDiscovery = discoveryTickP X Ret"
| "entryP X F (EReconnect l) = attemptReconnectP X (reassignP X) l Ret"
| "entryP X F EShutdown = DestroyAllRoomsP (ShutdownP X Ret)"

end
