(* ===== verification/Interleave.thy ===== *)
theory Interleave
  imports HandlerProgs RoomInv EngineInv
begin

text \<open>
  Any number of goroutines, in any interleaving. \<open>fine_inv\<close> is what survives of the invariant of
  theory \<open>RoomInv\<close> and of the one of theory \<open>EngineInv\<close>, \<open>evolves\<close> what never changes back, and \<open>guarded_by l\<close> what nobody
  touches without the lock \<open>l\<close>. Every program keeps its part of the contract of theory \<open>Goroutine\<close>.
\<close>

section \<open>The contract\<close>

definition table_ok :: "'w server \<Rightarrow> GameRoom \<Rightarrow> bool" where
  "table_ok s g \<longleftrightarrow> map_ok (rSessions g) \<and> map_ok (rReadyPlayers g)
     \<and> dom (map_of (rSessions g)) \<subseteq> dom (map_of (rReadyPlayers g))
     \<and> (\<forall>p a. map_of (rSessions g) p = Some a \<longrightarrow> a < snext s \<and> pid s a = p)
     \<and> length (rSessions g) \<le> MaxPlayersPerRoom"

lemma table_ok_cong: "pid t = pid s \<Longrightarrow> snext t = snext s \<Longrightarrow> table_ok t = table_ok s"
  by (simp add: table_ok_def fun_eq_iff)

definition tables_inv :: "'w server \<Rightarrow> bool" where
  "tables_inv s \<longleftrightarrow> map_ok (Rooms s) \<and> map_ok (AllSessions s)
     \<and> (\<forall>i r. map_of (Rooms s) i = Some r \<longrightarrow> r < rnext s \<and> rID (rheap s r) = i)
     \<and> (\<forall>r < rnext s. table_ok s (rheap s r))
     \<and> (\<forall>u a. map_of (AllSessions s) u = Some a \<longrightarrow> a < snext s \<and> pid s a = u)
     \<and> (\<forall>a. length (sSend (sheap s a)) \<le> sendCap)
     \<and> (\<forall>a \<in> set (MatchQueue s). a < snext s) \<and> length (MatchQueue s) \<le> MatchQueueSize"

definition evolves :: "'w server \<Rightarrow> 'w server \<Rightarrow> bool" where
  "evolves s t \<longleftrightarrow> snext s \<le> snext t \<and> rnext s \<le> rnext t
     \<and> (\<forall>a < snext s. pid t a = pid s a) \<and> (\<forall>r < rnext s. rID (rheap t r) = rID (rheap s r))"

text \<open>The engine's part: every entry of the node table is an allocated node with that index, whose
  connection and client belong together, and the hash ring agrees with its own table of nodes.\<close>

definition engine_ok :: "('w, 'm) net_scheme \<Rightarrow> bool" where
  "engine_ok s \<longleftrightarrow> map_ok (nodes (eng s)) \<and> ring_wf (Mgr s)
     \<and> (\<forall>i a. map_of (nodes (eng s)) i = Some a \<longrightarrow>
          a < nnext s \<and> PodIndex (nheap s a) = i \<and> nclient (nheap s a) = nconn (nheap s a))"

definition fine_inv :: "'w server \<Rightarrow> bool" where
  "fine_inv s \<longleftrightarrow> tables_inv s \<and> engine_ok s"

lemma engine_ok_cong:
  "nheap t = nheap s \<Longrightarrow> nnext t = nnext s \<Longrightarrow> nodes (eng t) = nodes (eng s) \<Longrightarrow> Mgr t = Mgr s \<Longrightarrow> engine_ok t = engine_ok s"
  by (simp add: engine_ok_def)

definition kept_room :: "nat \<Rightarrow> 'w server \<Rightarrow> 'w server \<Rightarrow> bool" where
  "kept_room r s t \<longleftrightarrow> rnext s \<le> rnext t \<and> (r < rnext s \<longrightarrow>
     rSessions (rheap t r) = rSessions (rheap s r) \<and> rReadyPlayers (rheap t r) = rReadyPlayers (rheap s r)
     \<and> rStatus (rheap t r) = rStatus (rheap s r) \<and> rNodeID (rheap t r) = rNodeID (rheap s r))"

text \<open>What each lock guards. \<open>EngineMu\<close> also covers the nodes that are added to the table, so nodes are
  spoken of only once they are allocated.\<close>

fun guarded_by :: "slock \<Rightarrow> 'w server \<Rightarrow> 'w server \<Rightarrow> bool" where
  "guarded_by RM s t \<longleftrightarrow> Rooms t = Rooms s \<and> AllSessions t = AllSessions s \<and> rnext t = rnext s"
| "guarded_by (RoomMu r) s t \<longleftrightarrow> kept_room r s t"
| "guarded_by EngineMu s t \<longleftrightarrow> nodes (eng t) = nodes (eng s) \<and> replicas (eng t) = replicas (eng s)
     \<and> maxPodIndex (eng t) = maxPodIndex (eng s)"
| "guarded_by (NodeMu a) s t \<longleftrightarrow> nnext s \<le> nnext t
     \<and> (a < nnext s \<longrightarrow> (nheap t a)\<lparr>reconnecting := False\<rparr> = (nheap s a)\<lparr>reconnecting := False\<rparr>)"
| "guarded_by (ReconnectMu a) s t \<longleftrightarrow> nnext s \<le> nnext t
     \<and> (a < nnext s \<longrightarrow> reconnecting (nheap t a) = reconnecting (nheap s a))"
| "guarded_by MgrMu s t \<longleftrightarrow> Mgr t = Mgr s"

lemma guarded_by_refl: "guarded_by l s s"
  by (cases l) (simp_all add: kept_room_def)

lemma guarded_by_trans: "guarded_by l s t \<Longrightarrow> guarded_by l t u \<Longrightarrow> guarded_by l s u"
  by (cases l) (simp_all add: kept_room_def)

text \<open>The contract carries along the rooms that ever had a player. A room enters that set only under
  \<open>rm.mu\<close>, and whenever nobody writes under \<open>rm.mu\<close>, every room of the table is in it: that is why nobody
  can enter a room between its being filed and its creator's taking its mutex.\<close>

definition occupied :: "'w server \<Rightarrow> nat set" where
  "occupied s = {r. r < rnext s \<and> rSessions (rheap s r) \<noteq> []}"

definition protects :: "slock \<Rightarrow> 'w server \<times> nat set \<Rightarrow> 'w server \<times> nat set \<Rightarrow> bool" where
  "protects l x y \<longleftrightarrow> guarded_by l (fst x) (fst y) \<and> (l = RM \<longrightarrow> snd y = snd x)"

definition all_seated :: "'w server \<times> nat set \<Rightarrow> bool" where
  "all_seated x \<longleftrightarrow> (\<forall>i r. map_of (Rooms (fst x)) i = Some r \<longrightarrow> r \<in> snd x)"

definition rules :: "(slock, 'w server, 'w server \<times> nat set) contract" where
  "rules = \<lparr>actual = fst, track = (\<lambda>t x. (t, snd x \<union> occupied t)),
     Inv = (\<lambda>x. fine_inv (fst x) \<and> occupied (fst x) \<subseteq> snd x \<and> snd x \<subseteq> {..<rnext (fst x)}),
     Evo = (\<lambda>x y. evolves (fst x) (fst y) \<and> snd x \<subseteq> snd y),
     Keep = protects, Res = (\<lambda>l x. l = RM \<longrightarrow> all_seated x)\<rparr>"

interpretation fg: rely_guarantee rules
proof unfold_locales
  fix l :: slock and t :: "'a server" and x y z :: "'a server \<times> nat set"
  show "actual rules (track rules t x) = t" and "Evo rules x x" by (simp_all add: rules_def evolves_def)
  show "Evo rules x z" if "Evo rules x y" "Evo rules y z"
    using that by (auto simp: rules_def evolves_def)
  show "Keep rules l x x" by (simp add: rules_def protects_def guarded_by_refl)
  show "Keep rules l x z" if "Keep rules l x y" "Keep rules l y z"
    using that guarded_by_trans by (auto simp: rules_def protects_def)
  show "Res rules l y" if "Res rules l x" "Keep rules l x y"
    using that by (auto simp: rules_def protects_def all_seated_def)
qed

text \<open>A goroutine with the locks \<open>H\<close> between two accesses, and an access that leads to \<open>t\<close>.\<close>

definition intact :: "slock hold list \<Rightarrow> 'w server \<times> nat set \<Rightarrow> bool" where
  "intact H x \<longleftrightarrow> Inv rules x \<and> (\<forall>h \<in> set H. Res rules (lk h) x)"

definition grants :: "slock hold list \<Rightarrow> 'w server \<times> nat set \<Rightarrow> 'w server \<Rightarrow> bool" where
  "grants H x t \<longleftrightarrow> guar rules H x (track rules t x) \<and> intact H (track rules t x)"

lemma intact_inv: "intact H x \<Longrightarrow> tables_inv (fst x)" "intact H x \<Longrightarrow> occupied (fst x) \<subseteq> snd x"
  "intact H x \<Longrightarrow> snd x \<subseteq> {..<rnext (fst x)}" "intact H x \<Longrightarrow> h \<in> set H \<Longrightarrow> lk h = RM \<Longrightarrow> all_seated x"
  "intact H x \<Longrightarrow> engine_ok (fst x)"
  by (auto simp: intact_def rules_def fine_inv_def)

lemma grantsI:
  assumes x: "intact H (s, h)" and I: "tables_inv t" and e: "evolves s t" and eng: "engine_ok s \<Longrightarrow> engine_ok t" and o: "occupied t \<subseteq> h"
    and k: "\<And>l. Writing l \<notin> set H \<Longrightarrow> guarded_by l s t"
    and r: "\<And>i r. map_of (Rooms t) i = Some r \<Longrightarrow> map_of (Rooms s) i = Some r"
  shows "grants H (s, h) t"
proof -
  have h: "h \<subseteq> {..<rnext t}" using intact_inv(3) [OF x] e by (auto simp: evolves_def intro: less_le_trans)
  have z: "track rules t (s, h) = (t, h)" using o by (auto simp: rules_def)
  have F: "fine_inv t" using I eng intact_inv(5) [OF x] by (simp add: fine_inv_def)
  have "Keep rules l (s, h) (t, h)" if "Writing l \<notin> set H" for l
    using k [OF that] by (simp add: rules_def protects_def)
  then have "guar rules H (s, h) (t, h)" using F e o h by (simp add: guar_def rules_def)
  moreover have "intact H (t, h)" using x F o h unfolding intact_def by (auto simp: rules_def all_seated_def dest: r)
  ultimately show ?thesis by (simp add: grants_def z)
qed

lemma tables_invD:
  assumes "tables_inv s"
  shows "map_ok (Rooms s)" "map_ok (AllSessions s)" "map_of (Rooms s) i = Some r \<Longrightarrow> r < rnext s"
    "map_of (Rooms s) i = Some r \<Longrightarrow> rID (rheap s r) = i" "r < rnext s \<Longrightarrow> table_ok s (rheap s r)"
    "map_of (AllSessions s) u = Some a \<Longrightarrow> a < snext s" "map_of (AllSessions s) u = Some a \<Longrightarrow> pid s a = u"
    "length (sSend (sheap s a)) \<le> sendCap" "a \<in> set (MatchQueue s) \<Longrightarrow> a < snext s"
    "length (MatchQueue s) \<le> MatchQueueSize"
  using assms unfolding tables_inv_def by blast+

lemma fine_inv_parts: "fine_inv s \<Longrightarrow> tables_inv s" "fine_inv s \<Longrightarrow> engine_ok s"
  by (simp_all add: fine_inv_def)

lemmas fine_invD = tables_invD [OF fine_inv_parts(1)]

section \<open>Accesses\<close>

text \<open>An access that touches nothing any lock protects.\<close>

definition same_nodes :: "('w, 'm) net_scheme \<Rightarrow> ('w, 'm) net_scheme \<Rightarrow> bool" where
  "same_nodes s t \<longleftrightarrow> nheap t = nheap s \<and> nnext t = nnext s \<and> nodes (eng t) = nodes (eng s)
     \<and> replicas (eng t) = replicas (eng s) \<and> maxPodIndex (eng t) = maxPodIndex (eng s) \<and> Mgr t = Mgr s"

lemma same_nodes_ok: "same_nodes s t \<Longrightarrow> engine_ok t = engine_ok s"
  by (rule engine_ok_cong) (simp_all add: same_nodes_def)

lemma same_guarded:
  assumes "same_nodes s t" "Rooms t = Rooms s" "AllSessions t = AllSessions s" "rnext t = rnext s" "rheap t = rheap s"
  shows "guarded_by l s t"
  using assms by (cases l) (simp_all add: same_nodes_def kept_room_def)

definition harmless :: "'w server \<Rightarrow> 'w server \<Rightarrow> bool" where
  "harmless s t \<longleftrightarrow> same_rooms s t \<and> same_nodes s t \<and> length (MatchQueue t) \<le> length (MatchQueue s)"

lemma harmless_grants:
  assumes x: "intact H x" and h: "harmless (fst x) t" shows "grants H x t"
proof -
  obtain s hs where xs: "x = (s, hs)" by force
  have I: "tables_inv s" using intact_inv(1) [OF x] xs by simp
  have eq: "rheap t = rheap s" "rnext t = rnext s" "Rooms t = Rooms s" "AllSessions t = AllSessions s" "snext t = snext s"
    "pid t = pid s" "set (MatchQueue t) \<subseteq> set (MatchQueue s)" "length (MatchQueue t) \<le> length (MatchQueue s)"
    "\<forall>a. length (sSend (sheap t a)) \<le> sendCap"
    using I h same_rooms_pid [of s t] by (auto simp: xs harmless_def same_rooms_def tables_inv_def)
  have "table_ok t = table_ok s" by (simp add: table_ok_def fun_eq_iff eq)
  then have "tables_inv t" using I eq unfolding tables_inv_def by auto
  moreover have "occupied t \<subseteq> hs" using intact_inv(2) [OF x] by (simp add: xs occupied_def eq)
  moreover have n: "same_nodes s t" using h by (simp add: xs harmless_def)
  ultimately show ?thesis using x unfolding xs
    by (intro grantsI same_guarded) (simp_all add: eq evolves_def same_nodes_ok)
qed

lemma in_set_tlI: "x \<in> set (tl xs) \<Longrightarrow> x \<in> set xs"
  by (cases xs) simp_all

lemma harmless_upds [simp]:
  "harmless s s" "harmless s (s\<lparr>world := w\<rparr>)" "harmless s (s\<lparr>tasks := ts\<rparr>)" "harmless s (spawn t s)"
  "harmless s (s\<lparr>MatchQueue := tl (MatchQueue s)\<rparr>)" "harmless s (setRoomID a i s)" "harmless s (setConn a c s)"
  "harmless s (clearTeam a s)" "harmless s (addPokemon a poke s)" "harmless s (destroyCall X cl i s)"
  "harmless s (saveSnapshot X sn s)" "harmless s (upd_sess a (offer m) s)"
  "harmless s (upd_sess a (\<lambda>n. n\<lparr>sSend := tl (sSend n)\<rparr>) s)"
  "length (sSend (sheap s a)) < sendCap \<Longrightarrow> harmless s (upd_sess a (push m) s)"
  by (auto simp: harmless_def same_rooms_def same_nodes_def spawn_def setRoomID_def setConn_def clearTeam_def addPokemon_def
      destroyCall_def saveSnapshot_def offer_def push_def split: option.split intro: order_trans [OF diff_le_self] in_set_tlI)

lemma harmless_engine:
  fixes s t :: "'w server"
  assumes "net.more t = net.more s" "same_nodes s t" shows "harmless s t"
  using assms by (cases s; cases t; simp add: harmless_def same_rooms_def pid_def)

text \<open>A write to a room by the holder of its lock; a player enters only a room that had one before.\<close>

lemma room_grants:
  assumes x: "intact H x" and h: "Writing (RoomMu r) \<in> set H"
    and ok: "r < rnext (fst x) \<Longrightarrow> table_ok (fst x) (rheap (fst x) r) \<Longrightarrow> table_ok (fst x) (f (rheap (fst x) r))"
    and id: "rID (f (rheap (fst x) r)) = rID (rheap (fst x) r)"
    and o: "rSessions (rheap (fst x) r) = [] \<Longrightarrow> r \<notin> snd x \<Longrightarrow> rSessions (f (rheap (fst x) r)) = []"
  shows "grants H x (upd_room r f (fst x))"
proof -
  obtain s hs where xs: "x = (s, hs)" by force
  let ?t = "upd_room r f s"
  have p: "pid ?t = pid s" by (simp add: pid_def fun_eq_iff)
  have t: "table_ok ?t = table_ok s" by (simp add: table_ok_def fun_eq_iff p)
  have "tables_inv ?t" using intact_inv(1) [OF x] ok id by (simp add: xs tables_inv_def p t)
  moreover have "evolves s ?t" using id by (simp add: evolves_def p xs)
  moreover have "occupied ?t \<subseteq> hs" using intact_inv(2) [OF x] o by (auto simp: xs occupied_def)
  moreover have "guarded_by l s ?t" if "Writing l \<notin> set H" for l
    using that h by (cases l) (auto simp: kept_room_def)
  moreover have "engine_ok s \<Longrightarrow> engine_ok ?t" by (simp add: engine_ok_def)
  ultimately show ?thesis using x unfolding xs by (auto intro!: grantsI)
qed

lemma table_ok_simps [simp]:
  "table_ok s (g\<lparr>rStatus := st\<rparr>) = table_ok s g" "table_ok s (g\<lparr>rNodeID := n\<rparr>) = table_ok s g"
  by (simp_all add: table_ok_def)

lemma length_delete_le: "length (AList.delete p m) \<le> length m"
  by (simp add: AList.delete_eq)

lemma table_ok_leave:
  "table_ok s g \<Longrightarrow> table_ok s (g\<lparr>rSessions := AList.delete p (rSessions g), rReadyPlayers := AList.delete p (rReadyPlayers g)\<rparr>)"
  by (auto simp: table_ok_def intro: order_trans [OF length_delete_le])

lemma table_ok_ready: "table_ok s g \<Longrightarrow> table_ok s (g\<lparr>rReadyPlayers := AList.update p b (rReadyPlayers g)\<rparr>)"
  by (auto simp: table_ok_def)

lemma table_ok_enter:
  assumes "table_ok s g" "a < snext s" "length (rSessions g) < MaxPlayersPerRoom"
  shows "table_ok s (g\<lparr>rSessions := AList.update (pid s a) a (rSessions g),
     rReadyPlayers := AList.update (pid s a) False (rReadyPlayers g)\<rparr>)"
  using assms length_update_le [of "pid s a" a "rSessions g"] by (auto simp: table_ok_def)

lemma room_writes:
  assumes "intact H x" "Writing (RoomMu r) \<in> set H"
  shows "grants H x (setStatus r st (fst x))" "grants H x (setNodeID r na (fst x))" "grants H x (unseat r a (fst x))"
    "grants H x (setReady r a (fst x))"
  unfolding setStatus_def setNodeID_def unseat_def setReady_def
  by (rule room_grants [OF assms], simp_all add: table_ok_leave table_ok_ready)+

lemma seat_grants:
  assumes "intact H x" "Writing (RoomMu r) \<in> set H" "a < snext (fst x)" "r \<in> snd x"
    and "length (rSessions (rheap (fst x) r)) < MaxPlayersPerRoom"
  shows "grants H x (seat r a (fst x))"
  unfolding seat_def by (rule room_grants [OF assms(1,2)]) (simp_all add: table_ok_enter assms(3-5))

text \<open>A write to the tables by the holder of the manager's lock.\<close>

lemma table_grants:
  assumes x: "intact H x" and h: "Writing RM \<in> set H"
    and eq: "rheap t = rheap (fst x)" "rnext t = rnext (fst x)" "snext t = snext (fst x)" "sheap t = sheap (fst x)"
      "MatchQueue t = MatchQueue (fst x)" and n: "same_nodes (fst x) t"
    and m: "map_ok (Rooms t)" "map_ok (AllSessions t)"
    and r: "\<And>i r. map_of (Rooms t) i = Some r \<Longrightarrow> map_of (Rooms (fst x)) i = Some r"
    and u: "\<And>u a. map_of (AllSessions t) u = Some a \<Longrightarrow> a < snext (fst x) \<and> pid (fst x) a = u"
  shows "grants H x t"
proof -
  obtain s hs where xs: "x = (s, hs)" by force
  have I: "tables_inv s" using intact_inv(1) [OF x] by (simp add: xs)
  have p: "pid t = pid s" by (simp add: pid_def fun_eq_iff eq xs)
  have "table_ok t = table_ok s" by (simp add: table_ok_def fun_eq_iff p eq xs)
  moreover have "q < rnext s \<and> rID (rheap s q) = i" if "map_of (Rooms t) i = Some q" for i q
    using tables_invD(3,4) [OF I] r [OF that] by (simp add: xs)
  ultimately have "tables_inv t" using I m u by (simp add: tables_inv_def p eq xs)
  moreover have "occupied t \<subseteq> hs" using intact_inv(2) [OF x] by (simp add: xs occupied_def eq)
  moreover have "guarded_by l s t" if "Writing l \<notin> set H" for l
    using that h n eq by (cases l) (auto simp: xs kept_room_def same_nodes_def)
  ultimately show ?thesis using x r n unfolding xs by (intro grantsI) (simp_all add: eq xs p evolves_def same_nodes_ok)
qed

lemma table_writes:
  assumes "intact H x" "Writing RM \<in> set H"
  shows "grants H x (forgetRoom i (fst x))" "grants H x ((fst x)\<lparr>Rooms := []\<rparr>)" "grants H x (forgetSession u (fst x))"
    "a < snext (fst x) \<Longrightarrow> pid (fst x) a = u \<Longrightarrow> grants H x (RegisterSession u a (fst x))"
proof -
  note I = tables_invD [OF intact_inv(1) [OF assms(1)]]
  show "grants H x (forgetRoom i (fst x))"
    by (rule table_grants [OF assms]) (use I in \<open>auto simp: forgetRoom_def same_nodes_def split: if_splits\<close>)
  show "grants H x ((fst x)\<lparr>Rooms := []\<rparr>)"
    by (rule table_grants [OF assms]) (use I in \<open>auto simp: same_nodes_def\<close>)
  show "grants H x (forgetSession u (fst x))"
    by (rule table_grants [OF assms]) (use I in \<open>auto simp: forgetSession_def same_nodes_def split: if_splits\<close>)
  show "grants H x (RegisterSession u a (fst x))" if "a < snext (fst x)" "pid (fst x) a = u"
    by (rule table_grants [OF assms]) (use I that in \<open>auto simp: RegisterSession_def same_nodes_def split: if_splits\<close>)
qed

section \<open>Programs that are sound from every state\<close>

abbreviation sound :: "'w gprog \<Rightarrow> slock hold list \<Rightarrow> 'w server \<times> nat set \<Rightarrow> bool" where
  "sound \<equiv> safe rules"

definition always :: "'w gprog \<Rightarrow> slock hold list \<Rightarrow> bool" where
  "always p H \<longleftrightarrow> (\<forall>x. intact H x \<longrightarrow> sound p H x)"

named_theorems always "programs that are sound from every state"

lemma always_sound: "always p H \<Longrightarrow> intact H x \<Longrightarrow> sound p H x"
  unfolding always_def by blast

lemma relies_intact: "intact H x \<Longrightarrow> rely rules H x y \<Longrightarrow> intact H y"
  unfolding intact_def rely_def using fg.Res_Keep by blast

lemma always_end [always]: "always Ret H" "always Panic H" "always Spin H"
  by (simp_all add: always_def)

lemma sound_act:
  assumes x: "intact H x"
    and u: "\<And>y. rely rules H x y \<Longrightarrow> intact H y \<Longrightarrow> g (fst y) \<Longrightarrow> grants H y (u (fst y))"
    and k: "\<And>y z. rely rules H x y \<Longrightarrow> intact H y \<Longrightarrow> g (fst y) \<Longrightarrow> z = track rules (u (fst y)) y \<Longrightarrow>
      guar rules H y z \<Longrightarrow> intact H z \<Longrightarrow> sound (k (fst y)) H z"
  shows "sound (Act g u k) H x"
  unfolding safe.simps(4)
proof (intro allI impI)
  fix y assume r: "rely rules H x y" and g: "g (actual rules y)"
  have a: "actual rules y = fst y" by (simp add: rules_def)
  have y: "intact H y" by (rule relies_intact [OF x r])
  have "grants H y (u (fst y))" by (rule u [OF r y]) (use g a in simp)
  then show "let z = track rules (u (actual rules y)) y in guar rules H y z \<and> sound (k (actual rules y)) H z"
    using k [OF r y] g by (simp add: a grants_def Let_def)
qed

lemma sound_acquire:
  assumes x: "intact H x" and p: "\<And>y. rely rules H x y \<Longrightarrow> intact (h # H) y \<Longrightarrow> sound p (h # H) y"
  shows "sound (Acquire h p) H x"
  using p relies_intact [OF x] by (auto simp: intact_def)

lemma sound_release:
  assumes x: "intact H x" and h: "h \<in> set H"
    and p: "\<And>y. rely rules H x y \<Longrightarrow> intact H y \<Longrightarrow> intact (remove1 h H) y \<Longrightarrow> sound p (remove1 h H) y"
  shows "sound (Release h p) H x"
  using p relies_intact [OF x] h set_remove1_subset [of h H] by (auto simp: intact_def subset_iff)

lemma sound_look:
  assumes x: "intact H x" and k: "\<And>y. rely rules H x y \<Longrightarrow> intact H y \<Longrightarrow> sound (k (fst y)) H y"
  shows "sound (look k) H x"
proof -
  have t: "track rules (fst y) y = y" if "intact H y" for y :: "'a server \<times> nat set"
    using intact_inv(2) [OF that] by (cases y) (auto simp: rules_def)
  show ?thesis unfolding look_def
    by (rule sound_act [OF x]) (simp_all add: harmless_grants t k)
qed

lemma sound_upd:
  assumes x: "intact H x"
    and u: "\<And>y. rely rules H x y \<Longrightarrow> intact H y \<Longrightarrow> grants H y (u (fst y))"
    and k: "\<And>y z. rely rules H x y \<Longrightarrow> intact H y \<Longrightarrow> z = track rules (u (fst y)) y \<Longrightarrow>
      guar rules H y z \<Longrightarrow> intact H z \<Longrightarrow> sound p H z"
  shows "sound (upd u p) H x"
  unfolding upd_def by (rule sound_act [OF x]) (use u k in auto)

lemma always_act:
  assumes "\<And>x. intact H x \<Longrightarrow> g (fst x) \<Longrightarrow> grants H x (u (fst x))" and "\<And>s. always (k s) H"
  shows "always (Act g u k) H"
  unfolding always_def
proof (intro allI impI)
  fix x :: "'a server \<times> nat set" assume x: "intact H x"
  show "sound (Act g u k) H x"
    by (rule sound_act [OF x assms(1)]) (auto intro: always_sound [OF assms(2)])
qed

lemma always_look [always]: "(\<And>s. always (k s) H) \<Longrightarrow> always (look k) H"
  unfolding look_def by (rule always_act) (simp_all add: harmless_grants)

lemma always_upd: "(\<And>x. intact H x \<Longrightarrow> grants H x (u (fst x))) \<Longrightarrow> always p H \<Longrightarrow> always (upd u p) H"
  unfolding upd_def by (rule always_act)

lemma always_acquire [always]: "always p (h # H) \<Longrightarrow> always (Acquire h p) H"
  unfolding always_def using sound_acquire by blast

lemma always_release [always]: "h \<in> set H \<Longrightarrow> always p (remove1 h H) \<Longrightarrow> always (Release h p) H"
  unfolding always_def using sound_release by blast

lemma always_quiet [always]:
  "always p H \<Longrightarrow> always (upd (spawn t) p) H" "always p H \<Longrightarrow> always (upd (setRoomID a i) p) H"
  "always p H \<Longrightarrow> always (upd (setConn a c) p) H" "always p H \<Longrightarrow> always (upd (clearTeam a) p) H"
  "always p H \<Longrightarrow> always (upd (addPokemon a m) p) H" "always p H \<Longrightarrow> always (upd (destroyCall X cl i) p) H"
  "always p H \<Longrightarrow> always (upd (saveSnapshot X sn) p) H" "always p H \<Longrightarrow> always (upd (upd_sess a (offer msg)) p) H"
  by (simp_all add: always_upd harmless_grants)

lemma always_writes [always]:
  "Writing (RoomMu r) \<in> set H \<Longrightarrow> always p H \<Longrightarrow> always (upd (setStatus r st) p) H"
  "Writing (RoomMu r) \<in> set H \<Longrightarrow> always p H \<Longrightarrow> always (upd (setNodeID r na) p) H"
  "Writing (RoomMu r) \<in> set H \<Longrightarrow> always p H \<Longrightarrow> always (upd (unseat r a) p) H"
  "Writing (RoomMu r) \<in> set H \<Longrightarrow> always p H \<Longrightarrow> always (upd (setReady r a) p) H"
  "Writing RM \<in> set H \<Longrightarrow> always p H \<Longrightarrow> always (upd (forgetRoom i) p) H"
  "Writing RM \<in> set H \<Longrightarrow> always p H \<Longrightarrow> always (upd (forgetSession i) p) H"
  "Writing RM \<in> set H \<Longrightarrow> always p H \<Longrightarrow> always (upd (\<lambda>s. s\<lparr>Rooms := []\<rparr>) p) H"
  by (simp_all add: always_upd room_writes table_writes)

lemma always_sendP [always]: "always k H \<Longrightarrow> always (sendP a cmd code m d k) H"
  unfolding sendP_def by (rule always_act) (simp_all add: harmless_grants)

lemma always_callP [always]: "(\<And>res. always (k res) H) \<Longrightarrow> always (callP f k) H"
  unfolding callP_def by (rule always_act) (auto simp: harmless_grants intro: always_end split: option.split)

lemma always_net:
  assumes "\<And>s. net.more (u s) = net.more s" "\<And>s. same_nodes s (u s)" and "\<And>s. always (k s) H"
  shows "always (Act (\<lambda>_. True) u k) H"
  by (rule always_act) (simp_all add: harmless_grants harmless_engine assms)

lemma always_foldr: "(\<And>e q. always q H \<Longrightarrow> always (f e q) H) \<Longrightarrow> always p H \<Longrightarrow> always (foldr f es p) H"
  by (induction es) simp_all

lemma always_broadcastP [always]: "always k H \<Longrightarrow> always (broadcastP r cmd code m d k) H"
  unfolding broadcastP_def by (intro always always_foldr) simp_all

section \<open>The engine\<close>

text \<open>The programs of the engine touch neither rooms nor sessions.\<close>

lemma more_upds [simp]:
  "net.more (upd_node a f s) = net.more s" "net.more (closeClient X c s) = net.more s" "net.more (dropNode i s) = net.more s"
  "net.more (startLoop l s) = net.more s" "net.more (updateMaxPodIndex i s) = net.more s" "net.more (shrinkTo n s) = net.more s"
  "net.more (snd (ensureNode i s)) = net.more s"
  by (simp_all add: upd_node_def closeClient_def dropNode_def startLoop_def updateMaxPodIndex_def shrinkTo_def ensureNode_def
      split: option.split)

text \<open>A write to a node, to the node table or to the hash ring, by the holder of the lock that guards it.\<close>

definition steady :: "(EngineNode \<Rightarrow> EngineNode) \<Rightarrow> bool" where
  "steady f \<longleftrightarrow> (\<forall>n. PodIndex (f n) = PodIndex n \<and> (nclient n = nconn n \<longrightarrow> nclient (f n) = nconn (f n)))"

lemma engine_ok_writes:
  "engine_ok s \<Longrightarrow> steady f \<Longrightarrow> engine_ok (upd_node a f s)" "engine_ok s \<Longrightarrow> engine_ok (snd (ensureNode i s))"
  "engine_ok s \<Longrightarrow> engine_ok (dropNode i s)" "engine_ok s \<Longrightarrow> engine_ok (s\<lparr>eng := (eng s)\<lparr>nodes := []\<rparr>\<rparr>)"
  "engine_ok s \<Longrightarrow> ring_wf m \<Longrightarrow> engine_ok (s\<lparr>Mgr := m\<rparr>)"
  "engine_ok (shrinkTo n s) = engine_ok s" "engine_ok (updateMaxPodIndex i s) = engine_ok s"
  by (auto simp: engine_ok_def steady_def ensureNode_def getNode_def new_node_def dropNode_def shrinkTo_def updateMaxPodIndex_def
      less_Suc_eq split: option.splits if_splits)

lemma steady_intros:
  "steady (\<lambda>n. n\<lparr>reconnecting := b\<rparr>)" "steady (\<lambda>n. n\<lparr>reconnectFailures := z\<rparr>)" "steady (\<lambda>n. fst (replaceConnection addr c c z n))"
  "steady (\<lambda>n. fst (closeConn n))" "steady (\<lambda>n. fst (markHealthy hb z n))" "steady (markUnhealthy e)" "steady (incrementReconnectFailures z)"
  by (simp_all add: steady_def replaceConnection_def closeConn_def markHealthy_def Let_def markUnhealthy_def incrementReconnectFailures_def)

lemma engine_grants:
  fixes x :: "'w server \<times> nat set"
  assumes x: "intact H x" and m: "net.more t = net.more (fst x)" and e: "engine_ok (fst x) \<Longrightarrow> engine_ok t"
    and k: "\<And>l. Writing l \<notin> set H \<Longrightarrow> guarded_by l (fst x) t"
  shows "grants H x t"
proof -
  obtain s hs where xs: "x = (s, hs)" by force
  have eq: "rheap t = rheap s" "rnext t = rnext s" "Rooms t = Rooms s" "AllSessions t = AllSessions s" "snext t = snext s"
    "sheap t = sheap s" "MatchQueue t = MatchQueue s"
    using m by (cases s; cases t; simp add: xs)+
  have p: "pid t = pid s" by (simp add: pid_def fun_eq_iff eq)
  have "table_ok t = table_ok s" by (simp add: table_ok_def fun_eq_iff p eq)
  then have "tables_inv t" using intact_inv(1) [OF x] by (simp add: xs tables_inv_def p eq)
  moreover have "occupied t \<subseteq> hs" using intact_inv(2) [OF x] by (simp add: xs occupied_def eq)
  ultimately show ?thesis using x e k unfolding xs by (intro grantsI) (simp_all add: eq p evolves_def)
qed

lemma guarded_engine:
  assumes "net.more t = net.more s"
  shows "guarded_by RM s t" "guarded_by (RoomMu r) s t"
  using assms by (cases s; cases t; simp add: kept_room_def)+

definition keeps_flag :: "(EngineNode \<Rightarrow> EngineNode) \<Rightarrow> bool" where
  "keeps_flag f \<longleftrightarrow> (\<forall>n. reconnecting (f n) = reconnecting n)"

lemma keeps_flag_intros:
  "keeps_flag (\<lambda>n. n\<lparr>reconnectFailures := z\<rparr>)" "keeps_flag (\<lambda>n. fst (replaceConnection addr c c z n))" "keeps_flag (\<lambda>n. fst (closeConn n))"
  "keeps_flag (\<lambda>n. fst (markHealthy hb z n))" "keeps_flag (markUnhealthy e)" "keeps_flag (incrementReconnectFailures z)"
  by (simp_all add: keeps_flag_def replaceConnection_def closeConn_def markHealthy_def Let_def markUnhealthy_def incrementReconnectFailures_def)

lemma node_grants:
  assumes "intact H x" "Writing (NodeMu a) \<in> set H" "steady f" "keeps_flag f"
  shows "grants H x (upd_node a f (fst x))"
proof (rule engine_grants [OF assms(1)])
  fix l assume "Writing l \<notin> set H"
  then show "guarded_by l (fst x) (upd_node a f (fst x))"
    using assms(2,4) by (cases l) (auto simp: guarded_engine keeps_flag_def simp del: guarded_by.simps(1,2))
qed (simp_all add: engine_ok_writes assms(3))

lemma flag_grants:
  assumes "intact H x" "Writing (ReconnectMu a) \<in> set H"
  shows "grants H x (upd_node a (\<lambda>n. n\<lparr>reconnecting := b\<rparr>) (fst x))"
proof (rule engine_grants [OF assms(1)])
  fix l assume "Writing l \<notin> set H"
  then show "guarded_by l (fst x) (upd_node a (\<lambda>n. n\<lparr>reconnecting := b\<rparr>) (fst x))"
    using assms(2) by (cases l) (auto simp: guarded_engine simp del: guarded_by.simps(1,2))
qed (simp_all add: engine_ok_writes steady_intros)

lemma ring_grants:
  assumes "intact H x" "Writing MgrMu \<in> set H" "\<And>m. ring_wf m \<Longrightarrow> ring_wf (f m)"
  shows "grants H x ((fst x)\<lparr>Mgr := f (Mgr (fst x))\<rparr>)"
proof (rule engine_grants [OF assms(1)])
  fix l assume "Writing l \<notin> set H"
  then show "guarded_by l (fst x) ((fst x)\<lparr>Mgr := f (Mgr (fst x))\<rparr>)"
    using assms(2) by (cases l) (auto simp: guarded_engine simp del: guarded_by.simps(1,2))
next
  assume "engine_ok (fst x)"
  then show "engine_ok ((fst x)\<lparr>Mgr := f (Mgr (fst x))\<rparr>)" using engine_ok_writes(5) assms(3) by (simp add: engine_ok_def)
qed simp

lemma node_table_grants:
  assumes "intact H x" "Writing EngineMu \<in> set H" "net.more t = net.more (fst x)" "engine_ok (fst x) \<Longrightarrow> engine_ok t"
    and "nnext (fst x) \<le> nnext t" "\<And>a. a < nnext (fst x) \<Longrightarrow> nheap t a = nheap (fst x) a" "Mgr t = Mgr (fst x)"
  shows "grants H x t"
proof (rule engine_grants [OF assms(1,3)])
  fix l assume "Writing l \<notin> set H"
  then show "guarded_by l (fst x) t"
    using assms(2,5-7) guarded_engine [OF assms(3)] by (cases l) (auto simp del: guarded_by.simps(1,2))
qed (rule assms(4))

lemma table_frames [simp]:
  "nnext s \<le> nnext (snd (ensureNode i s))" "a < nnext s \<Longrightarrow> nheap (snd (ensureNode i s)) a = nheap s a"
  "Mgr (snd (ensureNode i s)) = Mgr s" "nnext (dropNode i s) = nnext s" "nheap (dropNode i s) = nheap s" "Mgr (dropNode i s) = Mgr s"
  "nnext (shrinkTo n s) = nnext s" "nheap (shrinkTo n s) = nheap s" "Mgr (shrinkTo n s) = Mgr s"
  "nnext (updateMaxPodIndex i s) = nnext s" "nheap (updateMaxPodIndex i s) = nheap s" "Mgr (updateMaxPodIndex i s) = Mgr s"
  by (simp_all add: ensureNode_def dropNode_def shrinkTo_def updateMaxPodIndex_def split: option.split)

lemma node_table_writes:
  assumes "intact H x" "Writing EngineMu \<in> set H"
  shows "grants H x (snd (ensureNode i (fst x)))" "grants H x (dropNode i (fst x))" "grants H x (shrinkTo n (fst x))"
    "grants H x (updateMaxPodIndex i (fst x))" "grants H x ((fst x)\<lparr>eng := (eng (fst x))\<lparr>nodes := []\<rparr>\<rparr>)"
proof -
  show "grants H x (snd (ensureNode i (fst x)))" by (rule node_table_grants [OF assms]) (simp_all add: engine_ok_writes)
  show "grants H x (dropNode i (fst x))" by (rule node_table_grants [OF assms]) (simp_all add: engine_ok_writes)
  show "grants H x (shrinkTo n (fst x))" by (rule node_table_grants [OF assms]) (simp_all add: engine_ok_writes)
  show "grants H x (updateMaxPodIndex i (fst x))" by (rule node_table_grants [OF assms]) (simp_all add: engine_ok_writes)
  show "grants H x ((fst x)\<lparr>eng := (eng (fst x))\<lparr>nodes := []\<rparr>\<rparr>)" by (rule node_table_grants [OF assms]) (simp_all add: engine_ok_writes)
qed

lemma always_readEngine [always]: "(\<And>r. always (k r) H) \<Longrightarrow> always (readEngine f k) H"
  by (auto simp: readEngine_def intro!: always)

lemma always_readNode [always]: "(\<And>r. always (k r) H) \<Longrightarrow> always (readNode a f k) H"
  by (auto simp: readNode_def intro!: always)

lemma always_writeNode [always]:
  assumes "\<And>w. steady (\<lambda>n. fst (g w n))" "\<And>w. keeps_flag (\<lambda>n. fst (g w n))" "\<And>r. always (k r) H"
  shows "always (writeNode a g k) H"
  unfolding writeNode_def
proof (intro always always_act)
  fix x :: "'a server \<times> nat set" assume "intact (Writing (NodeMu a) # H) x"
  then show "grants (Writing (NodeMu a) # H) x (upd_node a (\<lambda>n. fst (g (world (fst x)) n)) (fst x))"
    by (rule node_grants) (simp_all add: assms)
qed (simp_all add: assms)

lemma always_accesses [always]:
  "(\<And>b. always (c b) H) \<Longrightarrow> always (isConnectedP a c) H" "(\<And>b. always (d b) H) \<Longrightarrow> always (addrSnapshotP a d) H"
  "(\<And>b. always (e b) H) \<Longrightarrow> always (snapshotP a e) H" "(\<And>b. always (f b) H) \<Longrightarrow> always (getReconnectFailuresP a f) H"
  "always p H \<Longrightarrow> always (clearReconnectFailuresP a p) H" "(\<And>b. always (f b) H) \<Longrightarrow> always (getMaxPodIndexP f) H"
  by (auto simp: isConnectedP_def addrSnapshotP_def snapshotP_def getReconnectFailuresP_def clearReconnectFailuresP_def
      getMaxPodIndexP_def steady_intros keeps_flag_intros intro!: always)

lemma always_engine_writes [always]:
  "Writing (ReconnectMu a) \<in> set H \<Longrightarrow> always p H \<Longrightarrow> always (upd (upd_node a (\<lambda>n. n\<lparr>reconnecting := b\<rparr>)) p) H"
  "Writing EngineMu \<in> set H \<Longrightarrow> always p H \<Longrightarrow> always (upd (dropNode i) p) H"
  "Writing EngineMu \<in> set H \<Longrightarrow> always p H \<Longrightarrow> always (upd (shrinkTo n) p) H"
  "Writing EngineMu \<in> set H \<Longrightarrow> always p H \<Longrightarrow> always (upd (updateMaxPodIndex i) p) H"
  "Writing EngineMu \<in> set H \<Longrightarrow> always p H \<Longrightarrow> always (upd (\<lambda>s. s\<lparr>eng := (eng s)\<lparr>nodes := []\<rparr>\<rparr>) p) H"
  by (simp_all add: always_upd flag_grants node_table_writes)

lemma always_engine_quiet [always]:
  assumes "always p H"
  shows "always (upd (closeClient X cl) p) H" "always (upd (startLoop l) p) H"
    "always (upd (\<lambda>s. s\<lparr>eng := (eng s)\<lparr>ctxDone := True\<rparr>\<rparr>) p) H"
  unfolding upd_def by (rule always_net; simp add: assms same_nodes_def startLoop_def)+

lemma always_registerP [always]: "(\<And>m. ring_wf m \<Longrightarrow> ring_wf (f m)) \<Longrightarrow> always p H \<Longrightarrow> always (registerP f p) H"
  by (auto simp: registerP_def intro!: always always_upd ring_grants)

lemma always_ensureNodeP [always]:
  assumes "\<And>a. always (d a) H" shows "always (ensureNodeP i d) H"
  unfolding ensureNodeP_def
proof (intro always always_act)
  fix x :: "'a server \<times> nat set" assume "intact (Writing EngineMu # H) x"
  then show "grants (Writing EngineMu # H) x (snd (ensureNode i (fst x)))" by (rule node_table_writes) simp
qed (simp_all add: assms)

lemma always_locks [always]:
  "(\<And>b. always (c b) H) \<Longrightarrow> always (isReconnectingP a c) H" "always p H \<Longrightarrow> always (setReconnectingP b a p) H"
  by (auto simp: isReconnectingP_def setReconnectingP_def intro!: always)

lemma always_lookups [always]:
  "(\<And>n. always (k n) H) \<Longrightarrow> always (getNodeP i k) H" "(\<And>l. always (m l) H) \<Longrightarrow> always (snapshotPodIndicesP m) H"
  "(\<And>c. always (d c) H) \<Longrightarrow> always (GetClientP a d) H" "(\<And>r. always (p r) H) \<Longrightarrow> always (GetNodeByPodIndexP i p) H"
  "(\<And>j. always (q j) H) \<Longrightarrow> always (hashRoomP room q) H"
  by (auto simp: getNodeP_def snapshotPodIndicesP_def GetClientP_def GetNodeByPodIndexP_def hashRoomP_def
      intro!: always split: option.split)

lemma always_candidatesP [always]: "(\<And>nf ul. always (k nf ul) H) \<Longrightarrow> always (candidatesP is nf ul k) H"
  by (induction "is" arbitrary: nf ul) (auto intro!: always split: option.split)

lemma always_GetNodeForRoomP [always]: "(\<And>r. always (k r) H) \<Longrightarrow> always (GetNodeForRoomP i k) H"
  by (auto simp: GetNodeForRoomP_def pickPreferredNodeForRoomP_def Let_def intro!: always split: option.split sum.split)

lemma always_statusesP [always]: "(\<And>sts. always (k sts) H) \<Longrightarrow> always (statusesP is acc k) H"
  by (induction "is" arbitrary: acc) (auto intro!: always split: option.split)

lemma always_GetStatusP [always]: "(\<And>st. always (k st) H) \<Longrightarrow> always (GetStatusP k) H"
  by (auto simp: GetStatusP_def Let_def intro!: always)

section \<open>Rooms\<close>

lemma always_destroyAttemptsP [always]: "(\<And>ok. always (k ok) H) \<Longrightarrow> always (destroyAttemptsP X na i n k) H"
  by (induction n) (auto intro!: always split: sum.split)

lemma always_destroyP [always]:
  "(\<And>ok. always (k ok) H) \<Longrightarrow> always (sendDestroyRoomRequestSyncP X i n k) H"
  "always p H \<Longrightarrow> always (sendDestroyRoomRequestP i n p) H"
  by (auto simp: sendDestroyRoomRequestSyncP_def sendDestroyRoomRequestP_def intro!: always split: sum.split)

lemma always_forgetRoomP [always]: "always k H \<Longrightarrow> always (forgetRoomP i k) H"
  by (auto simp: forgetRoomP_def intro!: always)

lemma always_DeleteRoomP [always]: "always k H \<Longrightarrow> always (DeleteRoomP X i k) H"
  by (auto simp: DeleteRoomP_def Let_def intro!: always split: option.split)

lemma always_LeaveRoomP [always]: "always k H \<Longrightarrow> always (LeaveRoomP X i a k) H"
  by (auto simp: LeaveRoomP_def Let_def intro!: always split: option.split)

lemma always_readNodesP [always]: "(\<And>n. always (k n) H) \<Longrightarrow> always (readNodesP es acc k) H"
  by (induction es arbitrary: acc) (auto intro!: always)

lemma always_DestroyAllRoomsP [always]: "always k H \<Longrightarrow> always (DestroyAllRoomsP k) H"
  by (auto simp: DestroyAllRoomsP_def intro!: always always_foldr)

end
