(* ===== verification/EngineSound.thy ===== *)
theory EngineSound
  imports Interleave
begin

text \<open>
  The engine's operations keep the contract of theory \<open>Interleave\<close>, for every callback that does.
\<close>

section \<open>Operations without the callback\<close>

lemma always_resetP [always]: "always k H \<Longrightarrow> always (resetReconnectFailuresP i k) H"
  by (auto simp: resetReconnectFailuresP_def intro!: always split: option.split)

lemma always_connectP [always]: "(\<And>err. always (k err) H) \<Longrightarrow> always (connectAndRegisterPodP X i addr k) H"
  by (auto simp: connectAndRegisterPodP_def steady_intros keeps_flag_intros ring_wf_Register intro!: always split: sum.split)

lemma always_disconnectP [always]: "always k H \<Longrightarrow> always (disconnectP X i a k) H"
  by (auto simp: disconnectP_def steady_intros keeps_flag_intros ring_wf_Remove intro!: always split: option.split)

lemma always_deleteNodeP [always]: "always k H \<Longrightarrow> always (deleteNodeP X i k) H"
  by (auto simp: deleteNodeP_def intro!: always split: option.split)

lemma always_maxHealthyP [always]: "(\<And>m. always (k m) H) \<Longrightarrow> always (maxHealthyP is mx k) H"
  by (induction "is" arbitrary: mx) (auto intro!: always split: option.split)

lemma always_shrinkP [always]: "always k H \<Longrightarrow> always (shrinkReplicaCountIfNeededP k) H"
  by (auto simp: shrinkReplicaCountIfNeededP_def Let_def intro!: always)

lemma always_discoverNewPodsP [always]: "always k H \<Longrightarrow> always (discoverNewPodsP X k) H"
  by (auto simp: discoverNewPodsP_def discoverPodP_def updateMaxPodIndexP_def Let_def
      intro!: always always_foldr split: option.split sum.split)

lemma always_ShutdownP [always]: "always k H \<Longrightarrow> always (ShutdownP X k) H"
  by (auto simp: ShutdownP_def closeNodeP_def intro!: always always_foldr split: option.split)

lemma always_reconnectP [always]: "(\<And>err. always (k err) H) \<Longrightarrow> always (reconnectP X i addr k) H"
  by (auto simp: reconnectP_def intro!: always split: option.split)

lemma always_ensureConnectedP [always]: "always k H \<Longrightarrow> always (ensureConnectedP X k) H"
  by (auto simp: ensureConnectedP_def ensureConnectedAtP_def intro!: always always_foldr split: option.split)

section \<open>Operations that can trigger the callback\<close>

locale quiet_callback =
  fixes fn :: "'w gprog \<Rightarrow> 'w gprog"
  assumes fn: "always p H \<Longrightarrow> always (fn p) H"
begin

lemma always_triggerP: "always k H \<Longrightarrow> always (triggerReassignRoomsP fn k) H"
  by (auto simp: triggerReassignRoomsP_def intro!: always fn)

lemma always_checkAndTriggerP: "always k H \<Longrightarrow> always (checkAndTriggerReassignP fn k) H"
  by (auto simp: checkAndTriggerReassignP_def intro!: always always_triggerP)

lemma always_recordP: "always k H \<Longrightarrow> always (recordReconnectFailureP X fn i k) H"
  by (auto simp: recordReconnectFailureP_def Let_def steady_intros keeps_flag_intros intro!: always always_triggerP split: option.split)

lemma always_attemptP: "always k H \<Longrightarrow> always (attemptReconnectP X fn l k) H"
  by (auto simp: attemptReconnectP_def endLoopP_def intro!: always always_recordP split: prod.split option.split)

lemma always_checkSingleNodeP: "(\<And>err. always (k err) H) \<Longrightarrow> always (checkSingleNodeP X fn i k) H"
  by (auto simp: checkSingleNodeP_def steady_intros keeps_flag_intros intro!: always always_triggerP split: option.split sum.split)

lemma always_healthTickP: "always k H \<Longrightarrow> always (healthTickP X fn k) H"
  by (auto simp: healthTickP_def checkHeartbeatP_def checkHeartbeatAtP_def
      intro!: always always_foldr always_checkSingleNodeP always_recordP always_checkAndTriggerP split: option.split)

end

end
