(* ===== verification/EngineAlone.thy ===== *)
theory EngineAlone
  imports EngineOpsProgs
begin

text \<open>
  The engine's programs, run with nothing in between, do what the operations of the theories
  \<open>Engine\<close> and \<open>EngineOps\<close> do.
\<close>

named_theorems alone "the sequential meaning of the programs"

lemma seq_fun [alone]:
  "seq (look c) = (\<lambda>s. seq (c s) s)" "seq (upd u p) = (\<lambda>s. seq p (u s))"
  "seq (Acquire h p) = seq p" "seq (Release h p) = seq p"
  by (simp_all add: fun_eq_iff)

lemma seq_callP [alone]: "seq (callP f k) = (\<lambda>s. (case f s of None \<Rightarrow> Stop Panicked s | Some (res, w) \<Rightarrow> seq (k res) (s\<lparr>world := w\<rparr>)))"
  by (rule ext) (simp add: callP_def split: option.splits)

lemma seq_reads [alone]:
  "seq (readEngine f k) = (\<lambda>s. seq (k (f (eng s))) s)"
  "seq (readNode a g l) = (\<lambda>s. seq (l (g (nheap s a))) s)"
  "seq (writeNode a h m) = (\<lambda>s. seq (m (snd (h (world s) (nheap s a)))) (upd_node a (\<lambda>n. fst (h (world s) n)) s))"
  by (simp_all add: fun_eq_iff readEngine_def readNode_def writeNode_def alone)

lemmas node_accesses = isConnectedP_def addrSnapshotP_def snapshotP_def getReconnectFailuresP_def clearReconnectFailuresP_def
  getMaxPodIndexP_def

lemma seq_accesses [alone]:
  "seq (isConnectedP a c) = (\<lambda>s. seq (c (isConnected (nheap s a))) s)"
  "seq (addrSnapshotP a d) = (\<lambda>s. seq (d (Addr (nheap s a))) s)"
  "seq (snapshotP a e) = (\<lambda>s. seq (e (snapshot (nheap s a))) s)"
  "seq (getReconnectFailuresP a f) = (\<lambda>s. seq (f (reconnectFailures (nheap s a))) s)"
  "seq (clearReconnectFailuresP a k) = (\<lambda>s. seq k (upd_node a (\<lambda>n. n\<lparr>reconnectFailures := 0\<rparr>) s))"
  "seq (getMaxPodIndexP f) = (\<lambda>s. seq (f (maxPodIndex (eng s))) s)"
  by (simp_all add: fun_eq_iff node_accesses alone)

lemma seq_locks [alone]:
  "seq (isReconnectingP a c) = (\<lambda>s. seq (c (reconnecting (nheap s a))) s)"
  "seq (setReconnectingP b a k) = (\<lambda>s. seq k (upd_node a (\<lambda>n. n\<lparr>reconnecting := b\<rparr>) s))"
  "seq (registerP f k) = (\<lambda>s. seq k (s\<lparr>Mgr := f (Mgr s)\<rparr>))"
  "seq (ensureNodeP i d) = (\<lambda>s. case ensureNode i s of (a, t) \<Rightarrow> seq (d a) t)"
  by (simp_all add: fun_eq_iff isReconnectingP_def setReconnectingP_def registerP_def ensureNodeP_def alone split: prod.split)

section \<open>Lookups\<close>

lemma seq_lookups [alone]:
  "seq (getNodeP i k) = (\<lambda>s. seq (k (getNode s i)) s)"
  "seq (snapshotPodIndicesP l) = (\<lambda>s. seq (l (snapshotPodIndices s)) s)"
  "seq (GetClientP a m) = (\<lambda>s. seq (m (nclient (nheap s a))) s)"
  "seq (GetNodeByPodIndexP i d) = (\<lambda>s. seq (d (GetNodeByPodIndex s i)) s)"
  "seq (hashRoomP roomID c) = (\<lambda>s. seq (c (hashRoom s roomID)) s)"
  by (simp_all add: fun_eq_iff getNodeP_def snapshotPodIndicesP_def GetClientP_def GetNodeByPodIndexP_def hashRoomP_def
      getNode_def snapshotPodIndices_def GetNodeByPodIndex_def hashRoom_def Let_def alone split: option.split)

lemma seq_candidatesP:
  "seq (candidatesP is nf ul k) s = seq (k (nf @ filter (notFull s) is) (ul @ filter (underLoad s) (filter (notFull s) is))) s"
  by (induction "is" arbitrary: nf ul)
    (auto simp: alone notFull_def underLoad_def Let_def split: option.split)

lemma seq_GetNodeForRoomP [alone]: "seq (GetNodeForRoomP roomID k) = (\<lambda>s. seq (k (GetNodeForRoom s roomID)) s)"
  by (rule ext) (simp add: GetNodeForRoomP_def GetNodeForRoom_def pickPreferredNodeForRoomP_def pickPreferredNodeForRoom_def
      alone seq_candidatesP Let_def split: option.split sum.split)

lemma seq_statusesP:
  "seq (statusesP is acc k) s = seq (k (acc @ filter (\<lambda>st. st_Healthy st \<or> st_ActiveRooms st \<noteq> 0)
     (List.map_filter (\<lambda>i. map_option (\<lambda>a. snapshot (nheap s a)) (getNode s i)) is))) s"
  by (induction "is" arbitrary: acc) (auto simp: alone map_filter_simps split: option.split)

lemma seq_GetStatusP [alone]: "seq (GetStatusP k) = (\<lambda>s. seq (k (GetStatus s)) s)"
  by (rule ext) (simp add: GetStatusP_def GetStatus_def alone seq_statusesP Let_def)

section \<open>Operations\<close>

lemma seq_resetP [alone]: "seq (resetReconnectFailuresP i k) = (\<lambda>s. seq k (resetReconnectFailures i s))"
  by (rule ext) (simp add: resetReconnectFailuresP_def resetReconnectFailures_def alone split: option.split)

lemma upd_node_const: "upd_node a (\<lambda>_. f (nheap s a)) s = upd_node a f s"
  by (simp add: upd_node_def)

lemma seq_connectP [alone]:
  "seq (connectAndRegisterPodP X i addr k) = (\<lambda>s. case connectAndRegisterPod X i addr s of (err, t) \<Rightarrow> seq (k err) t)"
proof (rule ext)
  fix s
  show "seq (connectAndRegisterPodP X i addr k) s = (case connectAndRegisterPod X i addr s of (err, t) \<Rightarrow> seq (k err) t)"
  proof (cases "x_dial X addr (world s)")
    case (Pair res w)
    obtain a t where e: "ensureNode i (s\<lparr>world := w\<rparr>) = (a, t)" by force
    then have "world t = w" by (auto simp: ensureNode_def split: option.splits)
    then show ?thesis using Pair e
      by (cases res) (simp_all add: connectAndRegisterPodP_def connectAndRegisterPod_def alone replaceConnection_def
          upd_node_const [of a "\<lambda>n. n\<lparr>Addr := addr, nconn := Some c, nclient := Some c, Healthy := True,
             LastError := None, LastHeartbeat := now\<rparr>" for c now] Let_def)
  qed
qed

lemma seq_disconnectP [alone]:
  "seq (disconnectP X i a k) = (\<lambda>s. seq k (case closeConn (nheap s a) of (n, c) \<Rightarrow>
     let s1 = upd_node a (\<lambda>_. n) s in
     case c of None \<Rightarrow> s1 | Some cl \<Rightarrow> closeClient X c (s1\<lparr>Mgr := RemoveNode i (Mgr s1)\<rparr>)))"
  by (rule ext) (simp add: disconnectP_def alone closeConn_def upd_node_def split: option.split)

lemma seq_deleteNodeP [alone]: "seq (deleteNodeP X i k) = (\<lambda>s. seq k (deleteNode X i s))"
  by (rule ext) (simp add: deleteNodeP_def deleteNode_def dropNode_def getNode_def alone Let_def split: option.split)

lemma seq_maxHealthyP: "seq (maxHealthyP is mx k) s = seq (k (fold (\<lambda>idx mx. case getNode s idx of None \<Rightarrow> mx
     | Some a \<Rightarrow> if st_Healthy (snapshot (nheap s a)) \<and> idx > mx then idx else mx) is mx)) s"
  by (induction "is" arbitrary: mx) (simp_all add: alone split: option.split)

lemma seq_shrinkP [alone]: "seq (shrinkReplicaCountIfNeededP k) = (\<lambda>s. seq k (shrinkReplicaCountIfNeeded s))"
  by (rule ext) (simp add: shrinkReplicaCountIfNeededP_def shrinkReplicaCountIfNeeded_def shrinkTo_def alone seq_maxHealthyP
      maxHealthyIndex_def Let_def)

lemma seq_discoverPodP [alone]: "seq (discoverPodP X i k) = (\<lambda>s. seq k (discoverPod X i s))"
  by (rule ext) (simp add: discoverPodP_def discoverPod_def updateMaxPodIndexP_def alone Let_def
      split: option.split sum.split prod.split)

lemma seq_foldr: "(\<And>e k. seq (p e k) = (\<lambda>s. seq k (f e s))) \<Longrightarrow> seq (foldr p es k) s = seq k (fold f es s)"
  by (induction es arbitrary: s) simp_all

lemma seq_discoverNewPodsP [alone]: "seq (discoverNewPodsP X k) = (\<lambda>s. seq k (discoverNewPods X s))"
  by (rule ext) (simp add: discoverNewPodsP_def discoverNewPods_def alone seq_foldr [OF seq_discoverPodP])

lemma seq_closeNodeP: "seq (closeNodeP X i k) = (\<lambda>s. seq k (closeNode X i s))"
  by (rule ext) (simp add: closeNodeP_def closeNode_def alone Let_def split: option.split)

lemma seq_ShutdownP [alone]: "seq (ShutdownP X k) = (\<lambda>s. seq k (Shutdown X s))"
  by (rule ext) (simp add: ShutdownP_def Shutdown_def alone seq_foldr [OF seq_closeNodeP] Let_def)

section \<open>The callback\<close>

text \<open>The operations that can trigger the callback, for any callback whose program does what it says.\<close>

locale lone_callback =
  fixes fn :: "('w, 'm) eprog \<Rightarrow> ('w, 'm) eprog" and FN :: "('w, 'm) net_callback"
  assumes fn: "seq (fn k) = (\<lambda>s. andthen (FN s) (\<lambda>_. seq k))"
begin

lemma seq_triggerP: "seq (triggerReassignRoomsP fn k) = (\<lambda>s. andthen (triggerReassignRooms FN s) (\<lambda>_. seq k))"
  by (rule ext) (simp add: triggerReassignRoomsP_def triggerReassignRooms_def alone fn)

lemma seq_checkAndTriggerP: "seq (checkAndTriggerReassignP fn k) = (\<lambda>s. andthen (checkAndTriggerReassign FN s) (\<lambda>_. seq k))"
  by (rule ext) (simp add: checkAndTriggerReassignP_def checkAndTriggerReassign_def alone seq_triggerP)

lemma seq_recordP: "seq (recordReconnectFailureP X fn i k) = (\<lambda>s. andthen (recordReconnectFailure X FN i s) (\<lambda>_. seq k))"
  by (rule ext) (simp add: recordReconnectFailureP_def recordReconnectFailure_def alone seq_triggerP andthen_assoc Let_def
      split: option.split)

lemma seq_attemptP: "seq (attemptReconnectP X fn l k) = (\<lambda>s. andthen (attemptReconnectStep X FN l s)
    (\<lambda>next t. seq k (case next of None \<Rightarrow> t | Some l' \<Rightarrow> startLoop l' t)))"
  by (rule ext) (simp add: attemptReconnectP_def attemptReconnectStep_def endLoopP_def setReconnecting_def alone seq_recordP
      andthen_assoc split: prod.split option.split)

lemma seq_reconnectP: "seq (reconnectP X i addr k') = (\<lambda>s. case reconnect X i addr s of (err, t) \<Rightarrow> seq (k' err) t)"
  by (rule ext) (simp add: reconnectP_def reconnect_def startLoop_def alone Let_def split: prod.split option.split)

lemma seq_ensureConnectedAtP: "seq (ensureConnectedAtP X i k) = (\<lambda>s. seq k (ensureConnectedAt X i s))"
  by (rule ext) (simp add: ensureConnectedAtP_def ensureConnectedAt_def alone seq_reconnectP Let_def split: option.split prod.split)

lemma seq_ensureConnectedP: "seq (ensureConnectedP X k) = (\<lambda>s. seq k (ensureConnected X s))"
  by (rule ext) (simp add: ensureConnectedP_def ensureConnected_def alone seq_foldr [OF seq_ensureConnectedAtP])

lemma seq_checkSingleNodeP: "seq (checkSingleNodeP X fn i k') = (\<lambda>s. andthen (checkSingleNode X FN i s) (\<lambda>err. seq (k' err)))"
  by (rule ext) (simp add: checkSingleNodeP_def checkSingleNode_def alone seq_triggerP andthen_assoc Let_def upd_node_def
      split: option.split sum.split prod.split)

lemma seq_checkHeartbeatAtP: "seq (checkHeartbeatAtP X fn i k) = (\<lambda>s. andthen (checkHeartbeatAt X FN i s) (\<lambda>_. seq k))"
proof (rule ext)
  fix s
  show "seq (checkHeartbeatAtP X fn i k) s = andthen (checkHeartbeatAt X FN i s) (\<lambda>_. seq k)"
  proof (cases "checkSingleNode X FN i s")
    case (Done err t)
    then show ?thesis
      by (cases err) (simp_all add: checkHeartbeatAtP_def checkHeartbeatAt_def alone seq_checkSingleNodeP seq_reconnectP
          seq_recordP Let_def split: option.split prod.split)
  qed (simp add: checkHeartbeatAtP_def checkHeartbeatAt_def alone seq_checkSingleNodeP split: option.split)
qed

lemma seq_foreachP: "(\<And>i k. seq (p i k) = (\<lambda>s. andthen (f i s) (\<lambda>_. seq k))) \<Longrightarrow>
   seq (foldr p is k) = (\<lambda>s. andthen (foreach is f s) (\<lambda>_. seq k))"
  by (induction "is") (simp_all add: andthen_assoc)

lemma seq_healthTickP: "seq (healthTickP X fn k) = (\<lambda>s. andthen (healthTick X FN s) (\<lambda>_. seq k))"
  by (rule ext) (simp add: healthTickP_def healthTick_def checkHeartbeatP_def checkHeartbeat_def alone seq_ensureConnectedP
      seq_foreachP [OF seq_checkHeartbeatAtP] seq_checkAndTriggerP andthen_assoc)

end

end
