(* ===== verification/Alone.thy ===== *)
theory Alone
  imports HandlerProgs EngineAlone Launch
begin

text \<open>
  A goroutine that runs with nothing in between does what the operations of the theories \<open>Room\<close>,
  \<open>Game\<close>, \<open>Failover\<close> and \<open>Handler\<close> do: the fine-grained programs and the atomic operations are two
  translations of the same code, and \<open>seq\<close> of the one is the other, panics, blocked sends and
  endless loops included.
\<close>

section \<open>Rooms\<close>

lemma SendResponse_push:
  "SendResponse a cmd code msg data s =
     (if length (sSend (sheap s a)) < sendCap
      then Done () (upd_sess a (push \<lparr>Cmd = cmd, Code = code, Msg = msg, Data = data\<rparr>) s) else Stop Blocked s)"
  by (simp add: SendResponse_def push_def)

lemma seq_sendP [alone]: "seq (sendP a cmd code msg data k) = (\<lambda>s. andthen (SendResponse a cmd code msg data s) (\<lambda>_. seq k))"
  by (rule ext) (simp add: sendP_def SendResponse_push)

lemma seq_foldr_upd: "seq (foldr (\<lambda>e. upd (u e)) es p) s = seq p (fold u es s)"
  by (induction es arbitrary: s) simp_all

lemma seq_broadcastP [alone]: "seq (broadcastP r cmd code msg data k) = (\<lambda>s. seq k (BroadcastToRoom r cmd code msg data s))"
  by (rule ext) (simp add: broadcastP_def BroadcastToRoom_def seq_foldr_upd)

lemma upd_sess_upd_sess: "upd_sess a f (upd_sess a g s) = upd_sess a (f \<circ> g) s"
  by (simp add: upd_sess_def comp_def)

lemma enterRoom_seat: "enterRoom r roomID a s = seat r a (setRoomID a roomID s)"
  by (simp add: enterRoom_def seat_def setRoomID_def Let_def pid_def)

lemma seq_CreateRoomP [alone]: "seq (CreateRoomP X a k) = (\<lambda>s. andthen (CreateRoom X a s) (\<lambda>_. seq k))"
  by (rule ext) (simp add: CreateRoomP_def CreateRoom_def Let_def alone enterRoom_seat fileRoom_def andthen_assoc split: option.split)

lemma seq_JoinRoomP [alone]: "seq (JoinRoomP roomID a k) = (\<lambda>s. andthen (JoinRoom roomID a s) (\<lambda>_. seq k))"
  by (rule ext) (simp add: JoinRoomP_def JoinRoom_def Let_def alone enterRoom_seat andthen_assoc split: option.split)

lemma seq_destroyAttemptsP: "seq (destroyAttemptsP X na roomID n k) s = andthen (destroyAttempts X na roomID n s) (\<lambda>ok. seq (k ok))"
  by (induction n arbitrary: s) (simp_all add: alone split: option.split sum.split)

lemma seq_sendDestroySyncP [alone]:
  "seq (sendDestroyRoomRequestSyncP X roomID n k) = (\<lambda>s. andthen (sendDestroyRoomRequestSync X roomID n s) (\<lambda>ok. seq (k ok)))"
  by (rule ext) (simp add: sendDestroyRoomRequestSyncP_def sendDestroyRoomRequestSync_def alone seq_destroyAttemptsP split: sum.split)

lemma seq_sendDestroyP [alone]: "seq (sendDestroyRoomRequestP roomID n k) = (\<lambda>s. seq k (sendDestroyRoomRequest roomID n s))"
  by (rule ext) (simp add: sendDestroyRoomRequestP_def sendDestroyRoomRequest_def spawn_def alone split: sum.split)

lemma seq_forgetRoomP [alone]: "seq (forgetRoomP roomID k) = (\<lambda>s. seq k (forgetRoom roomID s))"
  by (rule ext) (simp add: forgetRoomP_def)

lemma seq_DeleteRoomP [alone]: "seq (DeleteRoomP X roomID k) = (\<lambda>s. andthen (DeleteRoom X roomID s) (\<lambda>_. seq k))"
  by (rule ext) (simp add: DeleteRoomP_def DeleteRoom_def Let_def alone andthen_assoc split: option.split)

lemma seq_readNodesP: "seq (readNodesP es acc k) s = seq (k (acc @ List.map (\<lambda>e. (fst e, rNodeID (rheap s (snd e)))) es)) s"
  by (induction es arbitrary: acc) simp_all

lemma seq_foldr_destroy:
  "seq (foldr (\<lambda>e. sendDestroyRoomRequestP (fst e) (snd e)) es p) s
   = seq p (fold (\<lambda>e. sendDestroyRoomRequest (fst e) (snd e)) es s)"
  by (induction es arbitrary: s) (simp_all add: alone)

lemma seq_DestroyAllRoomsP [alone]: "seq (DestroyAllRoomsP k) = (\<lambda>s. seq k (DestroyAllRooms s))"
  by (rule ext) (simp add: DestroyAllRoomsP_def DestroyAllRooms_def seq_readNodesP seq_foldr_destroy Let_def)

lemma pid_frames [simp]:
  "pid (upd_room r f s) a = pid s a" "pid (setRoomID b i s) a = pid s a"
  "pid (BroadcastToRoom r cmd code msg data s) a = pid s a"
  by (simp_all add: pid_def setRoomID_def only_sends_sess [OF only_sends_Broadcast])

lemma seq_LeaveRoomP [alone]: "seq (LeaveRoomP X roomID a k) = (\<lambda>s. andthen (LeaveRoom X roomID a s) (\<lambda>_. seq k))"
  by (rule ext) (simp add: LeaveRoomP_def LeaveRoom_def Let_def alone unseat_def setRoomID_def [symmetric] setStatus_def split: option.split)

lemma seq_listRoomsP:
  "seq (listRoomsP es acc k) s = seq (k (acc @ List.map (\<lambda>e. (fst e, length (rSessions (rheap s (snd e))) \<ge> 2)) es)) s"
  by (induction es arbitrary: acc) (simp_all add: Let_def)

lemma seq_GetRoomsP [alone]: "seq (GetRoomsP k) = (\<lambda>s. seq (k (GetRooms s)) s)"
  by (rule ext) (simp add: GetRoomsP_def GetRooms_def seq_listRoomsP)

lemma seq_lookupP [alone]: "seq (lookupP a k) = (\<lambda>s. seq (k (map_of (Rooms s) (sRoomID (sheap s a)))) s)"
  by (rule ext) (simp add: lookupP_def)

lemma seq_CleanUpP [alone]: "seq (CleanUpIfStillOfflineP X uid k) = (\<lambda>s. andthen (CleanUpIfStillOffline X uid s) (\<lambda>_. seq k))"
  by (rule ext) (simp add: CleanUpIfStillOfflineP_def CleanUpIfStillOffline_def Let_def alone forgetSession_def split: option.split)

lemma seq_SyncRoomStateP [alone]: "seq (SyncRoomStateP a k) = (\<lambda>s. andthen (SyncRoomState a s) (\<lambda>_. seq k))"
  by (rule ext) (simp add: SyncRoomStateP_def SyncRoomState_def GetSnapshotP_def Let_def alone andthen_assoc split: option.split)

lemma seq_matchTurnP [alone]:
  assumes "length (MatchQueue s) \<noteq> 1"
  shows "seq (matchTurnP X k) s = andthen (matchTurn X s) (\<lambda>_. seq k)"
proof (cases "MatchQueue s" rule: remdups_adj.cases)
  case (3 p1 p2 q)
  then show ?thesis by (simp add: matchTurnP_def receiveP_def matchTurn_def alone andthen_assoc)
qed (use assms in \<open>simp_all add: matchTurnP_def receiveP_def matchTurn_def\<close>)

section \<open>Games\<close>

lemma seq_handleStartErrorP [alone]: "seq (handleStartErrorP r e k) = (\<lambda>s. seq k (handleStartError r e s))"
  by (rule ext) (simp add: handleStartErrorP_def handleStartError_def alone setStatus_def)

lemma seq_buildP [alone]: "seq (buildBattleInitJSONP roomID sessions k) = (\<lambda>s. seq (k (buildBattleInitJSON roomID sessions s)) s)"
  by (rule ext) (simp add: buildBattleInitJSONP_def buildBattleInitJSON_def Let_def)

lemma seq_StartGameP [alone]: "seq (StartGameP r k) = (\<lambda>s. andthen (StartGame r s) (\<lambda>_. seq k))"
  by (rule ext) (simp add: StartGameP_def StartGame_def Let_def alone setStatus_def setNodeID_def spawn_def
        split: sum.split)

lemma seq_StartGameForSessionP [alone]: "seq (StartGameForSessionP a k) = (\<lambda>s. andthen (StartGameForSession a s) (\<lambda>_. seq k))"
  by (rule ext) (simp add: StartGameForSessionP_def StartGameForSession_def alone split: option.split)

lemma seq_battleSideP [alone]: "seq (battleSideP r a k) = (\<lambda>s. seq (k (battleSideForPlayer r (pid s a) s)) s)"
  by (rule ext) (simp add: battleSideP_def Let_def)

lemma seq_injectBattleSideP [alone]:
  "seq (injectBattleSideP r raw a k) = (\<lambda>s. andthen (injectBattleSide r raw (pid s a) s) (\<lambda>res. seq (k res)))"
  by (rule ext) (simp add: injectBattleSideP_def injectBattleSide_def alone split: option.split bool.split prod.split)

lemma seq_reportTurnP [alone]: "seq (reportTurnP X r a m k) = (\<lambda>s. andthen (reportTurn X r a m s) (\<lambda>_. seq k))"
  by (rule ext) (simp add: reportTurnP_def reportTurn_def Let_def alone andthen_assoc)

lemma injectBattleSide_state: "injectBattleSide r raw p s = Done res s' \<Longrightarrow> s' = s"
  by (auto simp: injectBattleSide_def split: option.splits bool.splits prod.splits)

lemma seq_forwardP [alone]: "seq (forwardBattleActionP X r a raw k) = (\<lambda>s. andthen (forwardBattleAction X r a raw s) (\<lambda>_. seq k))"
proof (rule ext)
  fix s
  show "seq (forwardBattleActionP X r a raw k) s = andthen (forwardBattleAction X r a raw s) (\<lambda>_. seq k)"
  proof (cases "injectBattleSide r raw (pid s a) s")
    case (Done res s')
    then have "injectBattleSide r raw (pid s a) s = Done res s" using injectBattleSide_state by metis
    then show ?thesis
      by (cases res) (simp_all add: forwardBattleActionP_def forwardBattleAction_def Let_def alone
          split: option.split sum.split)
  next
    case (Stop c s')
    then show ?thesis by (simp add: forwardBattleActionP_def forwardBattleAction_def Let_def alone)
  qed
qed

lemma seq_HandleBattleActionP [alone]: "seq (HandleBattleActionP X a raw k) = (\<lambda>s. andthen (HandleBattleAction X a raw s) (\<lambda>_. seq k))"
  by (rule ext) (simp add: HandleBattleActionP_def HandleBattleAction_def alone split: option.split)

lemma seq_HandleBattleActionAndPersistP [alone]:
  "seq (HandleBattleActionAndPersistP X a raw k) s = andthen (HandleBattleActionAndPersist X a raw s) (\<lambda>_. seq k)"
proof -
  have "seq (look (\<lambda>s. if sRoomID (sheap s a) = [] then k
      else lookupP a (\<lambda>found. case found of None \<Rightarrow> k | Some r \<Rightarrow> k))) s = seq k s" for s
    by (simp add: alone split: option.split)
  then show ?thesis
    by (simp add: HandleBattleActionAndPersistP_def HandleBattleActionAndPersist_def alone andthen_assoc option.case_eq_if cong: if_cong)
qed

section \<open>Choosing pokemon\<close>

lemma seq_selectTeamP:
  "sSelectedPokemon (sheap s a) = Some team \<Longrightarrow> seq (selectTeamP a ps k) s
   = (case selectTeam ps team of (team', ok) \<Rightarrow> seq (k ok) (upd_sess a (\<lambda>n. n\<lparr>sSelectedPokemon := Some team'\<rparr>) s))"
proof (induction ps arbitrary: s team)
  case Nil
  then have "upd_sess a (\<lambda>n. n\<lparr>sSelectedPokemon := Some team\<rparr>) s = s" by (cases s) (auto simp: upd_sess_def fun_upd_idem)
  then show ?case by simp
next
  case (Cons p ps)
  then have same: "upd_sess a (\<lambda>n. n\<lparr>sSelectedPokemon := Some team\<rparr>) s = s" by (cases s) (auto simp: upd_sess_def fun_upd_idem)
  have over: "upd_sess a (\<lambda>n. n\<lparr>sSelectedPokemon := Some t\<rparr>) (addPokemon a m s)
      = upd_sess a (\<lambda>n. n\<lparr>sSelectedPokemon := Some t\<rparr>) s" for t m
    by (simp add: addPokemon_def upd_sess_upd_sess comp_def)
  have added: "sSelectedPokemon (sheap (addPokemon a m s) a) = Some (team @ [m])" for m
    using Cons.prems by (simp add: addPokemon_def)
  show ?case using same by (simp add: Cons.IH [OF added] over split: option.split)
qed

lemma seq_broadcastSummaryP [alone]: "seq (broadcastSummaryP r k) = (\<lambda>s. seq k (broadcastSummary r s))"
  by (rule ext) (simp add: broadcastSummaryP_def broadcastSummary_def Let_def alone split: sum.split)

lemma seq_HandleSelectPokemonP [alone]: "seq (HandleSelectPokemonP r a raw k) = (\<lambda>s. andthen (HandleSelectPokemon r a raw s) (\<lambda>_. seq k))"
  by (rule ext) (simp add: HandleSelectPokemonP_def HandleSelectPokemon_def Let_def alone andthen_assoc clearTeam_def
      setReady_def seq_selectTeamP [of _ _ "[]"] upd_sess_upd_sess comp_def split: prod.split bool.split option.split)

lemma seq_HandleSelectPokemonAndPersistP [alone]:
  "seq (HandleSelectPokemonAndPersistP a raw k) = (\<lambda>s. andthen (HandleSelectPokemonAndPersist a raw s) (\<lambda>_. seq k))"
  by (rule ext) (simp add: HandleSelectPokemonAndPersistP_def HandleSelectPokemonAndPersist_def alone split: option.split)

section \<open>Background goroutines\<close>

lemma seq_attemptsP: "attempt + n = maxRetries \<Longrightarrow> n < fuel \<Longrightarrow>
   runToEnd X fuel (TStartTry r na j attempt) s = Some (seq (attemptsP X r na j (Suc n)) s)"
proof (induction n arbitrary: attempt fuel s)
  case 0
  then show ?case by (cases fuel) (simp_all add: runTask_def runStartTry_def alone Let_def split: option.split sum.split)
next
  case (Suc n)
  then obtain m where m: "fuel = Suc m" by (cases fuel) auto
  have "attempt < maxRetries" using Suc.prems(1) by simp
  then show ?case using Suc.IH [of "Suc attempt" m] Suc.prems m
    by (simp add: runTask_def runStartTry_def alone Let_def split: option.split sum.split)
qed

fun from_start :: "task \<Rightarrow> bool" where
  "from_start (TStartTry r na j attempt) = (attempt = 1)"
| "from_start _ = True"

lemma seq_attemptsP_all:
  assumes "3 \<le> fuel"
  shows "runToEnd X fuel (TStartTry r na j (Suc 0)) s = Some (seq (attemptsP X r na j maxRetries) s)"
proof -
  have all: "Suc 2 = maxRetries" and p: "Suc 0 + 2 = maxRetries" "2 < fuel" using assms by (simp_all add: maxRetries_def)
  show ?thesis using seq_attemptsP [OF p] by (simp only: all)
qed

lemma seq_taskP: "from_start t \<Longrightarrow> runToEnd X 4 t s = Some (seq (taskP X t) s)"
proof (cases t)
  case (TStart r n j)
  have "runToEnd X (Suc m) t s = Some (seq (taskP X t) s)" if "3 \<le> m" for m
    using that by (simp add: TStart runTask_def runStart_def launchP_def alone seq_attemptsP_all split: sum.split)
  from this [of 3] show ?thesis by simp
next
  case (TStartTry r na j attempt)
  have "Suc (maxRetries - Suc 0) = maxRetries" by (simp add: maxRetries_def)
  then have "taskP X (TStartTry r na j (Suc 0)) = attemptsP X r na j maxRetries" by (simp only: taskP.simps)
  then show "from_start t \<Longrightarrow> ?thesis" using TStartTry seq_attemptsP_all [of 4] by simp
next
  case (TDestroy na i)
  have "runToEnd X (Suc m) t s = Some (seq (taskP X t) s)" for m
    by (simp add: TDestroy runTask_def runDestroy_def destroyCall_def alone)
  from this [of 3] show ?thesis by simp
qed

section \<open>Moving rooms\<close>

lemma rNodeID_same: "g\<lparr>rNodeID := rNodeID g\<rparr> = g"
  by (cases g) simp

lemma seq_targetRoomsP: "seq (targetRoomsP X st rs acc k) s = (case targetRooms X st rs acc s of (ts, s') \<Rightarrow> seq (k ts) s')"
  by (induction rs arbitrary: acc s) (simp_all add: Let_def alone rNodeID_same split: prod.split)

lemma seq_pickHealthyP [alone]: "seq (pickHealthyNodeForRoomP i ex k) = (\<lambda>s. seq (k (pickHealthyNodeForRoom i ex s)) s)"
  by (rule ext) (simp add: pickHealthyNodeForRoomP_def pickHealthyNodeForRoom_def alone Let_def)

lemma seq_reassignRoomP: "seq (reassignRoomP X r k) = (\<lambda>s. andthen (reassignRoom X r s) (\<lambda>b. seq (k b)))"
  by (rule ext) (simp add: reassignRoomP_def moveRoomP_def reassignRoom_def Let_def alone setNodeID_def split: sum.split option.split prod.split)

lemma seq_reassignRoomsP: "seq (reassignRoomsP X rs n k) = (\<lambda>s. andthen (reassignRooms X rs n s) (\<lambda>n. seq (k n)))"
  by (induction rs arbitrary: n) (simp_all add: seq_reassignRoomP andthen_assoc)

lemma seq_ReassignP [alone]: "seq (ReassignRunningRoomsP X k) = (\<lambda>s. andthen (ReassignRunningRoomsFromUnavailableNodes X s) (\<lambda>n. seq (k n)))"
  by (rule ext) (simp add: ReassignRunningRoomsP_def ReassignRunningRoomsFromUnavailableNodes_def Let_def alone
      seq_targetRoomsP seq_reassignRoomsP split: prod.split)

section \<open>Commands and connections\<close>

lemma seq_handlers:
  "rel_option (\<lambda>p h. \<forall>a req k. seq (p a req k) = (\<lambda>s. andthen (h a req s) (\<lambda>_. seq k)))
     (map_of (InitGameRoutersP X F) cmd) (map_of (InitGameRouters X F) cmd)"
proof -
  have "seq (do_cluster_statusP F a req k) = (\<lambda>s. andthen (do_cluster_status F a req s) (\<lambda>_. seq k))"
    "seq (do_get_redisP X F a req k) = (\<lambda>s. andthen (do_get_redis X F a req s) (\<lambda>_. seq k))"
    "seq (do_create_roomP X a req k) = (\<lambda>s. andthen (do_create_room X a req s) (\<lambda>_. seq k))"
    "seq (do_join_roomP a req k) = (\<lambda>s. andthen (do_join_room a req s) (\<lambda>_. seq k))"
    "seq (do_leave_roomP X a req k) = (\<lambda>s. andthen (do_leave_room X a req s) (\<lambda>_. seq k))"
    "seq (do_list_roomsP a req k) = (\<lambda>s. andthen (do_list_rooms a req s) (\<lambda>_. seq k))"
    "seq (do_matchP a req k) = (\<lambda>s. andthen (do_match a req s) (\<lambda>_. seq k))"
    "seq (do_start_gameP a req k) = (\<lambda>s. andthen (do_start_game a req s) (\<lambda>_. seq k))"
    "seq (do_select_pokemonP a req k) = (\<lambda>s. andthen (do_select_pokemon a req s) (\<lambda>_. seq k))"
    "seq (do_battle_actionP X a req k) = (\<lambda>s. andthen (do_battle_action X a req s) (\<lambda>_. seq k))"
    for a req and k :: "'a gprog"
    by (simp_all add: fun_eq_iff do_cluster_statusP_def do_cluster_status_def do_get_redisP_def do_get_redis_def
      do_create_roomP_def do_create_room_def do_join_roomP_def do_join_room_def do_leave_roomP_def do_leave_room_def
      do_list_roomsP_def do_list_rooms_def do_matchP_def do_match_def do_start_gameP_def do_start_game_def
      do_select_pokemonP_def do_select_pokemon_def do_battle_actionP_def do_battle_action_def
      alone andthen_assoc redisReply_def Let_def split: option.split sum.split)
  then show ?thesis by (simp add: InitGameRoutersP_def InitGameRouters_def Register_def)
qed

lemma seq_Ret: "seq Ret = Done ()"
  by (simp add: fun_eq_iff)

lemma andthen_Done_id: "andthen m Done = m"
  by (cases m) simp_all

lemma andthen_Ret: "andthen m (\<lambda>_. seq Ret) = m"
  by (cases m) simp_all

lemma seq_DispatchP:
  fixes s :: "'w server"
  shows "seq (DispatchP X (InitGameRoutersP X F) a payload Ret) s = Dispatch X (InitGameRouters X F) a payload s"
proof -
  have handled: "seq (case map_of (InitGameRoutersP X F) cmd of
        Some handler \<Rightarrow> handler a req Ret
      | None \<Rightarrow> sendP a c CodeSendInvalid (MRouter UnknownCmd) JNull Ret) s
    = (case map_of (InitGameRouters X F) cmd of
        Some handler \<Rightarrow> handler a req s
      | None \<Rightarrow> SendResponse a c CodeSendInvalid (MRouter UnknownCmd) JNull s)" for cmd req c
    using seq_handlers [of X F cmd]
    by (cases "map_of (InitGameRoutersP X F) cmd"; cases "map_of (InitGameRouters X F) cmd") (simp_all add: seq_sendP andthen_Ret)
  show ?thesis
  proof (cases "x_parse X payload")
    case (Some j)
    obtain req ok where "dec_GameRequest j \<lparr>req_Cmd = [], req_Data = RawEmpty\<rparr> = (req, ok)" by force
    with Some show ?thesis by (cases ok) (simp_all add: DispatchP_def Dispatch_def handled)
  qed (simp add: DispatchP_def Dispatch_def)
qed

lemma seq_closeOldP: "seq (closeOldP a p) = seq p"
  by (simp add: closeOldP_def fun_eq_iff)

lemma seq_HandleWS_openP [alone]: "seq (HandleWS_openP uid c k) = (\<lambda>s. andthen (HandleWS_open uid c s) (\<lambda>p. seq (k p)))"
  by (rule ext) (simp add: HandleWS_openP_def HandleWS_open_def FindSessionP_def RegisterSessionP_def addSession_def
      setConn_def Let_def alone andthen_assoc seq_closeOldP split: option.split)

section \<open>The engine's goroutines\<close>

lemma seq_reassignP: "seq (reassignP X k) = (\<lambda>s. andthen (reassignFunc X s) (\<lambda>_. seq k))"
  by (rule ext) (simp add: reassignP_def reassignFunc_def alone andthen_assoc)

interpretation lone: lone_callback "reassignP X" "reassignFunc X" for X
  by unfold_locales (rule seq_reassignP)

section \<open>Entries\<close>

text \<open>The operation of the atomic model that an entry runs.\<close>

primrec atomic :: "'w ext \<Rightarrow> gofmt \<Rightarrow> entry \<Rightarrow> 'w server \<Rightarrow> (unit, 'w server) exec" where
  "atomic X F (EOpen uid c) s = andthen (HandleWS_open uid c s) (\<lambda>_. Done ())"
| "atomic X F (EMessage a payload) s = Dispatch X (InitGameRouters X F) a payload s"
| "atomic X F (EClose a c) s = Done () (snd (HandleWS_close a c s))"
| "atomic X F (EPump a c) s = (if sSend (sheap s a) = [] then Stop Blocked s else Done () (snd (WritePump_turn a c True s)))"
| "atomic X F (ESync a) s = SyncRoomState a s"
| "atomic X F (EExpire uid) s = CleanUpIfStillOffline X uid s"
| "atomic X F EMatch s = matchTurn X s"
| "atomic X F (ETask t) s = the (runToEnd X 4 t s)"
| "atomic X F EHealth s = healthTick X (reassignFunc X) s"
| "atomic X F EDiscovery s = discoveryTick X s"
| "atomic X F (EReconnect l) s = andthen (attemptReconnectStep X (reassignFunc X) l s)
     (\<lambda>next t. Done () (case next of None \<Rightarrow> t | Some l' \<Rightarrow> startLoop l' t))"
| "atomic X F EShutdown s = Done () (Shutdown X (DestroyAllRooms s))"

text \<open>The two differ where the match worker finds one player and waits for another, and the turns of a
  launch begin with the first attempt.\<close>

primrec whole :: "entry \<Rightarrow> 'w server \<Rightarrow> bool" where
  "whole (EOpen uid c) s = True"
| "whole (EMessage a payload) s = True"
| "whole (EClose a c) s = True"
| "whole (EPump a c) s = True"
| "whole (ESync a) s = True"
| "whole (EExpire uid) s = True"
| "whole EMatch s = (length (MatchQueue s) \<noteq> 1)"
| "whole (ETask t) s = from_start t"
| "whole EHealth s = True"
| "whole EDiscovery s = True"
| "whole (EReconnect l) s = True"
| "whole EShutdown s = True"


end
