(* ===== verification/Sound.thy ===== *)
theory Sound
  imports EngineSound Alone
begin

text \<open>
  Every program of the server keeps the contract of theory \<open>Interleave\<close>, so its invariant holds under
  every interleaving of any number of goroutines; and every program takes the locks in the order of
  their ranks, so they cannot deadlock.
\<close>

section \<open>Programs that keep the contract from every state\<close>

lemma always_listRoomsP [always]: "(\<And>n. always (k n) H) \<Longrightarrow> always (listRoomsP es acc k) H"
  by (induction es arbitrary: acc) (auto simp: Let_def intro!: always)

lemma always_GetRoomsP [always]: "(\<And>n. always (k n) H) \<Longrightarrow> always (GetRoomsP k) H"
  by (auto simp: GetRoomsP_def intro!: always)

lemma always_lookupP [always]: "(\<And>f. always (k f) H) \<Longrightarrow> always (lookupP a k) H"
  by (auto simp: lookupP_def Let_def intro!: always)

lemma always_CleanUpP [always]: "always k H \<Longrightarrow> always (CleanUpIfStillOfflineP X u k) H"
  by (auto simp: CleanUpIfStillOfflineP_def Let_def intro!: always split: option.split)

lemma always_SyncP [always]: "always k H \<Longrightarrow> always (SyncRoomStateP a k) H"
  by (auto simp: SyncRoomStateP_def GetSnapshotP_def Let_def intro!: always split: option.split)

lemma always_handleStartErrorP [always]: "always k H \<Longrightarrow> always (handleStartErrorP r e k) H"
  by (auto simp: handleStartErrorP_def intro!: always)

lemma always_buildP [always]: "(\<And>res. always (k res) H) \<Longrightarrow> always (buildBattleInitJSONP i ss k) H"
  by (auto simp: buildBattleInitJSONP_def Let_def intro!: always)

lemma always_StartGameP [always]: "always k H \<Longrightarrow> always (StartGameP r k) H"
  by (auto simp: StartGameP_def Let_def intro!: always split: sum.split)

lemma always_attemptsP [always]: "always (attemptsP X r na j n) H"
  by (induction n) (auto intro!: always split: sum.split)

lemma always_taskP [always]: "always (taskP X t) H"
  by (cases t) (auto simp: launchP_def intro!: always split: sum.split)

lemma always_StartGameForSessionP [always]: "always k H \<Longrightarrow> always (StartGameForSessionP a k) H"
  by (auto simp: StartGameForSessionP_def intro!: always split: option.split)

lemma always_battleSideP [always]: "(\<And>f. always (k f) H) \<Longrightarrow> always (battleSideP r a k) H"
  by (auto simp: battleSideP_def Let_def intro!: always)

lemma always_injectP [always]: "(\<And>res. always (k res) H) \<Longrightarrow> always (injectBattleSideP r raw a k) H"
  by (auto simp: injectBattleSideP_def intro!: always split: option.split bool.split prod.split)

lemma always_reportTurnP [always]: "always k H \<Longrightarrow> always (reportTurnP X r a m k) H"
  by (auto simp: reportTurnP_def Let_def intro!: always)

lemma always_forwardP [always]: "always k H \<Longrightarrow> always (forwardBattleActionP X r a raw k) H"
  by (auto simp: forwardBattleActionP_def Let_def intro!: always split: sum.split)

lemma always_HandleBattleActionP [always]:
  "always k H \<Longrightarrow> always (HandleBattleActionAndPersistP X a raw k) H"
  by (auto simp: HandleBattleActionAndPersistP_def HandleBattleActionP_def intro!: always split: option.split)

lemma always_selectTeamP [always]: "(\<And>ok. always (k ok) H) \<Longrightarrow> always (selectTeamP a ps k) H"
  by (induction ps) (auto intro!: always split: option.split)

lemma always_HandleSelectPokemonP [always]: "always k H \<Longrightarrow> always (HandleSelectPokemonAndPersistP a raw k) H"
  by (auto simp: HandleSelectPokemonAndPersistP_def HandleSelectPokemonP_def broadcastSummaryP_def Let_def
      intro!: always split: option.split sum.split bool.split prod.split)

lemma always_targetRoomsP [always]: "(\<And>ts. always (k ts) H) \<Longrightarrow> always (targetRoomsP X st rs acc k) H"
  by (induction rs arbitrary: acc) (auto simp: Let_def intro!: always)

lemma always_pickHealthyP [always]: "(\<And>res. always (k res) H) \<Longrightarrow> always (pickHealthyNodeForRoomP i ex k) H"
  by (auto simp: pickHealthyNodeForRoomP_def Let_def intro!: always)

lemma always_reassignRoomP [always]: "(\<And>b. always (k b) H) \<Longrightarrow> always (reassignRoomP X r k) H"
  by (auto simp: reassignRoomP_def moveRoomP_def Let_def intro!: always split: sum.split)

lemma always_reassignRoomsP [always]: "(\<And>n. always (k n) H) \<Longrightarrow> always (reassignRoomsP X rs n k) H"
  by (induction rs arbitrary: n) (auto intro!: always)

lemma always_ReassignP [always]: "(\<And>n. always (k n) H) \<Longrightarrow> always (ReassignRunningRoomsP X k) H"
  by (auto simp: ReassignRunningRoomsP_def Let_def intro!: always)

interpretation quiet: quiet_callback "reassignP X" for X
  by unfold_locales (auto simp: reassignP_def intro!: always)

lemma always_engine [always]:
  "always (healthTickP X (reassignP X) Ret) []" "always (attemptReconnectP X (reassignP X) l Ret) []"
  "always (discoveryTickP X Ret) []"
  by (auto simp: discoveryTickP_def intro!: always quiet.always_healthTickP quiet.always_attemptP)

lemma always_WritePumpP [always]: "always (WritePumpP a c) H"
  unfolding WritePumpP_def by (rule always_act) (auto simp: harmless_grants intro!: always)

lemma always_closeP [always]: "(\<And>b. always (k b) H) \<Longrightarrow> always (HandleWS_closeP a c k) H"
  by (auto simp: HandleWS_closeP_def intro!: always)

lemma always_do_get_redisP [always]: "always k H \<Longrightarrow> always (do_get_redisP X F a req k) H"
proof -
  assume k: "always k H"
  show ?thesis unfolding do_get_redisP_def
    by (intro always_look, split if_split, intro conjI impI always_sendP k always_act)
      (auto simp: harmless_grants Let_def k intro!: always split: option.split sum.split)
qed

section \<open>Entering a room\<close>

lemma rely_evolves: "rely rules H x y \<Longrightarrow> Evo rules x y"
  and guar_evolves: "guar rules H x y \<Longrightarrow> Evo rules x y"
  by (simp_all add: rely_def guar_def)

lemma Evo_facts:
  assumes "Evo rules x y"
  shows "a < snext (fst x) \<Longrightarrow> a < snext (fst y)" "a < snext (fst x) \<Longrightarrow> pid (fst y) a = pid (fst x) a"
    "r < rnext (fst x) \<Longrightarrow> r < rnext (fst y)" "r \<in> snd x \<Longrightarrow> r \<in> snd y"
  using assms by (auto simp: rules_def evolves_def)

lemma rely_room:
  assumes "rely rules H x y" "h \<in> set H" "lk h = RoomMu r" "r < rnext (fst x)"
  shows "rSessions (rheap (fst y) r) = rSessions (rheap (fst x) r)"
proof -
  have "protects (RoomMu r) x y" using assms(1-3) by (auto simp: rely_def rules_def)
  then show ?thesis using assms(4) by (simp add: protects_def kept_room_def)
qed

lemma rely_tables:
  assumes "rely rules H x y" "h \<in> set H" "lk h = RM"
  shows "Rooms (fst y) = Rooms (fst x)" "snd y = snd x" "rnext (fst y) = rnext (fst x)"
proof -
  have "protects RM x y" using assms by (auto simp: rely_def rules_def)
  then show "Rooms (fst y) = Rooms (fst x)" "snd y = snd x" "rnext (fst y) = rnext (fst x)"
    by (simp_all add: protects_def)
qed

lemma track_quiet: "occupied (fst y) \<subseteq> snd y \<Longrightarrow> occupied t = occupied (fst y) \<Longrightarrow> track rules t y = (t, snd y)"
  by (auto simp: rules_def)

lemma sound_seat:
  assumes x: "intact [Writing (RoomMu r)] x" and r: "r \<in> snd x"
    and room: "length (rSessions (rheap (fst x) r)) < MaxPlayersPerRoom" and a: "a < snext (fst x)"
    and p: "always p [Writing (RoomMu r)]"
  shows "sound (upd (setRoomID a i) (upd (seat r a) p)) [Writing (RoomMu r)] x"
proof (rule sound_upd [OF x])
  fix y z assume xy: "rely rules [Writing (RoomMu r)] x y" and y: "intact [Writing (RoomMu r)] y"
  show "grants [Writing (RoomMu r)] y (setRoomID a i (fst y))" using y by (simp add: harmless_grants)
  assume zd: "z = track rules (setRoomID a i (fst y)) y" and yz: "guar rules [Writing (RoomMu r)] y z" and z: "intact [Writing (RoomMu r)] z"
  have rx: "r < rnext (fst x)" using intact_inv(3) [OF x] r by auto
  have same: "rSessions (rheap (fst z) r) = rSessions (rheap (fst x) r)"
    using rely_room [OF xy _ _ rx] by (simp add: zd rules_def setRoomID_def)
  have xz: "Evo rules x z" using fg.Evo_trans rely_evolves [OF xy] guar_evolves [OF yz] by blast
  have rz: "r < rnext (fst z)" using Evo_facts(3) [OF xz rx] .
  show "sound (upd (seat r a) p) [Writing (RoomMu r)] z"
  proof (rule sound_upd [OF z])
    fix w assume zw: "rely rules [Writing (RoomMu r)] z w" and w: "intact [Writing (RoomMu r)] w"
    have xw: "Evo rules x w" using fg.Evo_trans xz rely_evolves [OF zw] by blast
    have "rSessions (rheap (fst w) r) = rSessions (rheap (fst z) r)" using rely_room [OF zw _ _ rz] by simp
    then show "grants [Writing (RoomMu r)] w (seat r a (fst w))"
      using seat_grants [OF w, of r a] Evo_facts(1,4) [OF xw] a r room same by simp
  qed (rule always_sound [OF p])
qed

lemma sound_JoinRoomP:
  assumes x: "intact [] x" and a: "a < snext (fst x)" and k: "always k []"
  shows "sound (JoinRoomP roomID a k) [] x"
  unfolding JoinRoomP_def
proof (rule sound_acquire [OF x], rule sound_look, assumption)
  fix y z assume xy: "rely rules [] x y" and yz: "rely rules [Writing RM] y z" and z: "intact [Writing RM] z"
  have xz: "Evo rules x z" using fg.Evo_trans rely_evolves [OF xy] rely_evolves [OF yz] by blast
  let ?refuse = "\<lambda>r code m. sendP a ''join_room_res'' code m JNull (Release (Writing (RoomMu r)) k)"
  have ref: "always (?refuse r code m) [Writing (RoomMu r)]" for r code m using k by (auto intro!: always)
  show "sound (case map_of (Rooms (fst z)) roomID of
      None \<Rightarrow> sendP a ''join_room_res'' CodeRoomNotExist (MRoom CheckRoomNumber) JNull (Release (Writing RM) k)
    | Some r \<Rightarrow> Release (Writing RM) (Acquire (Writing (RoomMu r))
       (let refuse = ?refuse r in
        look (\<lambda>s. if map_of (rSessions (rheap s r)) (pid s a) \<noteq> None then refuse CodeSendDuplicate (MRoom AlreadyInRoom)
        else look (\<lambda>s. if rStatus (rheap s r) \<noteq> RoomWaiting then refuse CodeRoomFull (MRoom RoomStartedOrEnded)
        else look (\<lambda>s. if length (rSessions (rheap s r)) \<ge> MaxPlayersPerRoom then refuse CodeRoomFull (MRoom RoomFull)
        else upd (setRoomID a roomID)
            (upd (seat r a)
            (Release (Writing (RoomMu r))
            (sendP a ''join_room_res'' CodeSuccess (MRoom Joined) JNull
            (look (\<lambda>s. broadcastP r ''join_room'' CodeSuccess (MRoom (PlayerJoined (pid s a))) JNull k)))))))))))
      [Writing RM] z"
  proof (cases "map_of (Rooms (fst z)) roomID")
    case None
    have "always (sendP a ''join_room_res'' CodeRoomNotExist (MRoom CheckRoomNumber) JNull (Release (Writing RM) k)) [Writing RM]"
      using k by (auto intro!: always)
    then show ?thesis using None always_sound z by simp
  next
    case (Some r)
    have r: "r \<in> snd z" using intact_inv(4) [OF z] Some by (auto simp: all_seated_def)
    let ?H = "[Writing (RoomMu r)]"
    have tail: "always (Release (Writing (RoomMu r)) (sendP a ''join_room_res'' CodeSuccess (MRoom Joined) JNull
        (look (\<lambda>s. broadcastP r ''join_room'' CodeSuccess (MRoom (PlayerJoined (pid s a))) JNull k)))) ?H"
      using k by (auto intro!: always)
    have enter: "sound (look (\<lambda>s. if length (rSessions (rheap s r)) \<ge> MaxPlayersPerRoom then ?refuse r CodeRoomFull (MRoom RoomFull)
        else upd (setRoomID a roomID) (upd (seat r a) (Release (Writing (RoomMu r))
            (sendP a ''join_room_res'' CodeSuccess (MRoom Joined) JNull
            (look (\<lambda>s. broadcastP r ''join_room'' CodeSuccess (MRoom (PlayerJoined (pid s a))) JNull k))))))) ?H w"
      if w: "intact ?H w" and zw: "Evo rules z w" for w
    proof (rule sound_look [OF w])
      fix v assume wv: "rely rules ?H w v" and v: "intact ?H v"
      have "Evo rules x v" "Evo rules z v" using fg.Evo_trans xz zw rely_evolves [OF wv] by blast+
      then have "r \<in> snd v" "a < snext (fst v)" using Evo_facts r a by blast+
      then show "sound (if length (rSessions (rheap (fst v) r)) \<ge> MaxPlayersPerRoom then ?refuse r CodeRoomFull (MRoom RoomFull)
        else upd (setRoomID a roomID) (upd (seat r a) (Release (Writing (RoomMu r))
            (sendP a ''join_room_res'' CodeSuccess (MRoom Joined) JNull
            (look (\<lambda>s. broadcastP r ''join_room'' CodeSuccess (MRoom (PlayerJoined (pid s a))) JNull k)))))) ?H v"
        using sound_seat [OF v _ _ _ tail] always_sound [OF ref v] by simp
    qed
    show ?thesis unfolding Some option.case Let_def
      by (rule sound_release [OF z]; (simp; fail)?)
        (auto simp del: safe.simps intro!: sound_acquire sound_look always_sound [OF ref] enter,
         meson fg.Evo_trans rely_evolves)
  qed
qed

section \<open>Creating a room\<close>

lemma guar_held:
  "guar rules [] x y \<Longrightarrow> guar rules H x y"
  by (simp add: guar_def)

lemma harmless_guar:
  assumes "Inv rules x" "harmless (fst x) t" "fst x = s"
  shows "guar rules H x (t, snd x)" "track rules t x = (t, snd x)"
proof -
  have x: "intact [] x" using assms(1) by (simp add: intact_def)
  have "occupied t = occupied (fst x)" using assms(2) by (simp add: harmless_def same_rooms_def occupied_def)
  then show tr: "track rules t x = (t, snd x)" using track_quiet intact_inv(2) [OF x] by blast
  show "guar rules H x (t, snd x)"
    by (rule guar_held) (use harmless_grants [OF x assms(2)] in \<open>simp add: grants_def tr\<close>)
qed

text \<open>The room is filed: from here to its first player the table holds a room that never had one.\<close>

lemma file_guar:
  assumes x: "intact [Writing RM] x"
  shows "guar rules [Writing RM] x (fileRoom i (fst x), snd x)" "track rules (fileRoom i (fst x)) x = (fileRoom i (fst x), snd x)"
proof -
  obtain s h where xs: "x = (s, h)" by force
  let ?t = "fileRoom i s"
  have I: "tables_inv s" "engine_ok s" using intact_inv(1,5) [OF x] by (simp_all add: xs)
  have p: "pid ?t = pid s" by (simp add: pid_def fun_eq_iff fileRoom_def)
  have n: "same_nodes s ?t" by (simp add: same_nodes_def fileRoom_def)
  have t: "table_ok ?t = table_ok s" using p by (rule table_ok_cong) (simp add: fileRoom_def)
  have new: "table_ok s (new_room i (rmEngine s))" by (simp add: table_ok_def new_room_def)
  have "tables_inv ?t"
    using I(1) new unfolding tables_inv_def p t by (auto simp: fileRoom_def less_Suc_eq new_room_def split: if_splits)
  moreover have o: "occupied ?t = occupied s" by (auto simp: occupied_def fileRoom_def new_room_def less_Suc_eq)
  moreover have "evolves s ?t" unfolding evolves_def p by (simp add: fileRoom_def)
  moreover have "guarded_by l s ?t" if "l \<noteq> RM" for l
    using that n by (cases l) (simp_all add: kept_room_def same_nodes_def fileRoom_def)
  moreover have "rnext ?t = Suc (rnext s)" by (simp add: fileRoom_def)
  moreover have "engine_ok ?t" using same_nodes_ok [OF n] I(2) by simp
  ultimately have "Inv rules (?t, h)" "Evo rules x (?t, h)" "Writing l \<notin> set [Writing RM] \<Longrightarrow> Keep rules l x (?t, h)" for l
    using intact_inv [OF x] by (auto simp: rules_def xs fine_inv_def protects_def)
  then show "guar rules [Writing RM] x (fileRoom i (fst x), snd x)" by (simp add: guar_def xs)
  show "track rules (fileRoom i (fst x)) x = (fileRoom i (fst x), snd x)"
    by (rule track_quiet) (use intact_inv(2) [OF x] o in \<open>simp_all add: xs\<close>)
qed

text \<open>Its first player.\<close>

lemma seat_first:
  assumes x: "Inv rules x" and r: "r < rnext (fst x)" "rSessions (rheap (fst x) r) = []" and a: "a < snext (fst x)"
    and H: "H = [Writing (RoomMu r), Writing RM]"
    and all: "\<And>i q. map_of (Rooms (fst x)) i = Some q \<Longrightarrow> q = r \<or> q \<in> snd x"
    and z: "z = track rules (seat r a (fst x)) x"
  shows "guar rules H x z" "intact H z"
proof -
  obtain s h where xs: "x = (s, h)" by force
  let ?t = "seat r a s"
  have p: "pid ?t = pid s" by (simp add: pid_def fun_eq_iff seat_def)
  have t: "table_ok ?t = table_ok s" using p by (rule table_ok_cong) (simp add: seat_def)
  have I: "tables_inv s" "occupied s \<subseteq> h" "h \<subseteq> {..<rnext s}" "engine_ok s" using x by (simp_all add: rules_def xs fine_inv_def)
  have n: "same_nodes s ?t" by (simp add: same_nodes_def seat_def)
  have "table_ok s (rheap ?t r)"
    using table_ok_enter [OF tables_invD(5) [OF I(1), of r], of a] r a by (simp add: seat_def xs MaxPlayersPerRoom_def)
  then have "tables_inv ?t" using I(1) unfolding tables_inv_def p t by (auto simp: seat_def)
  moreover have o: "occupied ?t \<subseteq> insert r h" "r \<in> occupied ?t"
    using I(2) r by (auto simp: occupied_def seat_def xs split: if_splits)
  moreover have "evolves s ?t" unfolding evolves_def p by (simp add: seat_def)
  moreover have "rnext ?t = rnext s" "Rooms ?t = Rooms s" by (simp_all add: seat_def)
  moreover have "guarded_by l s ?t" if "Writing l \<notin> set H" for l
    using that n H by (cases l) (auto simp: kept_room_def same_nodes_def seat_def)
  moreover have "engine_ok ?t" using same_nodes_ok [OF n] I(4) by simp
  moreover have zx: "z = (?t, insert r h)" using o I(2) by (auto simp: z xs rules_def)
  ultimately have "Inv rules z" "Evo rules x z" "Writing l \<notin> set H \<Longrightarrow> Keep rules l x z" for l
    using r(1) I(2,3) H by (auto simp: rules_def xs fine_inv_def protects_def)
  then show "guar rules H x z" "intact H z"
    using all by (auto simp: guar_def intact_def H zx rules_def all_seated_def xs \<open>Rooms ?t = Rooms s\<close>)
qed

lemma sound_ActI:
  "(\<And>y. rely rules H x y \<Longrightarrow> guar rules H y (track rules (u (fst y)) y) \<and> sound (k (fst y)) H (track rules (u (fst y)) y))
   \<Longrightarrow> sound (Act (\<lambda>_. True) u k) H x"
  by (simp add: rules_def Let_def)

lemma sound_file_and_seat:
  assumes x: "intact [Writing RM] x" and a: "a < snext (fst x)"
    and q: "\<And>r z. Evo rules x z \<Longrightarrow> intact [Writing (RoomMu r), Writing RM] z \<Longrightarrow> sound (q r) [Writing (RoomMu r), Writing RM] z"
  shows "sound (Act (\<lambda>_. True) (fileRoom i) (\<lambda>s. let r = rnext s in
     Acquire (Writing (RoomMu r)) (upd (setRoomID a i) (upd (seat r a) (q r))))) [Writing RM] x"
proof (rule sound_ActI)
  fix y assume xy: "rely rules [Writing RM] x y"
  have y: "intact [Writing RM] y" by (rule relies_intact [OF x xy])
  define r where "r = rnext (fst y)"
  define f where "f = (fileRoom i (fst y), snd y)"
  let ?H = "[Writing (RoomMu r), Writing RM]"
  have f: "guar rules [Writing RM] y f" "track rules (fileRoom i (fst y)) y = f"
    using file_guar [OF y] by (simp_all add: f_def)
  have "sound (Acquire (Writing (RoomMu r)) (upd (setRoomID a i) (upd (seat r a) (q r)))) [Writing RM] f"
    unfolding safe.simps(5)
  proof (intro allI impI)
    fix g assume fg: "rely rules [Writing RM] f g"
    have gt: "Rooms (fst g) = Rooms (fst f)" "snd g = snd f" "rnext (fst g) = rnext (fst f)"
      using rely_tables [OF fg, of "Writing RM"] by simp_all
    have Ig: "Inv rules g" using fg by (simp add: rely_def)
    have rg: "r < rnext (fst g)" "r \<notin> snd g"
      using gt intact_inv(3) [OF y] by (auto simp: f_def fileRoom_def r_def)
    then have "rSessions (rheap (fst g) r) = []" using Ig by (auto simp: rules_def occupied_def)
    have tabs: "q = r \<or> q \<in> snd g" if "map_of (Rooms (fst g)) j = Some q" for j q
      using that intact_inv(4) [OF y, of "Writing RM"] gt by (auto simp: f_def fileRoom_def r_def all_seated_def split: if_splits)
    have xg: "Evo rules x g"
      using fg.Evo_trans rely_evolves [OF xy] guar_evolves [OF f(1)] rely_evolves [OF fg] by blast
    show "sound (upd (setRoomID a i) (upd (seat r a) (q r))) ?H g"
      unfolding upd_def
    proof (rule sound_ActI)
      fix h assume gh: "rely rules ?H g h"
      define k where "k = (setRoomID a i (fst h), snd h)"
      have Ih: "Inv rules h" using gh by (simp add: rely_def)
      have k: "guar rules ?H h k" "track rules (setRoomID a i (fst h)) h = k"
        using harmless_guar [OF Ih, of "setRoomID a i (fst h)" "fst h"] by (simp_all add: k_def)
      have "sound (Act (\<lambda>_. True) (seat r a) (\<lambda>_. q r)) ?H k"
      proof (rule sound_ActI)
        fix l assume kl: "rely rules ?H k l"
        define m where "m = track rules (seat r a (fst l)) l"
        have xl: "Evo rules x l"
          using fg.Evo_trans xg rely_evolves [OF gh] guar_evolves [OF k(1)] rely_evolves [OF kl] by blast
        have Il: "Inv rules l" using kl by (simp add: rely_def)
        have same: "Rooms (fst l) = Rooms (fst g)" "snd l = snd g" "rnext (fst l) = rnext (fst g)"
          using rely_tables [OF gh, of "Writing RM"] rely_tables [OF kl, of "Writing RM"] by (simp_all add: k_def setRoomID_def)
        have s1: "r < rnext (fst l)" "r \<notin> snd l" using rg same by simp_all
        then have "rSessions (rheap (fst l) r) = []" using Il by (auto simp: rules_def occupied_def)
        then have m: "guar rules ?H l m" "intact ?H m"
          using seat_first [OF Il s1(1) _ Evo_facts(1) [OF xl a] refl, of m] tabs same by (simp_all add: m_def)
        have "Evo rules x m" using fg.Evo_trans xl guar_evolves [OF m(1)] by blast
        then have "sound (q r) ?H m" using q m(2) by blast
        then show "guar rules ?H l (track rules (seat r a (fst l)) l) \<and> sound (q r) ?H (track rules (seat r a (fst l)) l)"
          using m by (simp only: m_def)
      qed
      then show "guar rules ?H h (track rules (setRoomID a i (fst h)) h) \<and>
          sound (Act (\<lambda>_. True) (seat r a) (\<lambda>_. q r)) ?H (track rules (setRoomID a i (fst h)) h)"
        using k by simp
    qed
  qed
  then show "guar rules [Writing RM] y (track rules (fileRoom i (fst y)) y) \<and>
      sound (let r = rnext (fst y) in Acquire (Writing (RoomMu r)) (upd (setRoomID a i) (upd (seat r a) (q r)))) [Writing RM]
        (track rules (fileRoom i (fst y)) y)"
    using f by (simp only: r_def Let_def)
qed

lemma sound_sendP:
  assumes x: "intact H x" and k: "\<And>z. Evo rules x z \<Longrightarrow> intact H z \<Longrightarrow> sound k H z"
  shows "sound (sendP a cmd code m d k) H x"
  unfolding sendP_def
proof (rule sound_act [OF x])
  fix y z assume "rely rules H x y" "guar rules H y z" "intact H z"
  then show "sound k H z" using k fg.Evo_trans rely_evolves guar_evolves by blast
qed (simp add: harmless_grants)

lemma sound_CreateRoomP:
  assumes x: "intact [] x" and a: "a < snext (fst x)" and k: "\<And>z. Evo rules x z \<Longrightarrow> intact [] z \<Longrightarrow> sound k [] z"
  shows "sound (CreateRoomP X a k) [] x"
  unfolding CreateRoomP_def
proof (rule sound_acquire [OF x], rule sound_act, assumption)
  fix y z assume xy: "rely rules [] x y" and yz: "rely rules [Writing RM] y z" and z: "intact [Writing RM] z"
  let ?u = "\<lambda>s. case freshRoomID X (Rooms s) (world s) of None \<Rightarrow> s | Some (_, w) \<Rightarrow> s\<lparr>world := w\<rparr>"
  show "grants [Writing RM] z (?u (fst z))" using z by (auto simp: harmless_grants split: option.split)
  fix d assume zd: "guar rules [Writing RM] z d" and d: "intact [Writing RM] d"
  have xd: "Evo rules x d"
    using fg.Evo_trans rely_evolves [OF xy] rely_evolves [OF yz] guar_evolves [OF zd] by blast
  have tail: "sound (Release (Writing (RoomMu r)) (sendP a cmd code m j (Release (Writing RM) k)))
      [Writing (RoomMu r), Writing RM] v"
    if dv: "Evo rules d v" and v: "intact [Writing (RoomMu r), Writing RM] v" for r v cmd code m j
  proof (rule sound_release [OF v], simp, simp, rule sound_sendP, assumption)
    fix w t assume w: "rely rules [Writing (RoomMu r), Writing RM] v w" and t: "Evo rules w t" "intact [Writing RM] t"
    show "sound (Release (Writing RM) k) [Writing RM] t"
    proof (rule sound_release [OF t(2)], simp, simp)
      fix l assume l: "rely rules [Writing RM] t l" "intact [] l"
      have "Evo rules x l"
        using fg.Evo_trans xd dv rely_evolves [OF w] t(1) rely_evolves [OF l(1)] by blast
      then show "sound k [] l" using k l(2) by blast
    qed
  qed
  show "sound (case freshRoomID X (Rooms (fst z)) (world (fst z)) of None \<Rightarrow> Spin | Some (roomID, _) \<Rightarrow>
      Act (\<lambda>_. True) (fileRoom roomID) (\<lambda>s. let r = rnext s in Acquire (Writing (RoomMu r))
        (upd (setRoomID a roomID) (upd (seat r a) (Release (Writing (RoomMu r))
          (sendP a ''create_room_res'' CodeSuccess (MRoom RoomCreated) (JObj [(''room_id'', JStr roomID)])
            (Release (Writing RM) k))))))) [Writing RM] d"
  proof (cases "freshRoomID X (Rooms (fst z)) (world (fst z))")
    case (Some p)
    show ?thesis unfolding Some option.case prod.case_eq_if
      by (rule sound_file_and_seat [OF d Evo_facts(1) [OF xd a]]) (rule tail)
  qed simp
qed

lemma sound_matchTurnP:
  fixes x :: "'w server \<times> nat set"
  assumes x: "intact [] x" shows "sound (matchTurnP X Ret) [] x"
  unfolding matchTurnP_def receiveP_def
proof (rule sound_act [OF x])
  fix y z :: "'w server \<times> nat set"
  assume y: "intact [] y" "MatchQueue (fst y) \<noteq> []"
  show "grants [] y ((fst y)\<lparr>MatchQueue := tl (MatchQueue (fst y))\<rparr>)" using y(1) by (simp add: harmless_grants)
  assume yz: "guar rules [] y z" and z: "intact [] z"
  let ?p1 = "hd (MatchQueue (fst y))"
  have p1: "?p1 < snext (fst y)" using tables_invD(9) [OF intact_inv(1) [OF y(1)]] y(2) by simp
  show "sound (Act (\<lambda>s. MatchQueue s \<noteq> []) (\<lambda>s. s\<lparr>MatchQueue := tl (MatchQueue s)\<rparr>) (\<lambda>s.
     CreateRoomP X ?p1 (look (\<lambda>t. JoinRoomP (sRoomID (sheap t ?p1)) (hd (MatchQueue s)) Ret)))) [] z"
  proof (rule sound_act [OF z])
    fix v w :: "'w server \<times> nat set"
    assume zv: "rely rules [] z v" and v: "intact [] v" "MatchQueue (fst v) \<noteq> []"
    show "grants [] v ((fst v)\<lparr>MatchQueue := tl (MatchQueue (fst v))\<rparr>)" using v(1) by (simp add: harmless_grants)
    assume vw: "guar rules [] v w" and w: "intact [] w"
    let ?p2 = "hd (MatchQueue (fst v))"
    have "?p2 < snext (fst v)" using tables_invD(9) [OF intact_inv(1) [OF v(1)]] v(2) by simp
    then have p2: "?p2 < snext (fst w)" using Evo_facts(1) guar_evolves [OF vw] by blast
    have "Evo rules y w" using fg.Evo_trans guar_evolves [OF yz] rely_evolves [OF zv] guar_evolves [OF vw] by blast
    then have "?p1 < snext (fst w)" using Evo_facts(1) p1 by blast
    then show "sound (CreateRoomP X ?p1 (look (\<lambda>t. JoinRoomP (sRoomID (sheap t ?p1)) ?p2 Ret))) [] w"
    proof (rule sound_CreateRoomP [OF w])
      fix l assume wl: "Evo rules w l" and l: "intact [] l"
      show "sound (look (\<lambda>t. JoinRoomP (sRoomID (sheap t ?p1)) ?p2 Ret)) [] l"
      proof (rule sound_look [OF l])
        fix m assume lm: "rely rules [] l m" and m: "intact [] m"
        have "Evo rules w m" using fg.Evo_trans wl rely_evolves [OF lm] by blast
        then have "?p2 < snext (fst m)" using Evo_facts(1) p2 by blast
        then show "sound (JoinRoomP (sRoomID (sheap (fst m) ?p1)) ?p2 Ret) [] m"
          by (rule sound_JoinRoomP [OF m]) (rule always_end)
      qed
    qed
  qed
qed

section \<open>Connections and commands\<close>

lemma addSession_grants:
  assumes x: "intact [] x"
  shows "grants [] x (addSession uid c (fst x))"
proof -
  obtain s h where xs: "x = (s, h)" by force
  let ?t = "addSession uid c s"
  have I: "tables_inv s" using intact_inv(1) [OF x] by (simp add: xs)
  have p: "pid ?t a = pid s a" if "a < snext s" for a using that by (simp add: pid_def addSession_def)
  have room: "table_ok ?t g" if "table_ok s g" for g
    using that p unfolding table_ok_def by (auto simp: addSession_def less_Suc_eq)
  have "tables_inv ?t"
    using I room p unfolding tables_inv_def by (auto simp: addSession_def NewSession_def less_Suc_eq)
  moreover have "occupied ?t \<subseteq> h" using intact_inv(2) [OF x] by (simp add: xs occupied_def addSession_def)
  moreover have "evolves s ?t" using p by (simp add: evolves_def addSession_def)
  moreover have n: "same_nodes s ?t" by (simp add: same_nodes_def addSession_def)
  ultimately show ?thesis unfolding xs
    by (intro grantsI same_guarded) (use x xs in \<open>simp_all add: same_nodes_ok [OF n], simp_all add: addSession_def\<close>)
qed

lemma sound_FindSessionP:
  fixes x :: "'w server \<times> nat set"
  assumes x: "intact [] x" and k: "\<And>f y. intact [] y \<Longrightarrow> sound (k f) [] y"
  shows "sound (FindSessionP uid k) [] x"
  unfolding FindSessionP_def
proof (rule sound_acquire [OF x], rule sound_look, assumption)
  fix z :: "'w server \<times> nat set" assume z: "intact [Reading RM] z"
  show "sound (Release (Reading RM) (k (FindSession uid (fst z)))) [Reading RM] z"
    by (rule sound_release [OF z]) (simp_all add: k)
qed

lemma sound_openP:
  fixes x :: "'w server \<times> nat set"
  assumes x: "intact [] x" and k: "\<And>r. always (k r) []"
  shows "sound (HandleWS_openP uid c k) [] x"
  unfolding HandleWS_openP_def
proof (rule sound_FindSessionP [OF x])
  fix f and w :: "'w server \<times> nat set"
  assume w: "intact [] w"
  let ?old = "\<lambda>a. closeOldP a (upd (setConn a (Some c)) (look (\<lambda>s.
        let lobby = sendP a ''reconnect_success'' CodeSuccess (MRouter BackToLobby) JNull (k (a, False)) in
        if sRoomID (sheap s a) = [] then lobby
        else look (\<lambda>s. let roomID = sRoomID (sheap s a) in look (\<lambda>s.
          if map_of (Rooms s) roomID \<noteq> None then k (a, True) else lobby)))))"
  have old: "always (?old a) []" for a
    using k by (auto simp: closeOldP_def Let_def intro!: always)
  show "sound (case f of Some a \<Rightarrow> ?old a
    | None \<Rightarrow> Act (\<lambda>_. True) (addSession uid c) (\<lambda>s. let a = snext s in RegisterSessionP uid a (k (a, False)))) [] w"
  proof (cases "f")
    case (Some a)
    then show ?thesis using always_sound [OF old w] by simp
  next
    case None
    have "sound (Act (\<lambda>_. True) (addSession uid c) (\<lambda>s. let a = snext s in RegisterSessionP uid a (k (a, False)))) [] w"
    proof (rule sound_act [OF w])
      fix u v :: "'w server \<times> nat set" assume u: "intact [] u"
      show "grants [] u (addSession uid c (fst u))" by (rule addSession_grants [OF u])
      assume v: "v = track rules (addSession uid c (fst u)) u" "intact [] v"
      let ?a = "snext (fst u)"
      have a: "?a < snext (fst v)" "pid (fst v) ?a = uid" by (simp_all add: v(1) rules_def addSession_def pid_def NewSession_def)
      show "sound (let a = ?a in RegisterSessionP uid a (k (a, False))) [] v"
        unfolding Let_def RegisterSessionP_def
      proof (rule sound_acquire [OF v(2)], rule sound_upd, assumption)
        fix l m :: "'w server \<times> nat set" assume l: "rely rules [] v l" and lm: "rely rules [Writing RM] l m" and m: "intact [Writing RM] m"
        have "Evo rules v m" using fg.Evo_trans rely_evolves [OF l] rely_evolves [OF lm] by blast
        then have "?a < snext (fst m)" "pid (fst m) ?a = uid" using Evo_facts(1,2) a by metis+
        then show "grants [Writing RM] m (RegisterSession uid ?a (fst m))" using table_writes(4) [OF m] by simp
      next
        fix n :: "'w server \<times> nat set" assume n: "intact [Writing RM] n"
        have "always (Release (Writing RM) (k (?a, False))) [Writing RM]" using k by (auto intro!: always)
        then show "sound (Release (Writing RM) (k (?a, False))) [Writing RM] n" using n by (rule always_sound)
      qed
    qed
    with None show ?thesis by simp
  qed
qed

lemma sound_do_matchP:
  fixes x :: "'w server \<times> nat set"
  assumes x: "intact [] x" and a: "a < snext (fst x)" shows "sound (do_matchP a req Ret) [] x"
  unfolding do_matchP_def
proof (rule sound_act [OF x])
  fix y :: "'w server \<times> nat set"
  assume xy: "rely rules [] x y" and y: "intact [] y" and room: "length (MatchQueue (fst y)) < MatchQueueSize"
  obtain s h where ys: "y = (s, h)" by force
  let ?t = "s\<lparr>MatchQueue := MatchQueue s @ [a]\<rparr>"
  have p: "pid ?t = pid s" by (simp add: pid_def fun_eq_iff)
  have t: "table_ok ?t = table_ok s" using p by (rule table_ok_cong) simp
  have "a < snext s" using Evo_facts(1) [OF rely_evolves [OF xy] a] by (simp add: ys)
  then have "tables_inv ?t" using intact_inv(1) [OF y] room unfolding tables_inv_def p t by (auto simp: ys)
  moreover have "evolves s ?t" unfolding evolves_def p by simp
  moreover have "occupied ?t \<subseteq> h" using intact_inv(2) [OF y] by (simp add: ys occupied_def)
  moreover have n: "same_nodes s ?t" by (simp add: same_nodes_def)
  ultimately show "grants [] y ((fst y)\<lparr>MatchQueue := MatchQueue (fst y) @ [a]\<rparr>)"
    unfolding ys fst_conv by (intro grantsI same_guarded) (use y in \<open>simp_all add: ys same_nodes_ok [OF n]\<close>)
next
  fix z :: "'w server \<times> nat set" assume z: "intact [] z"
  have "always (sendP a ''match_res'' CodeSuccess (MRouter MatchQueued) JNull Ret) []" by (intro always)
  then show "sound (sendP a ''match_res'' CodeSuccess (MRouter MatchQueued) JNull Ret) [] z" using z by (rule always_sound)
qed

lemma sound_handlers:
  assumes x: "intact [] x" and a: "a < snext (fst x)" and h: "map_of (InitGameRoutersP X F) cmd = Some handler"
  shows "sound (handler a req Ret) [] x"
proof -
  have "handler \<in> {do_battle_actionP X, do_select_pokemonP, do_start_gameP, do_matchP, do_list_roomsP,
      do_leave_roomP X, do_join_roomP, do_create_roomP X, do_get_redisP X F, do_cluster_statusP F}"
    using h by (auto simp: InitGameRoutersP_def split: if_splits)
  moreover have "always (do_battle_actionP X a req Ret) []" "always (do_select_pokemonP a req Ret) []"
    "always (do_start_gameP a req Ret) []" "always (do_list_roomsP a req Ret) []" "always (do_leave_roomP X a req Ret) []"
    "always (do_get_redisP X F a req Ret) []" "always (do_cluster_statusP F a req Ret) []"
    by (auto simp: do_battle_actionP_def do_select_pokemonP_def do_start_gameP_def do_list_roomsP_def
      do_leave_roomP_def do_cluster_statusP_def Let_def intro!: always)
  moreover have "sound (do_create_roomP X a req Ret) [] x" unfolding do_create_roomP_def
    by (rule sound_CreateRoomP [OF x a]) simp
  moreover have "sound (do_join_roomP a req Ret) [] x" unfolding do_join_roomP_def
    by (rule sound_JoinRoomP [OF x a always_end(1)])
  ultimately show ?thesis using sound_do_matchP [OF x a] by (auto intro: always_sound [OF _ x])
qed

lemma sound_DispatchP:
  assumes x: "intact [] x" and a: "a < snext (fst x)"
  shows "sound (DispatchP X (InitGameRoutersP X F) a payload Ret) [] x"
proof -
  have "always (sendP a c CodeSendInvalid (MRouter UnknownCmd) JNull Ret) []" for c by (intro always)
  then have handled: "sound (case map_of (InitGameRoutersP X F) cmd of Some handler \<Rightarrow> handler a req Ret
      | None \<Rightarrow> sendP a c CodeSendInvalid (MRouter UnknownCmd) JNull Ret) [] x" for cmd req c
    using sound_handlers [OF x a] by (cases "map_of (InitGameRoutersP X F) cmd") (auto intro: always_sound [OF _ x])
  show ?thesis
  proof (cases "x_parse X payload")
    case (Some j)
    obtain req ok where "dec_GameRequest j \<lparr>req_Cmd = [], req_Data = RawEmpty\<rparr> = (req, ok)" by force
    with Some show ?thesis using handled by (cases ok) (simp_all add: DispatchP_def)
  qed (simp add: DispatchP_def)
qed

section \<open>The server\<close>

text \<open>Which goroutines can start: a message comes in on a session that exists, and a goroutine of the
  room code or a reconnect loop is one that was spawned. Any number of match workers, of pumps and of
  turns of the engine's tickers may run.\<close>

primrec may_start :: "entry \<Rightarrow> 'w server \<Rightarrow> bool" where
  "may_start (EOpen uid c) s = (uid \<noteq> [])"
| "may_start (EMessage a payload) s = (a < snext s)"
| "may_start (EClose a c) s = True"
| "may_start (EPump a c) s = True"
| "may_start (ESync a) s = True"
| "may_start (EExpire uid) s = True"
| "may_start EMatch s = True"
| "may_start (ETask t) s = (t \<in> set (tasks s))"
| "may_start EHealth s = True"
| "may_start EDiscovery s = True"
| "may_start (EReconnect l) s = (l \<in> set (loops s))"
| "may_start EShutdown s = True"

definition taken :: "entry \<Rightarrow> 'w server \<Rightarrow> 'w server" where
  "taken e s = (case e of
      ETask t \<Rightarrow> s\<lparr>tasks := remove1 t (tasks s)\<rparr>
    | EReconnect l \<Rightarrow> s\<lparr>loops := remove1 l (loops s)\<rparr>
    | _ \<Rightarrow> s)"

text \<open>The outside world may change at any time.\<close>

inductive server_start :: "'w ext \<Rightarrow> gofmt \<Rightarrow> 'w server \<Rightarrow> 'w server \<Rightarrow> 'w gprog \<Rightarrow> bool" for X F where
  entry: "may_start e s \<Longrightarrow> server_start X F s (taken e s) (entryP X F e)"
| outside: "server_start X F s (s\<lparr>world := w\<rparr>) Ret"

lemma taken_harmless: "harmless s (taken e s)"
  by (cases e) (simp_all add: taken_def harmless_engine same_nodes_def)

lemma sound_entryP:
  assumes x: "intact [] x" and e: "may_start e (fst x) \<or> e \<in> range ETask \<union> range EReconnect" shows "sound (entryP X F e) [] x"
proof (cases e)
  case (EMessage a payload)
  then show ?thesis using sound_DispatchP [OF x] e by auto
next
  case (EOpen uid c)
  then show ?thesis using sound_openP [OF x always_end(1)] by simp
next
  case EMatch
  then show ?thesis using sound_matchTurnP [OF x] by simp
qed (simp_all add: always_sound [OF _ x] always)

interpretation srv: guarded rules "server_start X F" for X F
proof unfold_locales
  fix x s p
  assume "server_start X F (actual rules x) s p" and I: "Inv rules x"
  then have st: "server_start X F (fst x) s p" and x: "intact [] x" by (simp_all add: rules_def intact_def)
  have h: "harmless (fst x) s" using st by cases (simp_all add: taken_harmless)
  then show "guar rules [] x (track rules s x)" using harmless_grants [OF x] by (simp add: grants_def)
  have z: "intact [] (track rules s x)" using harmless_grants [OF x h] by (simp add: grants_def)
  have f: "fst (track rules s x) = s" by (simp add: rules_def)
  from st show "sound p [] (track rules s x)"
  proof cases
    case (entry e)
    then have "may_start e (fst (track rules s x)) \<or> e \<in> range ETask \<union> range EReconnect"
      unfolding f by (cases e) (simp_all add: taken_def)
    then show ?thesis unfolding entry(2) by (rule sound_entryP [OF z])
  qed simp
qed

end
