(* ===== verification/EngineDeadlock.thy ===== *)
theory EngineDeadlock
  imports EngineOpsProgs
begin

text \<open>
  The lock discipline, and the engine's programs: each takes one lock at a time, gives it back before it
  takes another, and holds none where it can panic or call the callback.
\<close>

section \<open>The discipline\<close>

abbreviation tidyP :: "('w, 'm) eprog \<Rightarrow> slock hold list \<Rightarrow> bool" where
  "tidyP \<equiv> disciplined lock_rank"

named_theorems tidy_intros "programs that keep the lock discipline"

lemma tidy_basic [tidy_intros]:
  "tidyP Ret []" "tidyP Panic []" "tidyP Spin H" "(\<And>s. tidyP (k s) H) \<Longrightarrow> tidyP (Act g u k) H"
  "(\<And>s. tidyP (k s) H) \<Longrightarrow> tidyP (look k) H" "tidyP p H \<Longrightarrow> tidyP (upd u p) H"
  "h \<in> set H \<Longrightarrow> tidyP p (remove1 h H) \<Longrightarrow> tidyP (Release h p) H"
  by simp_all

lemma tidy_engine_locks [tidy_intros]:
  assumes "lock_rank l = 2"
  shows "tidyP p [Writing l] \<Longrightarrow> tidyP (Acquire (Writing l) p) []" "tidyP p [Reading l] \<Longrightarrow> tidyP (Acquire (Reading l) p) []"
  by simp_all

lemma tidy_callP [tidy_intros]: "(\<And>res. tidyP (k res) []) \<Longrightarrow> tidyP (callP f k) []"
  by (simp add: callP_def split: option.split)

lemma tidy_callP_total: "(\<And>res. tidyP (k res) H) \<Longrightarrow> tidyP (callP (\<lambda>s. Some (f s)) k) H"
  by (simp add: callP_def split: prod.split)

lemma tidy_foldr: "(\<And>e q. tidyP q H \<Longrightarrow> tidyP (f e q) H) \<Longrightarrow> tidyP p H \<Longrightarrow> tidyP (foldr f es p) H"
  by (induction es) simp_all

section \<open>The engine\<close>

lemma tidy_reads [tidy_intros]:
  "(\<And>r. tidyP (k r) []) \<Longrightarrow> tidyP (readEngine f k) []" "(\<And>r. tidyP (k r) []) \<Longrightarrow> tidyP (readNode a g k) []"
  "(\<And>r. tidyP (k r) []) \<Longrightarrow> tidyP (writeNode a h k) []"
  by (simp_all add: readEngine_def readNode_def writeNode_def)

lemma tidy_accesses [tidy_intros]:
  "(\<And>b. tidyP (c b) []) \<Longrightarrow> tidyP (isConnectedP a c) []" "(\<And>b. tidyP (d b) []) \<Longrightarrow> tidyP (addrSnapshotP a d) []"
  "(\<And>b. tidyP (e b) []) \<Longrightarrow> tidyP (snapshotP a e) []" "(\<And>b. tidyP (f b) []) \<Longrightarrow> tidyP (getReconnectFailuresP a f) []"
  "tidyP p [] \<Longrightarrow> tidyP (clearReconnectFailuresP a p) []" "(\<And>b. tidyP (f b) []) \<Longrightarrow> tidyP (getMaxPodIndexP f) []"
  by (auto simp: isConnectedP_def addrSnapshotP_def snapshotP_def getReconnectFailuresP_def clearReconnectFailuresP_def
      getMaxPodIndexP_def intro!: tidy_intros)

lemma tidy_locked [tidy_intros]:
  "(\<And>b. tidyP (c b) []) \<Longrightarrow> tidyP (isReconnectingP a c) []" "tidyP p [] \<Longrightarrow> tidyP (setReconnectingP b a p) []"
  "tidyP p [] \<Longrightarrow> tidyP (registerP f p) []" "(\<And>a. tidyP (d a) []) \<Longrightarrow> tidyP (ensureNodeP i d) []"
  by (simp_all add: isReconnectingP_def setReconnectingP_def registerP_def ensureNodeP_def)

lemma tidy_lookups [tidy_intros]:
  "(\<And>n. tidyP (k n) []) \<Longrightarrow> tidyP (getNodeP i k) []" "(\<And>l. tidyP (m l) []) \<Longrightarrow> tidyP (snapshotPodIndicesP m) []"
  "(\<And>c. tidyP (d c) []) \<Longrightarrow> tidyP (GetClientP a d) []" "(\<And>r. tidyP (p r) []) \<Longrightarrow> tidyP (GetNodeByPodIndexP i p) []"
  "(\<And>j. tidyP (q j) []) \<Longrightarrow> tidyP (hashRoomP room q) []"
  by (auto simp: getNodeP_def snapshotPodIndicesP_def GetClientP_def GetNodeByPodIndexP_def hashRoomP_def
      intro!: tidy_intros split: option.split)

lemma tidy_candidatesP [tidy_intros]: "(\<And>nf ul. tidyP (k nf ul) []) \<Longrightarrow> tidyP (candidatesP is nf ul k) []"
  by (induction "is" arbitrary: nf ul) (auto intro!: tidy_intros split: option.split)

lemma tidy_GetNodeForRoomP [tidy_intros]: "(\<And>r. tidyP (k r) []) \<Longrightarrow> tidyP (GetNodeForRoomP i k) []"
  by (auto simp: GetNodeForRoomP_def pickPreferredNodeForRoomP_def Let_def intro!: tidy_intros split: option.split sum.split)

lemma tidy_statusesP [tidy_intros]: "(\<And>sts. tidyP (k sts) []) \<Longrightarrow> tidyP (statusesP is acc k) []"
  by (induction "is" arbitrary: acc) (auto intro!: tidy_intros split: option.split)

lemma tidy_GetStatusP [tidy_intros]: "(\<And>st. tidyP (k st) []) \<Longrightarrow> tidyP (GetStatusP k) []"
  by (auto simp: GetStatusP_def Let_def intro!: tidy_intros)

lemma tidy_resetP [tidy_intros]: "tidyP k [] \<Longrightarrow> tidyP (resetReconnectFailuresP i k) []"
  by (auto simp: resetReconnectFailuresP_def intro!: tidy_intros split: option.split)

lemma tidy_connectP [tidy_intros]: "(\<And>err. tidyP (k err) []) \<Longrightarrow> tidyP (connectAndRegisterPodP X i addr k) []"
  by (auto simp: connectAndRegisterPodP_def intro!: tidy_intros split: sum.split)

lemma tidy_disconnectP [tidy_intros]: "tidyP k [] \<Longrightarrow> tidyP (disconnectP X i a k) []"
  by (auto simp: disconnectP_def intro!: tidy_intros split: option.split)

lemma tidy_deleteNodeP [tidy_intros]: "tidyP k [] \<Longrightarrow> tidyP (deleteNodeP X i k) []"
  by (auto simp: deleteNodeP_def intro!: tidy_intros split: option.split)

lemma tidy_maxHealthyP [tidy_intros]: "(\<And>m. tidyP (k m) []) \<Longrightarrow> tidyP (maxHealthyP is mx k) []"
  by (induction "is" arbitrary: mx) (auto intro!: tidy_intros split: option.split)

lemma tidy_shrinkP [tidy_intros]: "tidyP k [] \<Longrightarrow> tidyP (shrinkReplicaCountIfNeededP k) []"
  by (auto simp: shrinkReplicaCountIfNeededP_def Let_def intro!: tidy_intros)

lemma tidy_discoverNewPodsP [tidy_intros]: "tidyP k [] \<Longrightarrow> tidyP (discoverNewPodsP X k) []"
  by (auto simp: discoverNewPodsP_def discoverPodP_def updateMaxPodIndexP_def Let_def
      intro!: tidy_intros tidy_foldr split: option.split sum.split)

lemma tidy_ShutdownP [tidy_intros]: "tidyP k [] \<Longrightarrow> tidyP (ShutdownP X k) []"
  by (auto simp: ShutdownP_def closeNodeP_def intro!: tidy_intros tidy_foldr split: option.split)

lemma tidy_reconnectP [tidy_intros]: "(\<And>err. tidyP (k err) []) \<Longrightarrow> tidyP (reconnectP X i addr k) []"
  by (auto simp: reconnectP_def intro!: tidy_intros split: option.split)

lemma tidy_ensureConnectedP [tidy_intros]: "tidyP k [] \<Longrightarrow> tidyP (ensureConnectedP X k) []"
  by (auto simp: ensureConnectedP_def ensureConnectedAtP_def intro!: tidy_intros tidy_foldr split: option.split)

locale tidy_callback =
  fixes fn :: "('w, 'm) eprog \<Rightarrow> ('w, 'm) eprog"
  assumes fn: "tidyP p [] \<Longrightarrow> tidyP (fn p) []"
begin

lemma tidy_triggerP: "tidyP k [] \<Longrightarrow> tidyP (triggerReassignRoomsP fn k) []"
  by (auto simp: triggerReassignRoomsP_def intro!: tidy_intros fn)

lemma tidy_checkAndTriggerP: "tidyP k [] \<Longrightarrow> tidyP (checkAndTriggerReassignP fn k) []"
  by (auto simp: checkAndTriggerReassignP_def intro!: tidy_intros tidy_triggerP)

lemma tidy_recordP: "tidyP k [] \<Longrightarrow> tidyP (recordReconnectFailureP X fn i k) []"
  by (auto simp: recordReconnectFailureP_def Let_def intro!: tidy_intros tidy_triggerP split: option.split)

lemma tidy_attemptP: "tidyP k [] \<Longrightarrow> tidyP (attemptReconnectP X fn l k) []"
  by (auto simp: attemptReconnectP_def endLoopP_def intro!: tidy_intros tidy_recordP split: prod.split option.split)

lemma tidy_checkSingleNodeP: "(\<And>err. tidyP (k err) []) \<Longrightarrow> tidyP (checkSingleNodeP X fn i k) []"
  by (auto simp: checkSingleNodeP_def intro!: tidy_intros tidy_triggerP split: option.split sum.split)

lemma tidy_healthTickP: "tidyP k [] \<Longrightarrow> tidyP (healthTickP X fn k) []"
  by (auto simp: healthTickP_def checkHeartbeatP_def checkHeartbeatAtP_def
      intro!: tidy_intros tidy_foldr tidy_checkSingleNodeP tidy_recordP tidy_checkAndTriggerP split: option.split)

end

end
