(* ===== verification/Deadlock.thy ===== *)
theory Deadlock
  imports HandlerProgs EngineDeadlock
begin

text \<open>
  Every program takes \<open>rm.mu\<close> before the mutex of a room, never two mutexes of rooms, gives back what
  it took, and holds no lock where it can panic. So the locks alone never stop the server; what can
  stop it is a send on a full channel by a goroutine that holds a lock.
\<close>

section \<open>Two locks at once\<close>

definition roomless :: "slock hold list \<Rightarrow> bool" where
  "roomless H \<longleftrightarrow> (\<forall>g \<in> set H. lk g = RM)"

lemma roomless_simps [simp]: "roomless []" "roomless (Writing RM # H) = roomless H" "roomless (Reading RM # H) = roomless H"
  by (simp_all add: roomless_def)

lemma tidy_room [tidy_intros]: "roomless H \<Longrightarrow> tidyP p (Writing (RoomMu r) # H) \<Longrightarrow> tidyP (Acquire (Writing (RoomMu r)) p) H"
  by (simp add: roomless_def)

lemma tidy_manager [tidy_intros]:
  "tidyP p [Writing RM] \<Longrightarrow> tidyP (Acquire (Writing RM) p) []"
  "tidyP p [Reading RM] \<Longrightarrow> tidyP (Acquire (Reading RM) p) []"
  by simp_all

lemma tidy_sendP [tidy_intros]: "tidyP k H \<Longrightarrow> tidyP (sendP a cmd code m d k) H"
  by (simp add: sendP_def)

lemma tidy_broadcastP [tidy_intros]: "roomless H \<Longrightarrow> tidyP k H \<Longrightarrow> tidyP (broadcastP r cmd code m d k) H"
  unfolding broadcastP_def by (intro tidy_intros tidy_foldr) simp_all

section \<open>Rooms\<close>

lemma tidy_CreateRoomP [tidy_intros]: "tidyP k [] \<Longrightarrow> tidyP (CreateRoomP X a k) []"
  by (auto simp: CreateRoomP_def Let_def intro!: tidy_intros split: option.split)

lemma tidy_JoinRoomP [tidy_intros]: "tidyP k [] \<Longrightarrow> tidyP (JoinRoomP i a k) []"
  by (auto simp: JoinRoomP_def Let_def intro!: tidy_intros split: option.split)

lemma tidy_destroyAttemptsP [tidy_intros]: "(\<And>ok. tidyP (k ok) []) \<Longrightarrow> tidyP (destroyAttemptsP X na i n k) []"
  by (induction n) (auto intro!: tidy_intros split: sum.split)

lemma tidy_destroyP [tidy_intros]:
  "(\<And>ok. tidyP (k ok) []) \<Longrightarrow> tidyP (sendDestroyRoomRequestSyncP X i n k) []"
  "tidyP p [] \<Longrightarrow> tidyP (sendDestroyRoomRequestP i n p) []"
  by (auto simp: sendDestroyRoomRequestSyncP_def sendDestroyRoomRequestP_def intro!: tidy_intros split: sum.split)

lemma tidy_forgetRoomP [tidy_intros]: "tidyP k [] \<Longrightarrow> tidyP (forgetRoomP i k) []"
  by (auto simp: forgetRoomP_def intro!: tidy_intros)

lemma tidy_DeleteRoomP [tidy_intros]: "tidyP k [] \<Longrightarrow> tidyP (DeleteRoomP X i k) []"
  by (auto simp: DeleteRoomP_def Let_def intro!: tidy_intros split: option.split)

lemma tidy_LeaveRoomP [tidy_intros]: "tidyP k [] \<Longrightarrow> tidyP (LeaveRoomP X i a k) []"
  by (auto simp: LeaveRoomP_def Let_def intro!: tidy_intros split: option.split)

lemma tidy_readNodesP [tidy_intros]: "(\<And>n. tidyP (k n) H) \<Longrightarrow> tidyP (readNodesP es acc k) H"
  by (induction es arbitrary: acc) (auto intro!: tidy_intros)

lemma tidy_DestroyAllRoomsP [tidy_intros]: "tidyP k [] \<Longrightarrow> tidyP (DestroyAllRoomsP k) []"
  by (auto simp: DestroyAllRoomsP_def intro!: tidy_intros tidy_foldr)

lemma tidy_listRoomsP [tidy_intros]: "roomless H \<Longrightarrow> (\<And>n. tidyP (k n) H) \<Longrightarrow> tidyP (listRoomsP es acc k) H"
  by (induction es arbitrary: acc) (auto simp: Let_def roomless_def intro!: tidy_intros)

lemma tidy_GetRoomsP [tidy_intros]: "(\<And>n. tidyP (k n) []) \<Longrightarrow> tidyP (GetRoomsP k) []"
  by (auto simp: GetRoomsP_def intro!: tidy_intros)

lemma tidy_lookupP [tidy_intros]: "(\<And>f. tidyP (k f) []) \<Longrightarrow> tidyP (lookupP a k) []"
  by (auto simp: lookupP_def Let_def intro!: tidy_intros)

lemma tidy_CleanUpP [tidy_intros]: "tidyP k [] \<Longrightarrow> tidyP (CleanUpIfStillOfflineP X u k) []"
  by (auto simp: CleanUpIfStillOfflineP_def Let_def intro!: tidy_intros split: option.split)

lemma tidy_SyncP [tidy_intros]: "tidyP k [] \<Longrightarrow> tidyP (SyncRoomStateP a k) []"
  by (auto simp: SyncRoomStateP_def GetSnapshotP_def Let_def intro!: tidy_intros split: option.split)

lemma tidy_matchTurnP [tidy_intros]: "tidyP k [] \<Longrightarrow> tidyP (matchTurnP X k) []"
  by (auto simp: matchTurnP_def receiveP_def intro!: tidy_intros)

section \<open>Games\<close>

lemma tidy_handleStartErrorP [tidy_intros]: "tidyP k [] \<Longrightarrow> tidyP (handleStartErrorP r e k) []"
  by (auto simp: handleStartErrorP_def intro!: tidy_intros)

lemma tidy_buildP [tidy_intros]: "(\<And>res. tidyP (k res) []) \<Longrightarrow> tidyP (buildBattleInitJSONP i ss k) []"
  by (auto simp: buildBattleInitJSONP_def Let_def intro!: tidy_intros)

lemma tidy_StartGameP [tidy_intros]: "tidyP k [] \<Longrightarrow> tidyP (StartGameP r k) []"
  by (auto simp: StartGameP_def Let_def intro!: tidy_intros split: sum.split)

lemma tidy_attemptsP [tidy_intros]: "tidyP (attemptsP X r na j n) []"
  by (induction n) (auto intro!: tidy_intros split: sum.split)

lemma tidy_taskP [tidy_intros]: "tidyP (taskP X t) []"
  by (cases t) (auto simp: launchP_def intro!: tidy_intros split: sum.split)

lemma tidy_StartGameForSessionP [tidy_intros]: "tidyP k [] \<Longrightarrow> tidyP (StartGameForSessionP a k) []"
  by (auto simp: StartGameForSessionP_def intro!: tidy_intros split: option.split)

lemma tidy_battleSideP [tidy_intros]: "(\<And>f. tidyP (k f) []) \<Longrightarrow> tidyP (battleSideP r a k) []"
  by (auto simp: battleSideP_def Let_def intro!: tidy_intros)

lemma tidy_injectP [tidy_intros]: "(\<And>res. tidyP (k res) []) \<Longrightarrow> tidyP (injectBattleSideP r raw a k) []"
  by (auto simp: injectBattleSideP_def intro!: tidy_intros split: option.split bool.split prod.split)

lemma tidy_reportTurnP [tidy_intros]: "tidyP k [] \<Longrightarrow> tidyP (reportTurnP X r a m k) []"
  by (auto simp: reportTurnP_def Let_def intro!: tidy_intros)

lemma tidy_forwardP [tidy_intros]: "tidyP k [] \<Longrightarrow> tidyP (forwardBattleActionP X r a raw k) []"
  by (auto simp: forwardBattleActionP_def Let_def intro!: tidy_intros split: sum.split)

lemma tidy_HandleBattleActionP [tidy_intros]: "tidyP k [] \<Longrightarrow> tidyP (HandleBattleActionAndPersistP X a raw k) []"
  by (auto simp: HandleBattleActionAndPersistP_def HandleBattleActionP_def intro!: tidy_intros split: option.split)

lemma tidy_selectTeamP [tidy_intros]: "(\<And>ok. tidyP (k ok) []) \<Longrightarrow> tidyP (selectTeamP a ps k) []"
  by (induction ps) (auto intro!: tidy_intros split: option.split)

lemma tidy_HandleSelectPokemonP [tidy_intros]: "tidyP k [] \<Longrightarrow> tidyP (HandleSelectPokemonAndPersistP a raw k) []"
  by (auto simp: HandleSelectPokemonAndPersistP_def HandleSelectPokemonP_def broadcastSummaryP_def Let_def
      intro!: tidy_intros split: option.split sum.split bool.split prod.split)

lemma tidy_targetRoomsP [tidy_intros]: "roomless H \<Longrightarrow> (\<And>ts. tidyP (k ts) H) \<Longrightarrow> tidyP (targetRoomsP X st rs acc k) H"
  by (induction rs arbitrary: acc) (auto simp: Let_def roomless_def intro!: tidy_callP_total tidy_intros)

lemma tidy_pickHealthyP [tidy_intros]: "(\<And>res. tidyP (k res) []) \<Longrightarrow> tidyP (pickHealthyNodeForRoomP i ex k) []"
  by (auto simp: pickHealthyNodeForRoomP_def Let_def intro!: tidy_intros)

lemma tidy_reassignRoomP [tidy_intros]: "(\<And>b. tidyP (k b) []) \<Longrightarrow> tidyP (reassignRoomP X r k) []"
  by (auto simp: reassignRoomP_def moveRoomP_def Let_def intro!: tidy_intros split: sum.split)

lemma tidy_reassignRoomsP [tidy_intros]: "(\<And>n. tidyP (k n) []) \<Longrightarrow> tidyP (reassignRoomsP X rs n k) []"
  by (induction rs arbitrary: n) (auto intro!: tidy_intros)

lemma tidy_ReassignP [tidy_intros]: "(\<And>n. tidyP (k n) []) \<Longrightarrow> tidyP (ReassignRunningRoomsP X k) []"
  by (auto simp: ReassignRunningRoomsP_def Let_def intro!: tidy_intros)

section \<open>Commands and connections\<close>

lemma tidy_WritePumpP [tidy_intros]: "tidyP (WritePumpP a c) []"
  by (auto simp: WritePumpP_def intro!: tidy_intros)

lemma tidy_openP [tidy_intros]: "(\<And>r. tidyP (k r) []) \<Longrightarrow> tidyP (HandleWS_openP uid c k) []"
  by (auto simp: HandleWS_openP_def FindSessionP_def RegisterSessionP_def closeOldP_def Let_def
      intro!: tidy_intros split: option.split)

lemma tidy_closeP [tidy_intros]: "(\<And>b. tidyP (k b) []) \<Longrightarrow> tidyP (HandleWS_closeP a c k) []"
  by (auto simp: HandleWS_closeP_def intro!: tidy_intros)

lemma tidy_handlers:
  assumes "map_of (InitGameRoutersP X F) cmd = Some handler"
  shows "tidyP (handler a req Ret) []"
proof -
  have "handler \<in> {do_battle_actionP X, do_select_pokemonP, do_start_gameP, do_matchP, do_list_roomsP,
      do_leave_roomP X, do_join_roomP, do_create_roomP X, do_get_redisP X F, do_cluster_statusP F}"
    using assms by (auto simp: InitGameRoutersP_def split: if_splits)
  then show ?thesis
    by (elim insertE emptyE) (auto simp: do_battle_actionP_def do_select_pokemonP_def do_start_gameP_def do_matchP_def
      do_list_roomsP_def do_leave_roomP_def do_join_roomP_def do_create_roomP_def do_get_redisP_def
      do_cluster_statusP_def Let_def intro!: tidy_intros split: option.split sum.split)
qed

lemma tidy_DispatchP [tidy_intros]: "tidyP (DispatchP X (InitGameRoutersP X F) a payload Ret) []"
proof -
  have handled: "tidyP (case map_of (InitGameRoutersP X F) cmd of Some handler \<Rightarrow> handler a req Ret
      | None \<Rightarrow> sendP a c CodeSendInvalid (MRouter UnknownCmd) JNull Ret) []" for cmd req c
    using tidy_handlers by (cases "map_of (InitGameRoutersP X F) cmd") (auto intro!: tidy_intros)
  show ?thesis
  proof (cases "x_parse X payload")
    case (Some j)
    obtain req ok where "dec_GameRequest j \<lparr>req_Cmd = [], req_Data = RawEmpty\<rparr> = (req, ok)" by force
    with Some show ?thesis using handled by (cases ok) (simp_all add: DispatchP_def)
  qed (simp add: DispatchP_def)
qed

interpretation tidy: tidy_callback "reassignP X" for X
  by unfold_locales (auto simp: reassignP_def intro!: tidy_intros)

lemma tidy_entryP: "tidyP (entryP X F e) []"
  by (cases e) (auto simp: discoveryTickP_def intro!: tidy_intros tidy.tidy_healthTickP tidy.tidy_attemptP)

end
