(* ===== verification/Schedules.thy ===== *)
theory Schedules
  imports Sound Deadlock
begin

text \<open>
  Schedules of several goroutines, executed in the kernel: a leave and a join, a leave and a choice of
  pokemon, the end of a connection and the start of another, a send on a full channel.
\<close>

section \<open>Running a schedule\<close>

lemma avail_simps [simp]: "avail h [] = True" "avail h (t # ts) = ((\<forall>g \<in> set (fst t). \<not> conflict g h) \<and> avail h ts)"
  by (simp_all add: avail_def)

lemma conflict_simps [simp]:
  "conflict (Reading l) (Reading m) = False" "conflict (Writing l) (Writing m) = (l = m)"
  "conflict (Reading l) (Writing m) = (l = m)" "conflict (Writing l) (Reading m) = (l = m)"
  by (auto simp: conflict_def)

lemmas run_simps = look_def upd_def Let_def pid_def unseat_def seat_def setRoomID_def setStatus_def setConn_def
  setReady_def clearTeam_def forgetRoom_def forgetSession_def sendP_def broadcastP_def push_def offer_def

text \<open>Goroutines that start one after the other.\<close>

primrec enter :: "'w ext \<Rightarrow> gofmt \<Rightarrow> entry list \<Rightarrow> (slock, 'w server) routine list" where
  "enter X F [] = []"
| "enter X F (e # es) = ([], entryP X F e) # enter X F es"

lemma enter_append: "enter X F (es @ [e]) = enter X F es @ [([], entryP X F e)]"
  by (induction es) simp_all

lemma enter_csteps:
  assumes "\<And>e. e \<in> set es \<Longrightarrow> may_start e s \<and> taken e s = s"
  shows "csteps (server_start X F) (s, []) (s, enter X F es)"
  using assms
proof (induction es rule: rev_induct)
  case Nil
  then show ?case by (simp add: idle)
next
  case (snoc e es)
  have "may_start e s" "taken e s = s" using snoc.prems [of e] by auto
  then have "server_start X F s s (entryP X F e)" using server_start.entry [of e s X F] by simp
  moreover have "csteps (server_start X F) (s, []) (s, enter X F es)" using snoc by simp
  ultimately show ?case using go by (simp add: enter_append)
qed

lemma schedule_run:
  assumes "\<And>e. e \<in> set es \<Longrightarrow> may_start e s \<and> taken e s = s" and "schedule is (s, enter X F es) = Some c"
  shows "csteps (server_start X F) (s, []) c"
  by (rule csteps_trans [OF schedule_csteps [OF assms(2)] enter_csteps [OF assms(1)]])

text \<open>What clients send.\<close>

definition says :: "'w ext \<Rightarrow> string \<Rightarrow> string \<Rightarrow> json \<Rightarrow> bool" where
  "says X payload cmd data \<longleftrightarrow> x_parse X payload = Some (JObj [(''cmd'', JStr cmd), (''data'', data)])"

lemma says_decoded:
  "says X m cmd data \<Longrightarrow> DispatchP X (InitGameRoutersP X F) a m Ret =
     (case map_of (InitGameRoutersP X F) cmd of
        Some handler \<Rightarrow> handler a \<lparr>req_Cmd = cmd, req_Data = Raw data\<rparr> Ret
      | None \<Rightarrow> sendP a (cmd @ ''_res'') CodeSendInvalid (MRouter UnknownCmd) JNull Ret)"
  by (simp add: says_def DispatchP_def dec_GameRequest_def dec_struct.simps dec_field_def dec_string.simps field_of_def dec_raw_def
      cong: option.case_cong)

lemma routed [simp]:
  "map_of (InitGameRoutersP X F) ''join_room'' = Some do_join_roomP"
  "map_of (InitGameRoutersP X F) ''leave_room'' = Some (do_leave_roomP X)"
  "map_of (InitGameRoutersP X F) ''create_room'' = Some (do_create_roomP X)"
  "map_of (InitGameRoutersP X F) ''select_pokemon'' = Some do_select_pokemonP"
  by (simp_all add: InitGameRoutersP_def)

lemma says_join: "says X m ''join_room'' (JObj [(''room_id'', JStr i)]) \<Longrightarrow> entryP X F (EMessage b m) = JoinRoomP i b Ret"
  by (simp add: says_decoded do_join_roomP_def dec_joinData_def unmarshal_raw_def dec_struct.simps
      dec_field_def dec_string.simps field_of_def)

lemma says_leave: "says X m ''leave_room'' JNull \<Longrightarrow> entryP X F (EMessage a m) =
   look (\<lambda>s. let roomID = sRoomID (sheap s a) in
     LeaveRoomP X roomID a (sendP a ''leave_room_res'' CodeSuccess (MRouter LeftRoom) JNull Ret))"
  by (simp add: says_decoded do_leave_roomP_def)

lemma says_create: "says X m ''create_room'' JNull \<Longrightarrow> entryP X F (EMessage a m) = CreateRoomP X a Ret"
  by (simp add: says_decoded do_create_roomP_def)

lemma says_select: "says X m ''select_pokemon'' j \<Longrightarrow> entryP X F (EMessage a m) = HandleSelectPokemonAndPersistP a (Raw j) Ret"
  by (simp add: says_decoded do_select_pokemonP_def)

section \<open>Joining a room that is being deleted\<close>

lemma join_meets_delete:
  assumes "map_of (Rooms s) i = Some r" "map_ok (Rooms s)" "rSessions (rheap s r) = [(pid s a, a)]" "rStatus (rheap s r) = RoomWaiting"
    "sRoomID (sheap s a) = i" "a \<noteq> b" "pid s b \<noteq> pid s a"
    "length (sSend (sheap s a)) < sendCap" "length (sSend (sheap s b)) < sendCap"
  shows "\<exists>t. schedule [0,0,0,0, 1,1,1, 0,0,0,0,0, 1,1,1,1,1,1,1, 0,0,0,0,0,0,0,0,0, 1,1,1,1,1,1]
      (s, [([], look (\<lambda>s. let roomID = sRoomID (sheap s a) in
         LeaveRoomP X roomID a (sendP a ''leave_room_res'' CodeSuccess (MRouter LeftRoom) JNull Ret))), ([], JoinRoomP i b Ret)])
      = Some (t, [([], Ret), ([], Ret)])
    \<and> map_of (Rooms t) i = None \<and> map_of (rSessions (rheap t r)) (pid t b) = Some b \<and> sRoomID (sheap t b) = i
    \<and> \<lparr>Cmd = ''join_room_res'', Code = CodeSuccess, Msg = MRoom Joined, Data = JNull\<rparr> \<in> set (sSend (sheap t b))"
  using assms
  by (simp add: run_simps LeaveRoomP_def JoinRoomP_def DeleteRoomP_def forgetRoomP_def MaxPlayersPerRoom_def)

section \<open>A game that starts too early\<close>

text \<open>The state of the race: player \<open>a\<close> has left room \<open>r\<close> or not, \<open>b\<close> is in it, \<open>c\<close> is on the way.\<close>

definition scene :: "string \<Rightarrow> nat \<Rightarrow> nat list \<Rightarrow> (nat \<times> bool) list \<Rightarrow> nat \<Rightarrow> 'w server \<Rightarrow> bool" where
  "scene i r ps rd n s \<longleftrightarrow> map_of (Rooms s) i = Some r \<and> i \<noteq> [] \<and> rStatus (rheap s r) = RoomWaiting
     \<and> rSessions (rheap s r) = List.map (\<lambda>a. (pid s a, a)) ps
     \<and> rReadyPlayers (rheap s r) = List.map (\<lambda>x. (pid s (fst x), snd x)) rd
     \<and> (\<forall>a \<in> set ps. sRoomID (sheap s a) = i) \<and> (\<forall>a \<in> fst ` set rd. length (sSend (sheap s a)) + n < sendCap)"

lemma leave_meets_select:
  assumes "scene i r [a, b] [(a, False), (b, False)] 10 s" "a \<noteq> b" "pid s a \<noteq> pid s b"
  shows "\<exists>t. schedule ([0,0,0,0,0,0,0,0,0,0] @ [1,1,1,1,1,1,1,1,1,1,1,1,1,1,1,1,1,1]
        @ [0,0,0,0,0,0,0,0,0,0])
      (s, [([], HandleSelectPokemonAndPersistP a (Raw (JObj [(''pokemon'', JArr [])])) Ret),
           ([], look (\<lambda>s. let roomID = sRoomID (sheap s a) in
              LeaveRoomP X roomID a (sendP a ''leave_room_res'' CodeSuccess (MRouter LeftRoom) JNull Ret))), ([], p), ([], q)])
      = Some (t, [([], Ret), ([], Ret), ([], p), ([], q)])
    \<and> scene i r [b] [(b, False), (a, True)] 5 t \<and> (\<forall>c. pid t c = pid s c)
    \<and> (\<forall>c. c \<noteq> a \<longrightarrow> c \<noteq> b \<longrightarrow> sheap t c = sheap s c)"
  using assms
  by (simp add: scene_def run_simps HandleSelectPokemonAndPersistP_def lookupP_def HandleSelectPokemonP_def LeaveRoomP_def
      dec_SelectPokemonRequest_def unmarshal_raw_def dec_struct.simps dec_field_def field_of_def
      allPlayersReady_def status_defs)

lemma join_after_leave:
  assumes "scene i r [b] [(b, False), (a, True)] 5 s" "distinct [a, b, c]" "distinct [pid s a, pid s b, pid s c]"
    "length (sSend (sheap s c)) + 5 < sendCap"
  shows "\<exists>t. schedule [2,2,2,2,2,2,2,2,2,2,2,2,2,2,2,2,2]
      (s, [([], Ret), ([], Ret), ([], JoinRoomP i c Ret), ([], q)]) = Some (t, [([], Ret), ([], Ret), ([], Ret), ([], q)])
    \<and> scene i r [b, c] [(b, False), (a, True), (c, False)] 3 t \<and> (\<forall>c. pid t c = pid s c)
    \<and> sSelectedPokemon (sheap t c) = sSelectedPokemon (sheap s c)"
  using assms
  by (simp add: scene_def run_simps JoinRoomP_def MaxPlayersPerRoom_def status_defs) metis

lemma select_starts_early:
  assumes "scene i r [b, c] [(b, False), (a, True), (c, False)] 3 s" "distinct [a, b, c]" "distinct [pid s a, pid s b, pid s c]"
  shows "\<exists>t H k. schedule [3,3,3,3,3,3,3,3,3,3,3,3,3,3,3,3,3,3,3,3,3,3,3,3,3,3,3,3,3,3,3,3,3,3,3]
      (s, [([], Ret), ([], Ret), ([], Ret), ([], HandleSelectPokemonAndPersistP b (Raw (JObj [(''pokemon'', JArr [])])) Ret)])
      = Some (t, [([], Ret), ([], Ret), ([], Ret), (H, k)])
    \<and> rStatus (rheap t r) = RoomPlaying \<and> map_of (rSessions (rheap t r)) (pid t c) = Some c
    \<and> map_of (rReadyPlayers (rheap t r)) (pid t c) = Some False
    \<and> sSelectedPokemon (sheap t c) = sSelectedPokemon (sheap s c)"
  using assms
  by (simp add: scene_def run_simps HandleSelectPokemonAndPersistP_def lookupP_def HandleSelectPokemonP_def
      dec_SelectPokemonRequest_def unmarshal_raw_def dec_struct.simps dec_field_def field_of_def
      allPlayersReady_def readyCount_def broadcastSummaryP_def buildBattleInitJSONP_def StartGameP_def status_defs) metis

section \<open>Connections\<close>

lemma close_meets_open:
  assumes "map_of (AllSessions s) u = Some a" "sConn (sheap s a) = Some c" "sRoomID (sheap s a) = []"
    "length (sSend (sheap s a)) < sendCap" "map_ok (AllSessions s)"
  shows "\<exists>t. schedule [0, 1,1,1,1,1,1,1,1,1, 0, 2,2,2,2,2,2]
      (s, [([], HandleWS_closeP a c (\<lambda>_. Ret)), ([], HandleWS_openP u c' (\<lambda>_. Ret)), ([], CleanUpIfStillOfflineP X u Ret)])
      = Some (t, [([], Ret), ([], Ret), ([], Ret)]) \<and> map_of (AllSessions t) u = None"
  using assms
  by (simp add: run_simps HandleWS_closeP_def HandleWS_openP_def FindSessionP_def FindSession_def closeOldP_def CleanUpIfStillOfflineP_def)

lemma close_meets_takeover:
  assumes "map_of (AllSessions s) u = Some a" "sConn (sheap s a) = Some c"
  shows "\<exists>t. schedule [0, 1,1,1,1,1, 0, 1]
      (s, [([], HandleWS_closeP a c (\<lambda>_. Ret)), ([], HandleWS_openP u c' (\<lambda>_. Ret))])
      = Some (t, [([], Ret), ([], Panic)])"
  using assms by (simp add: run_simps HandleWS_closeP_def HandleWS_openP_def FindSessionP_def FindSession_def closeOldP_def)

lemma open_meets_open:
  assumes "map_of (AllSessions s) u = None"
  shows "\<exists>t. schedule [0,0,0,0, 1,1,1,1,1,1,1, 0,0,0]
      (s, [([], HandleWS_openP u c (\<lambda>_. Ret)), ([], HandleWS_openP u c' (\<lambda>_. Ret))])
      = Some (t, [([], Ret), ([], Ret)])
    \<and> map_of (AllSessions t) u = Some (snext s)
    \<and> sConn (sheap t (Suc (snext s))) = Some c' \<and> pid t (Suc (snext s)) = u \<and> Suc (snext s) < snext t"
  using assms
  by (simp add: run_simps HandleWS_openP_def FindSessionP_def FindSession_def closeOldP_def RegisterSessionP_def RegisterSession_def
      addSession_def NewSession_def)

section \<open>A full channel\<close>

lemma create_parks_with_the_lock:
  assumes "length (sSend (sheap s a)) = sendCap" "freshRoomID X (Rooms s) (world s) = Some (i, w)"
  shows "\<exists>t. schedule [0,0,0,0,0,0,0] (s, [([], CreateRoomP X a Ret), ([], HandleWS_openP u c (\<lambda>_. Ret))])
     = Some (t, [([Writing RM], sendP a ''create_room_res'' CodeSuccess (MRoom RoomCreated) (JObj [(''room_id'', JStr i)]) (Release (Writing RM) Ret)),
         ([], HandleWS_openP u c (\<lambda>_. Ret))])
    \<and> length (sSend (sheap t a)) = sendCap"
  using assms by (simp add: run_simps CreateRoomP_def fileRoom_def)


end
