(* ===== verification/Races.thy ===== *)
theory Races
  imports Schedules
begin

text \<open>
  Runs of several goroutines that no run of whole handlers can produce: where the code takes a
  decision in one critical section and acts on it in another, or reads without the lock. Each is
  given by a schedule of theory \<open>Schedules\<close>.
\<close>

section \<open>What the races lead to\<close>

lemma schedule_trans: "schedule xs c = Some d \<Longrightarrow> schedule ys d = r \<Longrightarrow> schedule (xs @ ys) c = r"
  by (induction xs arbitrary: c) (auto split: option.splits)

lemma fine_member:
  assumes "fine_inv s" "map_of (Rooms s) i = Some r" "(p, a) \<in> set (rSessions (rheap s r))"
  shows "a < snext s"
proof -
  have t: "table_ok s (rheap s r)" using fine_invD(3,5) assms(1,2) by blast
  then have ok: "map_ok (rSessions (rheap s r))" by (simp add: table_ok_def)
  have "map_of (rSessions (rheap s r)) p = Some a" using assms(3) by (simp add: map_of_in_set [OF ok])
  then show ?thesis using t by (simp add: table_ok_def)
qed

lemma schedule_run_ex:
  assumes "\<And>e. e \<in> set es \<Longrightarrow> may_start e s \<and> taken e s = s"
    and "\<exists>t. schedule is (s, enter X F es) = Some (t, ts) \<and> P t"
  shows "\<exists>t. csteps (server_start X F) (s, []) (t, ts) \<and> P t"
  using assms(2) schedule_run [OF assms(1)] by blast


text \<open>C18: A game can start although one of its players has not chosen a team: \<open>a\<close> chooses over one connection
  and leaves over another, so that its ready flag is set after it has left; then \<open>c\<close> joins, \<open>b\<close>
  chooses, two flags are set and two players are there, and the room goes to playing while \<open>c\<close>'s flag
  is false and its team is what it was.\<close>

theorem game_starts_unready:
  assumes "fine_inv s" "scene i r [a, b] [(a, False), (b, False)] 10 s" "distinct [a, b, c]" "distinct [pid s a, pid s b, pid s c]"
    "c < snext s" "length (sSend (sheap s c)) + 10 < sendCap"
    "says X m ''select_pokemon'' (JObj [(''pokemon'', JArr [])])" "says X l ''leave_room'' JNull"
    "says X n ''join_room'' (JObj [(''room_id'', JStr i)])"
  shows "\<exists>t ts. csteps (server_start X F) (s, []) (t, ts) \<and> rStatus (rheap t r) = RoomPlaying
    \<and> map_of (rSessions (rheap t r)) (pid t c) = Some c \<and> map_of (rReadyPlayers (rheap t r)) (pid t c) = Some False
    \<and> sSelectedPokemon (sheap t c) = sSelectedPokemon (sheap s c)"
proof -
  have mem: "rSessions (rheap s r) = [(pid s a, a), (pid s b, b)]" "map_of (Rooms s) i = Some r"
    using assms(2) by (simp_all add: scene_def)
  have ab: "a < snext s" "b < snext s"
    by (rule fine_member [OF assms(1) mem(2), of "pid s a"], simp add: mem)
      (rule fine_member [OF assms(1) mem(2), of "pid s b"], simp add: mem)
  let ?sel = "\<lambda>a. HandleSelectPokemonAndPersistP a (Raw (JObj [(''pokemon'', JArr [])])) Ret"
  let ?leave = "look (\<lambda>s. let roomID = sRoomID (sheap s a) in
     LeaveRoomP X roomID a (sendP a ''leave_room_res'' CodeSuccess (MRouter LeftRoom) JNull Ret))"
  obtain t1 where t1: "schedule ([0,0,0,0,0,0,0,0,0,0] @ [1,1,1,1,1,1,1,1,1,1,1,1,1,1,1,1,1,1]
        @ [0,0,0,0,0,0,0,0,0,0]) (s, [([], ?sel a), ([], ?leave), ([], JoinRoomP i c Ret), ([], ?sel b)])
      = Some (t1, [([], Ret), ([], Ret), ([], JoinRoomP i c Ret), ([], ?sel b)])"
    "scene i r [b] [(b, False), (a, True)] 5 t1" "\<And>c. pid t1 c = pid s c"
    "\<And>c. c \<noteq> a \<Longrightarrow> c \<noteq> b \<Longrightarrow> sheap t1 c = sheap s c"
    using leave_meets_select [OF assms(2), of X "JoinRoomP i c Ret" "?sel b"] assms(3,4) by auto
  have c1: "sheap t1 c = sheap s c" using t1(4) assms(3) by simp
  obtain t2 where t2: "schedule [2,2,2,2,2,2,2,2,2,2,2,2,2,2,2,2,2] (t1, [([], Ret), ([], Ret), ([], JoinRoomP i c Ret), ([], ?sel b)])
      = Some (t2, [([], Ret), ([], Ret), ([], Ret), ([], ?sel b)])"
    "scene i r [b, c] [(b, False), (a, True), (c, False)] 3 t2" "\<And>c. pid t2 c = pid t1 c"
    "sSelectedPokemon (sheap t2 c) = sSelectedPokemon (sheap t1 c)"
    using join_after_leave [OF t1(2) assms(3), of "?sel b"] assms(4,6) c1 by (auto simp: t1(3))
  obtain t3 H k where t3: "schedule [3,3,3,3,3,3,3,3,3,3,3,3,3,3,3,3,3,3,3,3,3,3,3,3,3,3,3,3,3,3,3,3,3,3,3] (t2, [([], Ret), ([], Ret), ([], Ret), ([], ?sel b)])
      = Some (t3, [([], Ret), ([], Ret), ([], Ret), (H, k)])"
    "rStatus (rheap t3 r) = RoomPlaying" "map_of (rSessions (rheap t3 r)) (pid t3 c) = Some c"
    "map_of (rReadyPlayers (rheap t3 r)) (pid t3 c) = Some False" "sSelectedPokemon (sheap t3 c) = sSelectedPokemon (sheap t2 c)"
    using select_starts_early [OF t2(2) assms(3)] assms(4) by (auto simp: t2(3) t1(3))
  have "schedule (([0,0,0,0,0,0,0,0,0,0] @ [1,1,1,1,1,1,1,1,1,1,1,1,1,1,1,1,1,1]
        @ [0,0,0,0,0,0,0,0,0,0]) @ [2,2,2,2,2,2,2,2,2,2,2,2,2,2,2,2,2] @ [3,3,3,3,3,3,3,3,3,3,3,3,3,3,3,3,3,3,3,3,3,3,3,3,3,3,3,3,3,3,3,3,3,3,3]) (s, enter X F [EMessage a m, EMessage a l, EMessage c n, EMessage b m])
      = Some (t3, [([], Ret), ([], Ret), ([], Ret), (H, k)])"
    unfolding enter.simps says_select [OF assms(7)] says_leave [OF assms(8)] says_join [OF assms(9)]
    by (rule schedule_trans [OF t1(1) schedule_trans [OF t2(1) t3(1)]])
  then have "csteps (server_start X F) (s, []) (t3, [([], Ret), ([], Ret), ([], Ret), (H, k)])"
    by (rule schedule_run [rotated]) (use ab assms(5) in \<open>auto simp: taken_def\<close>)
  then show ?thesis using t3 t2(4) c1 by auto
qed


text \<open>Two connections that open for the same new player make two sessions, of which one is registered.\<close>

lemma same_player_twice:
  assumes "map_of (AllSessions s) u = None" "u \<noteq> []"
  shows "\<exists>t. csteps (server_start X F) (s, []) (t, [([], Ret), ([], Ret)])
    \<and> map_of (AllSessions t) u = Some (snext s)
    \<and> sConn (sheap t (Suc (snext s))) = Some c' \<and> pid t (Suc (snext s)) = u \<and> Suc (snext s) < snext t"
proof (rule schedule_run_ex [where es = "[EOpen u c, EOpen u c']"])
  show "may_start e s \<and> taken e s = s" if "e \<in> set [EOpen u c, EOpen u c']" for e using that assms(2) by (auto simp: taken_def)
qed (unfold enter.simps entryP.simps, rule open_meets_open [OF assms(1)])

text \<open>C8: One client that does not read can stop the whole server: if the channel of session \<open>a\<close> is full and \<open>a\<close>
  asks for a room, there is a run in which its handler waits for the channel while it holds \<open>rm.mu\<close>, so
  that a client that connects, whoever it is, waits for \<open>rm.mu\<close>, and neither of the two can move.\<close>

theorem full_channel_stops_server:
  assumes "a < snext s" "length (sSend (sheap s a)) = 256" "freshRoomID X (Rooms s) (world s) \<noteq> None"
    "says X m ''create_room'' JNull" "u \<noteq> []"
  shows "\<exists>t p q. csteps (server_start X F) (s, []) (t, [([Writing RM], p), ([], q)]) \<and> q = HandleWS_openP u c (\<lambda>_. Ret)
    \<and> parked t p \<and> (\<forall>j d. \<not> moves j (t, [([Writing RM], p), ([], q)]) d)"
proof -
  obtain i w where f: "freshRoomID X (Rooms s) (world s) = Some (i, w)" using assms(3) by auto
  let ?p = "sendP a ''create_room_res'' CodeSuccess (MRoom RoomCreated) (JObj [(''room_id'', JStr i)]) (Release (Writing RM) Ret)"
  let ?q = "HandleWS_openP u c (\<lambda>_. Ret)"
  obtain t where t: "schedule [0,0,0,0,0,0,0] (s, [([], CreateRoomP X a Ret), ([], ?q)]) = Some (t, [([Writing RM], ?p), ([], ?q)])"
    "length (sSend (sheap t a)) = sendCap"
    using create_parks_with_the_lock [OF assms(2) [folded sendCap_def] f] by blast
  have "csteps (server_start X F) (s, []) (t, [([Writing RM], ?p), ([], ?q)])"
  proof (rule schedule_run [where es = "[EMessage a m, EOpen u c]"])
    show "may_start e s \<and> taken e s = s" if "e \<in> set [EMessage a m, EOpen u c]" for e using that assms(1,5) by (auto simp: taken_def)
  qed (unfold enter.simps says_create [OF assms(4)] entryP.simps(1), rule t(1))
  moreover have "\<not> moves j (t, [([Writing RM], ?p), ([], ?q)]) d" for j d
  proof
    assume "moves j (t, [([Writing RM], ?p), ([], ?q)]) d"
    then show False
      by cases (use t(2) in \<open>auto simp: less_Suc_eq sendP_def HandleWS_openP_def FindSessionP_def\<close>)
  qed
  moreover have "parked t ?p" using t(2) by (simp add: parked_def sendP_def)
  ultimately show ?thesis by blast
qed

end
