(* ===== verification/EngineRaces.thy ===== *)
theory EngineRaces
  imports Solo Races Reassign EngineFrame
begin

text \<open>
  Races between the engine's goroutines: two turns of reconnect loops, one of which deletes the node
  that the other one is using.
\<close>

section \<open>A turn that fails for the second time\<close>

lemma more_rooms:
  fixes s t :: "'w server"
  shows "net.more t = net.more s \<Longrightarrow> rheap t = rheap s \<and> rmStore t = rmStore s"
  by (cases s; cases t; simp)

lemma failing_turn:
  assumes wf: "engine_wf s" and b: "getNode s j = Some b" "reconnectFailures (nheap s b) = 1"
    and d: "\<not> ctxDone (eng s)" "x_dial X addr (world s) = (Inl e, w)"
  obtains t where "solo [] (attemptReconnectP X (reassignP X) (j, addr, bo) Ret) s [] Ret t" "getNode t j = None"
    "nclient (nheap t b) = None" "\<forall>q. rStatus (rheap t q) = rStatus (rheap s q) \<and> rID (rheap t q) = rID (rheap s q)"
    "rmStore t = rmStore s" "eng t = (eng s)\<lparr>nodes := AList.delete j (nodes (eng s))\<rparr>"
    "map_of (Nodes (Mgr t)) j = None"
proof -
  define s1 where "s1 = upd_node b (incrementReconnectFailures (x_now X w)) (s\<lparr>world := w\<rparr>)"
  have wf1: "engine_wf s1" using wf by (simp add: s1_def engine_wf_upd_node)
  have two: "reconnectFailures (nheap s1 b) = 2" using b by (simp add: s1_def incrementReconnectFailures_def)
  obtain u where u: "reassignFunc X s1 = Done () u" "same_stage s1 u"
    using reassignFunc_returns [OF wf1, of X] same_stage_reassignFunc [of s1 X] by (auto simp: returns_iff)
  obtain s2 where s2: "triggerReassignRooms (reassignFunc X) s1 = Done () s2" "same_stage s1 s2"
    using u by (cases "reassignSet (eng s1)") (auto simp: triggerReassignRooms_def)
  let ?t = "startLoop (j, addr, nextBackoff bo) (deleteNode X j s2)"
  have rec: "recordReconnectFailure X (reassignFunc X) j (s\<lparr>world := w\<rparr>) = Done () (deleteNode X j s2)"
    using b two s2(1) by (simp add: recordReconnectFailure_def Let_def s1_def)
  then have step: "attemptReconnectStep X (reassignFunc X) (j, addr, bo) s = Done (Some (j, addr, nextBackoff bo)) (deleteNode X j s2)"
    using d by (simp add: attemptReconnectStep_def connectAndRegisterPod_def)
  have "seq (attemptReconnectP X (reassignP X) (j, addr, bo) Ret) s = Done () ?t"
    by (simp add: lone.seq_attemptP step)
  moreover have "disciplined lock_rank (attemptReconnectP X (reassignP X) (j, addr, bo) Ret) []"
    using tidy_entryP [of X undefined "EReconnect (j, addr, bo)"] by simp
  ultimately have "solo [] (attemptReconnectP X (reassignP X) (j, addr, bo) Ret) s [] Ret ?t" by (intro solo_seq(1))
  moreover have e: "same_engine s2 s1" using s2(2) by (simp add: same_stage_def)
  have wf2: "engine_wf s2" using wf1 engine_wf_same [OF e] by simp
  have b2: "getNode s2 j = Some b" using e b by (simp add: same_engine_def getNode_def s1_def)
  have gone: "getNode (deleteNode X j s2) j = None" "nclient (nheap (deleteNode X j s2) b) = None"
    using deleteNode_gone [OF engine_wf_ok [OF wf2]] deleteNode_closes [OF b2] by simp_all
  have "map_of (Nodes (Mgr (deleteNode X j s2))) j = None"
    using engine_wf_mirror [OF engine_wf_delete [OF wf2], of X j j] gone(1) by simp
  moreover have "eng (deleteNode X j s2) = (eng s)\<lparr>nodes := AList.delete j (nodes (eng s))\<rparr>"
    using b2 e by (simp add: deleteNode_def Let_def closeConn_def same_engine_def s1_def split: option.split)
  moreover have "rheap (deleteNode X j s2) = rheap s2 \<and> rmStore (deleteNode X j s2) = rmStore s2"
    using more_delete [of X j s2] by (rule more_rooms)
  ultimately show thesis
    using that [of ?t] gone s2(2) by (simp add: startLoop_def same_stage_def s1_def getNode_def upd_node_def)
qed


section \<open>How far a turn gets by itself\<close>

lemma solo_callP:
  "f s = Some (res, w) \<Longrightarrow> solo H (k res) (s\<lparr>world := w\<rparr>) H' q t \<Longrightarrow> solo H (callP f k) s H' q t"
  "f s = None \<Longrightarrow> solo H (callP f k) s H Panic s"
  unfolding callP_def by (rule solo_act; simp add: solo_here)+

lemma solo_reads:
  "solo [] (k (f (eng s))) s H' q t \<Longrightarrow> solo [] (readEngine f k) s H' q t"
  "solo [] (l (g (nheap s a))) s H' q t \<Longrightarrow> solo [] (readNode a g l) s H' q t"
  "solo [] (m (snd (h (world s) (nheap s a)))) (upd_node a (\<lambda>n. fst (h (world s) n)) s) H' q t \<Longrightarrow> solo [] (writeNode a h m) s H' q t"
  by (auto simp: readEngine_def readNode_def writeNode_def intro!: solo.intros solo_look)

lemma solo_lookups:
  "solo [] (k (getNode s i)) s H' q t \<Longrightarrow> solo [] (getNodeP i k) s H' q t"
  "solo [] (d (GetNodeByPodIndex s i)) s H' q t \<Longrightarrow> solo [] (GetNodeByPodIndexP i d) s H' q t"
  "solo [] (m (nclient (nheap s a))) s H' q t \<Longrightarrow> solo [] (GetClientP a m) s H' q t"
  by (auto simp: getNodeP_def getNode_def GetNodeByPodIndexP_def GetNodeByPodIndex_def GetClientP_def intro!: solo_reads split: option.splits)

lemma solo_statusesP:
  "solo [] (k (acc @ filter (\<lambda>st. st_Healthy st \<or> st_ActiveRooms st \<noteq> 0)
     (List.map_filter (\<lambda>i. map_option (\<lambda>a. snapshot (nheap s a)) (getNode s i)) is))) s H' q t
   \<Longrightarrow> solo [] (statusesP is acc k) s H' q t"
  by (induction "is" arbitrary: acc)
    (auto simp: map_filter_simps snapshotP_def intro!: solo_lookups(1) solo_reads(2) split: option.splits if_splits)

lemma solo_GetStatusP:
  assumes "solo [] (k (GetStatus s)) s H' q t" shows "solo [] (GetStatusP k) s H' q t"
  unfolding GetStatusP_def snapshotPodIndicesP_def
  by (rule solo_reads(1), rule solo_reads(1), rule solo_statusesP)
    (use assms in \<open>simp add: GetStatus_def snapshotPodIndices_def Let_def\<close>)

lemma solo_pick:
  assumes "solo [] (k (pickHealthyNodeForRoom i ex s)) s H' q t"
  shows "solo [] (pickHealthyNodeForRoomP i ex k) s H' q t"
  using assms by (auto simp: pickHealthyNodeForRoomP_def pickHealthyNodeForRoom_def Let_def
      intro!: solo_look solo_GetStatusP solo_lookups split: if_splits)

lemma solo_targetRoomsP:
  "targetRooms X st rs acc s = (ts, s') \<Longrightarrow> solo [Reading RM] (k ts) s' H' q t \<Longrightarrow>
   solo [Reading RM] (targetRoomsP X st rs acc k) s H' q t"
proof (induction rs arbitrary: acc s)
  case (Cons r rs)
  obtain b w where m: "mustMove X (rmStore s) st (rheap s r) (world s) = (b, w)" by (rule prod.exhaust)
  then show ?case using Cons.IH [of "if b then acc @ [r] else acc" "s\<lparr>world := w\<rparr>"] Cons.prems
    by (auto simp: Let_def intro!: solo_acquire solo_look solo_release solo_callP(1))
qed simp

lemma targetRooms_acc: "fst (targetRooms X st rs acc s) = acc @ fst (targetRooms X st rs [] s)"
proof (induction rs arbitrary: acc s)
  case (Cons r rs)
  obtain b w where m: "mustMove X (rmStore s) st (rheap s r) (world s) = (b, w)" by (rule prod.exhaust)
  show ?case using Cons.IH [of "acc @ [r]" "s\<lparr>world := w\<rparr>"] Cons.IH [of acc "s\<lparr>world := w\<rparr>"] Cons.IH [of "[r]" "s\<lparr>world := w\<rparr>"] m by simp
qed simp

text \<open>A turn that moves a room to a node that is gone by then.\<close>

lemma move_to_a_gone_node:
  assumes "rStatus (rheap t r) = RoomPlaying" "rmStore t" "nclient (nheap t b) = None"
    and "LoadRoomSnapshot X (rID (rheap t r)) (world t) = (Inr snap, w)"
  shows "solo [] (moveRoomP X r b k) t [] Panic (t\<lparr>world := w\<rparr>)"
  unfolding moveRoomP_def Let_def using assms
  by (auto intro!: solo_acquire solo_release solo_look solo_callP(1) [where w = w and res = "Inr snap"] solo_lookups(3) solo_callP(2))

text \<open>The failover, up to where it has chosen a node for its first room.\<close>

lemma targetRooms_world: "\<exists>w. snd (targetRooms X st rs acc s) = s\<lparr>world := w\<rparr>"
proof (induction rs arbitrary: acc s)
  case Nil
  show ?case by (rule exI [of _ "world s"]) simp
next
  case (Cons q rs)
  obtain m y where "mustMove X (rmStore s) st (rheap s q) (world s) = (m, y)" by (rule prod.exhaust)
  then show ?case using Cons.IH [of "if m then acc @ [q] else acc" "s\<lparr>world := y\<rparr>"] by simp
qed

lemma failover_chooses:
  assumes h: "rmEngine s" "healthyPods (GetStatus s) = [j]" "getNode s j = Some b"
    and r: "Rooms s = (rid, r) # rest" "rNodeID (rheap s r) \<noteq> j"
  obtains w k' where "solo [] (ReassignRunningRoomsP X k) s [] (moveRoomP X r b k') (s\<lparr>world := w\<rparr>)"
proof -
  obtain ts v where ts: "targetRooms X (GetStatus s) (List.map snd (Rooms s)) [] s = (ts, v)" by (rule prod.exhaust)
  then obtain w where v: "v = s\<lparr>world := w\<rparr>" using targetRooms_world [of X "GetStatus s" "List.map snd (Rooms s)" "[]" s] by auto
  have "mustMove X (rmStore s) (GetStatus s) (rheap s r) (world s) = (True, world s)"
    using h(2) r(2) by (simp add: mustMove_def)
  then have "ts = r # fst (targetRooms X (GetStatus s) (List.map snd rest) [] s)"
    using targetRooms_acc [of X "GetStatus s" "List.map snd rest" "[r]" s] r(1) ts by simp
  then obtain ts' where ts': "ts = r # ts'" by blast
  have one: "st_PodIndex x = j" if "x \<in> set (es_Nodes (GetStatus s))" "st_Healthy x" for x
  proof -
    have "st_PodIndex x \<in> set (healthyPods (GetStatus s))" using that by (auto simp: healthyPods_def)
    then show ?thesis using h(2) by simp
  qed
  have "filter (\<lambda>node. \<not> (\<not> st_Healthy node \<or> st_PodIndex node = rNodeID (rheap s r))) (es_Nodes (GetStatus s))
      = filter st_Healthy (es_Nodes (GetStatus s))"
    using one r(2) by (intro filter_cong) auto
  moreover have "GetStatus v = GetStatus s" by (simp add: v GetStatus_def snapshotPodIndices_def Let_def)
  ultimately have "pickHealthyNodeForRoom (rID (rheap v r)) (rNodeID (rheap v r)) v = Inr b"
    using h by (simp add: v pickHealthyNodeForRoom_def healthyPods_def Let_def GetNodeByPodIndex_def getNode_def chooseByHash_def)
  then have pick: "solo [] (reassignRoomP X r m) v [] (moveRoomP X r b m) v" for m
    unfolding reassignRoomP_def Let_def by (auto intro!: solo_acquire solo_release solo_look solo_pick solo_here)
  have "\<exists>k'. solo [] (ReassignRunningRoomsP X k) s [] (moveRoomP X r b k') v"
    unfolding ReassignRunningRoomsP_def
    by (rule exI, rule solo_look, simp add: h(1), rule solo_GetStatusP, simp add: h(2), rule solo_acquire, simp,
      rule solo_look, rule solo_targetRoomsP [OF ts], rule solo_release, simp add: ts', rule pick)
  then show thesis using that v by blast
qed

text \<open>A turn of a reconnect loop that fails for the second time, up to the failover.\<close>

lemma failing_turn_starts_failover:
  assumes "getNode s i = Some a" "reconnectFailures (nheap s a) = 1" "\<not> ctxDone (eng s)" "reassignSet (eng s)"
    and "x_dial X addr (world s) = (Inl e, w)"
  obtains k where "solo [] (attemptReconnectP X (reassignP X) (i, addr, bo) Ret) s
    [] (ReassignRunningRoomsP X k) (upd_node a (incrementReconnectFailures (x_now X w)) (s\<lparr>world := w\<rparr>))"
proof -
  have two: "reconnectFailures (incrementReconnectFailures t (nheap s a)) = 2" for t
    using assms(2) by (simp add: incrementReconnectFailures_def)
  have "\<exists>k. solo [] (attemptReconnectP X (reassignP X) (i, addr, bo) Ret) s
    [] (ReassignRunningRoomsP X k) (upd_node a (incrementReconnectFailures (x_now X w)) (s\<lparr>world := w\<rparr>))"
    unfolding attemptReconnectP_def prod.case connectAndRegisterPodP_def recordReconnectFailureP_def
      reassignP_def triggerReassignRoomsP_def getReconnectFailuresP_def
    by (rule exI, rule solo_look, simp add: assms(3), rule solo_callP(1), simp add: assms(5), simp, rule solo_lookups(1),
      simp add: assms(1), rule solo_reads(3), rule solo_reads(2), simp add: two Let_def, rule solo_reads(1),
      simp add: assms(4), rule solo_here)
  then show thesis using that by blast
qed

text \<open>Both together.\<close>

lemma failing_turn_chooses:
  assumes wf: "engine_wf s" and a: "getNode s i = Some a" "reconnectFailures (nheap s a) = 1"
    and d: "\<not> ctxDone (eng s)" "reassignSet (eng s)" "x_dial X addr (world s) = (Inl e, w)"
    and h: "rmEngine s" "healthyPods (GetStatus s) = [j]" "getNode s j = Some b"
    and r: "Rooms s = (rid, r) # rest" "rNodeID (rheap s r) \<noteq> j"
  obtains u y k where "solo [] (attemptReconnectP X (reassignP X) (i, addr, bo) Ret) s [] (moveRoomP X r b k) (u\<lparr>world := y\<rparr>)"
    "engine_wf u" "getNode u = getNode s" "eng u = eng s" "rheap u = rheap s" "rmStore u = rmStore s"
    "\<And>c. c \<noteq> a \<Longrightarrow> nheap u c = nheap s c"
proof -
  define u where "u = upd_node a (incrementReconnectFailures (x_now X w)) (s\<lparr>world := w\<rparr>)"
  obtain k where k: "solo [] (attemptReconnectP X (reassignP X) (i, addr, bo) Ret) s [] (ReassignRunningRoomsP X k) u"
    using failing_turn_starts_failover [OF a d] unfolding u_def by metis
  have snap: "snapshot (nheap u c) = snapshot (nheap s c)" for c
    by (simp add: u_def snapshot_def incrementReconnectFailures_def)
  have u: "engine_wf u" "getNode u = getNode s" "eng u = eng s" "rheap u = rheap s" "Rooms u = Rooms s" "rmEngine u = rmEngine s"
    "rmStore u = rmStore s"
    using wf engine_wf_upd_node [of "incrementReconnectFailures (x_now X w)" a "s\<lparr>world := w\<rparr>"]
    by (simp_all add: u_def) (simp_all add: fun_eq_iff upd_node_def getNode_def)
  have "GetStatus u = GetStatus s" by (simp add: GetStatus_def snapshotPodIndices_def u snap Let_def)
  then obtain y k' where y: "solo [] (ReassignRunningRoomsP X k) u [] (moveRoomP X r b k') (u\<lparr>world := y\<rparr>)"
    using failover_chooses [of u j b rid r rest X k] h r u by metis
  show thesis by (rule that [OF solo_trans [OF k y] u(1-4) u(7)]) (simp add: u_def)
qed

section \<open>The races\<close>

lemma outside_world: "csteps (server_start X F) c (s, ts) \<Longrightarrow> csteps (server_start X F) c (s\<lparr>world := w\<rparr>, ts @ [([], Ret)])"
  using go server_start.outside by metis

lemma reconnect_starts:
  assumes "csteps (server_start X F) c (s, ts)" "l \<in> set (loops s)"
  shows "csteps (server_start X F) c (s\<lparr>loops := remove1 l (loops s)\<rparr>, ts @ [([], attemptReconnectP X (reassignP X) l Ret)])"
  using go [OF assms(1) server_start.entry [of "EReconnect l" s X F]] assms(2) by (simp add: taken_def)

lemma two_reconnect_loops:
  assumes "l \<in> set (loops s)" "l' \<in> set (remove1 l (loops s))"
  shows "csteps (server_start X F) (s, []) (s\<lparr>world := w, loops := remove1 l' (remove1 l (loops s))\<rparr>,
    [([], Ret), ([], attemptReconnectP X (reassignP X) l Ret), ([], attemptReconnectP X (reassignP X) l' Ret)])"
proof -
  have "csteps (server_start X F) (s, []) (s\<lparr>world := w\<rparr>, [] @ [([], Ret)])" by (rule outside_world [OF idle])
  from reconnect_starts [OF this, of l] assms(1)
  have "csteps (server_start X F) (s, []) (s\<lparr>world := w, loops := remove1 l (loops s)\<rparr>,
    [([], Ret), ([], attemptReconnectP X (reassignP X) l Ret)])" by simp
  from reconnect_starts [OF this, of l'] assms(2) show ?thesis by simp
qed

lemma solo_step:
  assumes "csteps (server_start X F) c (s, ts)" "solo [] p s [] q t" "i < length ts" "ts ! i = ([], p)"
    and "\<forall>x \<in> set ts. fst x = []"
  shows "csteps (server_start X F) c (t, ts[i := ([], q)])"
  by (rule csteps_trans [OF solo_csteps [OF assms(2-4)] assms(1)]) (use assms(5) in auto)


text \<open>C21: A deleted node can stay behind. If one reconnect loop of a pod has connected and another one fails for
  the second time before the first has stored the connection, there is a run in which both turns end, the
  node table has no node for the pod, but the pod is in the hash ring and its old node holds the open
  connection, which nothing closes any more, as \<open>Shutdown\<close> goes over the table: the two tables agree only if
  the engine's operations run as a whole (\<open>reachable_engine\<close>).\<close>

theorem deletion_races_with_reconnection:
  assumes "engine_wf s" "\<not> ctxDone (eng s)" "getNode s i = Some a" "reconnectFailures (nheap s a) = 1"
    and "(i, addr, bo) \<in> set (loops s)" "(i, addr', bo') \<in> set (remove1 (i, addr, bo) (loops s))"
    and "fst (x_dial X addr w1) = Inr c" "fst (x_dial X addr' w2) = Inl e"
  shows "\<exists>t. csteps (server_start X F) (s, []) (t, [([], Ret), ([], Ret), ([], Ret), ([], Ret)]) \<and> getNode t i = None
    \<and> map_of (Nodes (Mgr t)) i = Some \<lparr>node_ID = i, node_Addr = addr, node_Client = c\<rparr> \<and> nconn (nheap t a) = Some c"
proof -
  let ?P = "\<lambda>l. attemptReconnectP X (reassignP X) l Ret"
  let ?fin = "resetReconnectFailuresP i (resetReconnectFailuresP i (endLoopP i Ret))"
  let ?store = "writeNode a (\<lambda>w. replaceConnection addr c c (x_now X w)) (\<lambda>oldConn.
        registerP (RegisterNode i addr c) (upd (closeClient X oldConn) ?fin))"
  obtain v1 v2 where w: "x_dial X addr w1 = (Inr c, v1)" "x_dial X addr' w2 = (Inl e, v2)"
    using assms(7,8) by (metis prod.collapse)
  define s1 where "s1 = s\<lparr>world := w1, loops := remove1 (i, addr', bo') (remove1 (i, addr, bo) (loops s))\<rparr>"
  have run1: "csteps (server_start X F) (s, []) (s1, [([], Ret), ([], ?P (i, addr, bo)), ([], ?P (i, addr', bo'))])"
    unfolding s1_def by (rule two_reconnect_loops [OF assms(5,6)])
  have e: "ensureNode i (s1\<lparr>world := v1\<rparr>) = (a, s1\<lparr>world := v1\<rparr>)" using assms(3) by (simp add: s1_def ensureNode_def)
  have "solo [] (?P (i, addr, bo)) s1 [] ?store (s1\<lparr>world := v1\<rparr>)"
    unfolding attemptReconnectP_def prod.case connectAndRegisterPodP_def ensureNodeP_def
    by (rule solo_look, simp add: s1_def assms(2), rule solo_callP(1), simp add: w(1), simp, rule solo_acquire, simp,
      rule solo_act, simp, rule solo_release, simp add: e [unfolded s1_def, simplified], rule solo_here)
  from solo_step [OF run1 this, of 1]
  have "csteps (server_start X F) (s, []) (s1\<lparr>world := v1\<rparr>, [([], Ret), ([], ?store), ([], ?P (i, addr', bo'))])" by simp
  from outside_world [OF this, of w2]
  have run2: "csteps (server_start X F) (s, []) (s1\<lparr>world := w2\<rparr>, [([], Ret), ([], ?store), ([], ?P (i, addr', bo')), ([], Ret)])" by simp
  have s1: "engine_wf (s1\<lparr>world := w2\<rparr>)" "getNode (s1\<lparr>world := w2\<rparr>) i = Some a" "reconnectFailures (nheap (s1\<lparr>world := w2\<rparr>) a) = 1"
    "\<not> ctxDone (eng (s1\<lparr>world := w2\<rparr>))" "x_dial X addr' (world (s1\<lparr>world := w2\<rparr>)) = (Inl e, v2)"
    using assms w(2) by (simp_all add: s1_def engine_wf_cong [of "s\<lparr>world := w1, loops := l\<rparr>" s for l])
  obtain t where t: "solo [] (?P (i, addr', bo')) (s1\<lparr>world := w2\<rparr>) [] Ret t" "getNode t i = None" "nclient (nheap t a) = None"
    using failing_turn [OF s1] by metis
  have run3: "csteps (server_start X F) (s, []) (t, [([], Ret), ([], ?store), ([], Ret), ([], Ret)])"
    using solo_step [OF run2 t(1), of 2] by simp
  define u where "u = closeClient X (nconn (nheap t a)) ((upd_node a (\<lambda>n. fst (replaceConnection addr c c (x_now X (world t)) n)) t)
    \<lparr>Mgr := RegisterNode i addr c (Mgr t)\<rparr>)"
  have "getNode u i = None" using t(2) by (simp add: u_def)
  then have "solo [] ?fin u [] Ret u"
    unfolding resetReconnectFailuresP_def endLoopP_def by (auto intro!: solo_lookups(1) solo_here)
  then have "solo [] ?store t [] Ret u"
    unfolding registerP_def
    by (intro solo_reads(3) solo_acquire solo_upd solo_release) (simp_all add: u_def replaceConnection_def)
  from solo_step [OF run3 this, of 1]
  have "csteps (server_start X F) (s, []) (u, [([], Ret), ([], Ret), ([], Ret), ([], Ret)])" by simp
  moreover have "map_of (Nodes (Mgr u)) i = Some \<lparr>node_ID = i, node_Addr = addr, node_Client = c\<rparr>" "nconn (nheap u a) = Some c"
    by (simp_all add: u_def Register_Nodes replaceConnection_def)
  ultimately show ?thesis using \<open>getNode u i = None\<close> by blast
qed
end
