(* ===== verification/Concurrency.thy ===== *)
theory Concurrency
  imports Sound Deadlock ServerProps
begin

text \<open>
  The server with all its goroutines, at the granularity of the locks: what holds in every
  interleaving, and that the locks do not deadlock.
\<close>

section \<open>Invariants\<close>

lemma fine_inv_start:
  assumes "fine_inv s" shows "Inv rules (s, {..<rnext s})" "Res rules l (s, {..<rnext s})"
  using assms fine_invD(3) [OF assms] by (auto simp: rules_def occupied_def all_seated_def)

lemma interleaved_inv:
  assumes run: "csteps (server_start X F) (s, []) (t, ts)" and I: "fine_inv s"
  shows "fine_inv t \<and> evolves s t"
  using srv.csteps_invariant [OF run, of "(s, {..<rnext s})"] fine_inv_start [OF I] by (auto simp: rules_def)

text \<open>What start-up establishes, and every state of the atomic model with a bounded queue has.\<close>

lemma server_wf_fine_inv:
  assumes "server_wf s" "at_most_two s" "length (MatchQueue s) \<le> MatchQueueSize" "engine_wf s"
  shows "fine_inv s"
proof -
  have "table_ok s (rheap s r)" if "r < rnext s" for r
    using server_wfD(5) [OF assms(1) that] assms(2) that by (auto simp: table_ok_def room_ok_def at_most_two_def)
  then have "tables_inv s" using assms(1,3) unfolding tables_inv_def server_wf_def by blast
  moreover have "engine_ok s"
    using engine_wf_ok [OF assms(4)] engine_wf_ring [OF assms(4)] engine_wf_node [OF assms(4)]
    by (auto simp: engine_ok_def getNode_def node_ok_def)
  ultimately show ?thesis by (simp add: fine_inv_def)
qed

lemma started_fine_inv:
  assumes "Mgr n = Mgr_init" "restorable X (world (NewEngineInstance X n))"
  shows "fine_inv (srv (startServer X ttl n))"
proof -
  have "all_inv 0 (srv (startServer X ttl n))" using start_sys_ok [OF assms] by (simp add: sys_ok_def)
  moreover have "MatchQueue (srv (startServer X ttl n)) = []"
    by (simp add: startServer_def Let_def SetReassignRoomsFunc_def initRoomManager_def RestoreFromStore_queue)
      (simp add: NewRoomManager_def net.extend_def server.fields_def)
  ultimately show ?thesis
    by (intro server_wf_fine_inv) (simp_all add: all_inv_def cap_inv_def MatchQueueSize_def)
qed

text \<open>C2: From a state with \<open>fine_inv\<close>, which start-up establishes (\<open>started_fine_inv\<close>), and under every
  interleaving of any number of goroutines, whatever they do between taking and giving back
  their locks and whatever the engine's goroutines do at the same time, no reference of the server
  dangles or goes to the wrong object: every room in the table is allocated and filed under its own id,
  every player of every room and every entry of the session registry is an allocated session filed
  under its player's id, every queued player is an allocated session, every player of a room has a
  ready flag, and no session or room ever changes its id.\<close>

theorem no_dangling_reference:
  assumes "csteps (server_start X F) (s, []) (t, ts)" and "fine_inv s"
  shows "(\<forall>i r. map_of (Rooms t) i = Some r \<longrightarrow> r < rnext t \<and> rID (rheap t r) = i)
    \<and> (\<forall>r < rnext t. \<forall>p a. map_of (rSessions (rheap t r)) p = Some a \<longrightarrow>
          a < snext t \<and> pid t a = p \<and> map_of (rReadyPlayers (rheap t r)) p \<noteq> None)
    \<and> (\<forall>u a. map_of (AllSessions t) u = Some a \<longrightarrow> a < snext t \<and> pid t a = u)
    \<and> (\<forall>a \<in> set (MatchQueue t). a < snext t)
    \<and> (\<forall>a < snext s. pid t a = pid s a) \<and> (\<forall>r < rnext s. rID (rheap t r) = rID (rheap s r))"
proof -
  have I: "fine_inv t" and e: "evolves s t" using interleaved_inv [OF assms] by simp_all
  have rooms: "a < snext t \<and> pid t a = p \<and> map_of (rReadyPlayers (rheap t r)) p \<noteq> None"
    if "r < rnext t" "map_of (rSessions (rheap t r)) p = Some a" for r p a
    using fine_invD(5) [OF I that(1)] that(2) by (auto simp: table_ok_def)
  show ?thesis using rooms fine_invD(3,4,6,7,9) [OF I] e unfolding evolves_def by blast
qed

text \<open>C3: Under every interleaving, no room ever has a third player, no channel ever holds more than 256 messages
  and the match queue never more than 50 players: the test for a free place and the entry are one
  critical section of the room, and nobody can enter a room before its creator has.\<close>

theorem no_third_player:
  assumes "csteps (server_start X F) (s, []) (t, ts)" and "fine_inv s"
  shows "(\<forall>r < rnext t. length (rSessions (rheap t r)) \<le> 2) \<and> (\<forall>a. length (sSend (sheap t a)) \<le> 256)
    \<and> length (MatchQueue t) \<le> 50"
proof -
  have I: "fine_inv t" using interleaved_inv [OF assms] by simp
  then show ?thesis using fine_invD(5,8,10) [OF I]
    by (simp add: table_ok_def sendCap_def MaxPlayersPerRoom_def MatchQueueSize_def)
qed

text \<open>C5: Under every interleaving the engine's tables stay usable: an entry of the node table is an allocated
  node with that index, no node is filed twice, a node has a client exactly if it has the connection of
  that client, and a lookup in the hash ring fails only if no node is registered, and otherwise answers
  a node that is registered under its own index.\<close>

theorem engine_tables_usable:
  assumes "csteps (server_start X F) (s, []) (t, ts)" and "fine_inv s"
  shows "(\<forall>i a. getNode t i = Some a \<longrightarrow> a < nnext t \<and> PodIndex (nheap t a) = i \<and> nclient (nheap t a) = nconn (nheap t a)
        \<and> (\<forall>j. getNode t j = Some a \<longrightarrow> j = i))
    \<and> (\<forall>room. if Nodes (Mgr t) = [] then GetNodeByRoomID (Mgr t) room = Inl (EEngine ENoNodes)
        else \<exists>nd. GetNodeByRoomID (Mgr t) room = Inr (Some nd) \<and> map_of (Nodes (Mgr t)) (node_ID nd) = Some nd)"
proof -
  have e: "engine_ok t" using interleaved_inv [OF assms] fine_inv_parts(2) by blast
  then have node: "a < nnext t \<and> PodIndex (nheap t a) = i \<and> nclient (nheap t a) = nconn (nheap t a)" if "getNode t i = Some a" for i a
    using that by (simp add: engine_ok_def getNode_def)
  have w: "ring_wf (Mgr t)" using e by (simp add: engine_ok_def)
  have none: "GetNodeByRoomID (Mgr t) room = Inl (EEngine ENoNodes)" if "Nodes (Mgr t) = []" for room
    using that ring_wf_length [OF w] by (simp add: GetNodeByRoomID_def)
  have some: "\<exists>nd. GetNodeByRoomID (Mgr t) room = Inr (Some nd) \<and> map_of (Nodes (Mgr t)) (node_ID nd) = Some nd"
    if "Nodes (Mgr t) \<noteq> []" for room
    using GetNodeByRoomID_owner [OF w that, of room] ring_wf_ID [OF w] by metis
  show ?thesis using node none some by metis
qed

section \<open>Locks\<close>

text \<open>C4: Every lock guards its data. While a goroutine holds a lock, for reading or for writing, no step of
  another goroutine and nothing from outside changes what \<open>guarded_by\<close> lists for that lock: the tables of rooms
  and sessions (\<open>rm.mu\<close>), a room's players, flags, status and node (its \<open>mu\<close>), the node table and the
  replica counts (\<open>e.mu\<close>), a node's connection and status (\<open>n.mu\<close>), its reconnecting flag
  (\<open>n.reconnectMu\<close>) and the hash ring (\<open>rpc.Mgr\<close>).\<close>

theorem locks_guard_their_data:
  assumes "csteps (server_start X F) (s, []) (t, ts)" and "fine_inv s" and "j < length ts" "h \<in> set (fst (ts ! j))"
  shows "(\<forall>i t' ts'. moves i (t, ts) (t', ts') \<longrightarrow> i \<noteq> j \<longrightarrow> guarded_by (lk h) t t')
    \<and> (\<forall>t' p. server_start X F t t' p \<longrightarrow> guarded_by (lk h) t t')"
proof (intro conjI allI impI)
  note x = fine_inv_start [OF assms(2)]
  show "guarded_by (lk h) t t'" if m: "moves i (t, ts) (t', ts')" and n: "i \<noteq> j" for i t' ts'
    using srv.csteps_held [OF assms(1) _ x m assms(3) _ assms(4)] n by (auto simp: rules_def protects_def)
  show "guarded_by (lk h) t t'" if st: "server_start X F t t' p" for t' p
  proof -
    obtain y where "actual rules y = t" "Inv rules y" using srv.csteps_invariant [OF assms(1) _ x] by (auto simp: rules_def)
    then have "Keep rules (lk h) y (track rules t' y)" using srv.start_held st by metis
    then show ?thesis using \<open>actual rules y = t\<close> by (simp add: rules_def protects_def)
  qed
qed

section \<open>Progress\<close>

interpretation locks: ordered_locks lock_rank "server_start X F" for X F
proof unfold_locales
  show "disciplined lock_rank p []" if "server_start X F s s' p" for s s' and p :: "'a gprog"
    using that by cases (simp_all add: tidy_entryP)
qed

text \<open>C6: The locks alone never stop the server: whenever a goroutine is neither finished nor parked at a
  channel, some goroutine can move, also if the locks make new readers wait for a waiting writer,
  unless a goroutine is parked at a channel while it holds a lock. And a goroutine that ends, be it by a
  panic, holds no lock.\<close>

theorem locks_cannot_deadlock:
  assumes "csteps (server_start X F) (s, []) (t, ts)"
  shows "(\<forall>c \<in> set ts. ended (snd c) \<longrightarrow> fst c = [])
    \<and> ((\<exists>c \<in> set ts. \<not> ended (snd c) \<and> \<not> parked t (snd c)) \<longrightarrow> (\<forall>c \<in> set ts. fst c \<noteq> [] \<longrightarrow> \<not> parked t (snd c)) \<longrightarrow>
      (\<exists>i < length ts. fair_move i (t, ts)))"
proof (intro conjI impI)
  have o: "locks.orderly (t, ts)"
    using locks.csteps_orderly [OF assms] by (simp add: locks.orderly_def)
  show "\<forall>c \<in> set ts. ended (snd c) \<longrightarrow> fst c = []"
    using o by (auto simp: locks.orderly_def ended_def)
  assume ex: "\<exists>c \<in> set ts. \<not> ended (snd c) \<and> \<not> parked t (snd c)"
    and holders: "\<forall>c \<in> set ts. fst c \<noteq> [] \<longrightarrow> \<not> parked t (snd c)"
  from ex obtain i where i: "i < length ts" "\<not> ended (snd (ts ! i))" "\<not> parked t (snd (ts ! i))"
    by (auto simp: in_set_conv_nth)
  show "\<exists>i < length ts. fair_move i (t, ts)"
    by (rule locks.no_deadlock [OF o i]) (use holders in blast)
qed

end
