(* ===== verification/PanicSites.thy ===== *)
theory PanicSites
  imports Sound
begin

text \<open>
  Which goroutines can panic at all, whatever runs at the same time: a program in whose tree there is
  no \<open>Panic\<close> never gets to one.
\<close>

section \<open>Programs without a panic\<close>

primrec panic_free :: "('l, 's) prog \<Rightarrow> bool" where
  "panic_free Ret = True"
| "panic_free Panic = False"
| "panic_free Spin = True"
| "panic_free (Act g u k) = (\<forall>s. panic_free (k s))"
| "panic_free (Acquire h p) = panic_free p"
| "panic_free (Release h p) = panic_free p"

lemma panic_free_moves:
  "moves j c d \<Longrightarrow> i < length (snd c) \<Longrightarrow> panic_free (snd (snd c ! i)) \<Longrightarrow>
   i < length (snd d) \<and> panic_free (snd (snd d ! i))"
  by (induction rule: moves.induct) (auto simp: nth_list_update)

lemma panic_free_csteps:
  "csteps start c d \<Longrightarrow> i < length (snd c) \<Longrightarrow> panic_free (snd (snd c ! i)) \<Longrightarrow>
   i < length (snd d) \<and> panic_free (snd (snd d ! i))"
proof (induction rule: csteps.induct)
  case (run c d j e)
  then show ?case using panic_free_moves by blast
qed (auto simp: nth_append)

named_theorems calm "programs without a panic"

lemma calm_basic [calm]:
  "panic_free Ret" "panic_free Spin" "(\<And>s. panic_free (c s)) \<Longrightarrow> panic_free (look c)" "panic_free p \<Longrightarrow> panic_free (upd u p)"
  "(\<And>s. panic_free (c s)) \<Longrightarrow> panic_free (Act g u c)" "panic_free p \<Longrightarrow> panic_free (Acquire h p)" "panic_free p \<Longrightarrow> panic_free (Release h p)"
  by (simp_all add: look_def upd_def)

lemma calm_callP [calm]: "(\<And>res. panic_free (k res)) \<Longrightarrow> panic_free (callP (\<lambda>s. Some (f s)) k)"
  by (simp add: callP_def split: prod.split)

lemma calm_foldr: "(\<And>e q. panic_free q \<Longrightarrow> panic_free (f e q)) \<Longrightarrow> panic_free p \<Longrightarrow> panic_free (foldr f es p)"
  by (induction es) simp_all

section \<open>The engine\<close>

lemma calm_reads [calm]:
  "(\<And>r. panic_free (k r)) \<Longrightarrow> panic_free (readEngine f k)" "(\<And>r. panic_free (l r)) \<Longrightarrow> panic_free (readNode a g l)"
  "(\<And>r. panic_free (m r)) \<Longrightarrow> panic_free (writeNode a h m)"
  by (auto simp: readEngine_def readNode_def writeNode_def intro!: calm)

lemma calm_lookups [calm]:
  "(\<And>n. panic_free (k n)) \<Longrightarrow> panic_free (getNodeP i k)" "(\<And>n. panic_free (l n)) \<Longrightarrow> panic_free (snapshotPodIndicesP l)"
  "(\<And>n. panic_free (m n)) \<Longrightarrow> panic_free (GetClientP a m)" "(\<And>n. panic_free (d n)) \<Longrightarrow> panic_free (GetNodeByPodIndexP i d)"
  "(\<And>n. panic_free (st n)) \<Longrightarrow> panic_free (snapshotP a st)"
  by (auto simp: getNodeP_def snapshotPodIndicesP_def GetClientP_def GetNodeByPodIndexP_def snapshotP_def intro!: calm split: option.split)

lemma calm_statusesP [calm]: "(\<And>sts. panic_free (k sts)) \<Longrightarrow> panic_free (statusesP is acc k)"
  by (induction "is" arbitrary: acc) (auto intro!: calm split: option.split)

lemma calm_GetStatusP [calm]: "(\<And>st. panic_free (k st)) \<Longrightarrow> panic_free (GetStatusP k)"
  by (auto simp: GetStatusP_def Let_def intro!: calm)

lemma calm_connectP [calm]: "(\<And>err. panic_free (k err)) \<Longrightarrow> panic_free (connectAndRegisterPodP X i addr k)"
  by (auto simp: connectAndRegisterPodP_def ensureNodeP_def registerP_def resetReconnectFailuresP_def getReconnectFailuresP_def
      clearReconnectFailuresP_def intro!: calm split: sum.split option.split)

lemma calm_discoverNewPodsP [calm]: "panic_free k \<Longrightarrow> panic_free (discoverNewPodsP X k)"
  by (auto simp: discoverNewPodsP_def getMaxPodIndexP_def discoverPodP_def updateMaxPodIndexP_def Let_def
      intro!: calm calm_foldr split: option.split sum.split)

lemma calm_ShutdownP [calm]: "panic_free k \<Longrightarrow> panic_free (ShutdownP X k)"
  by (auto simp: ShutdownP_def closeNodeP_def disconnectP_def registerP_def intro!: calm calm_foldr split: option.split)

section \<open>Rooms and commands\<close>

lemma calm_sends [calm]:
  "panic_free k \<Longrightarrow> panic_free (sendP a cmd code m d k)" "panic_free k \<Longrightarrow> panic_free (broadcastP r cmd code m d k)"
  by (auto simp: sendP_def broadcastP_def intro!: calm calm_foldr)

lemma calm_CreateRoomP [calm]: "panic_free k \<Longrightarrow> panic_free (CreateRoomP X a k)"
  by (auto simp: CreateRoomP_def Let_def intro!: calm split: option.split)

lemma calm_JoinRoomP [calm]: "panic_free k \<Longrightarrow> panic_free (JoinRoomP i a k)"
  by (auto simp: JoinRoomP_def Let_def intro!: calm split: option.split)

lemma calm_listRoomsP [calm]: "(\<And>n. panic_free (k n)) \<Longrightarrow> panic_free (listRoomsP es acc k)"
  by (induction es arbitrary: acc) (auto simp: Let_def intro!: calm)

lemma calm_readNodesP [calm]: "(\<And>n. panic_free (k n)) \<Longrightarrow> panic_free (readNodesP es acc k)"
  by (induction es arbitrary: acc) (auto intro!: calm)

lemma calm_DestroyAllRoomsP [calm]: "panic_free k \<Longrightarrow> panic_free (DestroyAllRoomsP k)"
  by (auto simp: DestroyAllRoomsP_def sendDestroyRoomRequestP_def intro!: calm calm_foldr split: sum.split)

lemma calm_SyncP [calm]: "panic_free k \<Longrightarrow> panic_free (SyncRoomStateP a k)"
  by (auto simp: SyncRoomStateP_def GetSnapshotP_def Let_def intro!: calm split: option.split)

lemma calm_matchTurnP [calm]: "panic_free k \<Longrightarrow> panic_free (matchTurnP X k)"
  by (auto simp: matchTurnP_def receiveP_def intro!: calm)

lemma calm_handlers:
  assumes "map_of (InitGameRoutersP X F) cmd = Some handler"
    and "cmd \<notin> {''battle_action'', ''leave_room'', ''start_game'', ''select_pokemon''}"
  shows "panic_free (handler a req Ret)"
proof -
  have "handler \<in> {do_matchP, do_list_roomsP, do_join_roomP, do_create_roomP X, do_get_redisP X F, do_cluster_statusP F}"
    using assms by (auto simp: InitGameRoutersP_def split: if_splits)
  then show ?thesis
    by (auto simp: do_matchP_def do_list_roomsP_def GetRoomsP_def do_join_roomP_def do_create_roomP_def do_get_redisP_def
        do_cluster_statusP_def Let_def intro!: calm split: option.split sum.split)
qed

text \<open>The goroutines that neither call an engine node nor touch the connection of another one.\<close>

definition harmless_entry :: "'w ext \<Rightarrow> entry \<Rightarrow> bool" where
  "harmless_entry X e = (case e of
      EOpen uid c \<Rightarrow> False
    | EMessage a payload \<Rightarrow> (case x_parse X payload of
          None \<Rightarrow> True
        | Some j \<Rightarrow> req_Cmd (fst (dec_GameRequest j \<lparr>req_Cmd = [], req_Data = RawEmpty\<rparr>))
            \<notin> {''battle_action'', ''leave_room'', ''start_game'', ''select_pokemon''})
    | EExpire uid \<Rightarrow> False
    | ETask t \<Rightarrow> (case t of TDestroy na i \<Rightarrow> True | _ \<Rightarrow> False)
    | EHealth \<Rightarrow> False
    | EReconnect l \<Rightarrow> False
    | _ \<Rightarrow> True)"

lemma calm_DispatchP:
  "harmless_entry X (EMessage a payload) \<Longrightarrow> panic_free (DispatchP X (InitGameRoutersP X F) a payload Ret)"
  by (auto simp: DispatchP_def harmless_entry_def intro!: calm calm_handlers split: option.splits prod.splits bool.splits)


end
