(* ===== verification/RaceWitnesses.thy ===== *)
theory RaceWitnesses
  imports EngineRaces Concurrency PanicSites Examples
begin

text \<open>Instances of the properties of interleaved goroutines, on the example server.\<close>

definition raceParse :: "string \<Rightarrow> json option" where
  "raceParse p = (if p = ''leave'' then Some (JObj [(''cmd'', JStr ''leave_room''), (''data'', JNull)])
     else if p = ''join r1'' then Some (JObj [(''cmd'', JStr ''join_room''), (''data'', JObj [(''room_id'', JStr ''r1'')])])
     else if p = ''join r2'' then Some (JObj [(''cmd'', JStr ''join_room''), (''data'', JObj [(''room_id'', JStr ''r2'')])])
     else if p = ''create'' then Some (JObj [(''cmd'', JStr ''create_room''), (''data'', JNull)])
     else if p = ''select'' then Some (JObj [(''cmd'', JStr ''select_pokemon''), (''data'', JObj [(''pokemon'', JArr [])])])
     else None)"

definition race :: "demo ext" where
  "race = demo\<lparr>x_parse := raceParse\<rparr>"

lemma race_says:
  "says race ''leave'' ''leave_room'' JNull" "says race ''create'' ''create_room'' JNull"
  "says race ''join r1'' ''join_room'' (JObj [(''room_id'', JStr ''r1'')])"
  "says race ''join r2'' ''join_room'' (JObj [(''room_id'', JStr ''r2'')])"
  "says race ''select'' ''select_pokemon'' (JObj [(''pokemon'', JArr [])])"
  by (simp_all add: says_def race_def raceParse_def)

lemma room_lookup: "map_of (Rooms (srv_of st)) i = (if i = ''r1'' then Some 0 else if i = ''r2'' then Some 1 else None)"
  by auto

lemma srv_fine: "fine_inv (srv_of st)"
proof (rule server_wf_fine_inv [OF srv_server_wf])
  show "at_most_two (srv_of st)" by (simp add: at_most_two_def room1_def room2_def MaxPlayersPerRoom_def)
qed (simp add: MatchQueueSize_def, rule srv_engine_wf)

definition unreadyServer :: "demo server" where
  "unreadyServer = upd_room 0 (\<lambda>g. g\<lparr>rReadyPlayers := [(''alice'', False), (''bob'', False)]\<rparr>) (srv_of RoomWaiting)"

lemma unready_fine: "fine_inv unreadyServer"
proof -
  have r: "intact [Writing (RoomMu 0)] (srv_of RoomWaiting, {0, 1})"
    using srv_fine by (auto simp: intact_def rules_def occupied_def)
  have "grants [Writing (RoomMu 0)] (srv_of RoomWaiting, {0, 1}) unreadyServer"
    unfolding unreadyServer_def
    by (rule room_grants [OF r, of 0, unfolded fst_conv]) (auto simp: table_ok_def room1_def map_ok_def)
  then show ?thesis by (simp add: grants_def guar_def rules_def)
qed

lemma dave_leaves_carol_joins:
  "\<exists>t. csteps (server_start race plainFmt) (srv_of RoomWaiting, []) (t, [([], Ret), ([], Ret)]) \<and> map_of (Rooms t) ''r2'' = None"
proof -
  have "\<exists>t. csteps (server_start race plainFmt) (srv_of RoomWaiting, []) (t, [([], Ret), ([], Ret)])
      \<and> map_of (Rooms t) ''r2'' = None \<and> map_of (rSessions (rheap t 1)) (pid t 2) = Some 2 \<and> sRoomID (sheap t 2) = ''r2''
      \<and> \<lparr>Cmd = ''join_room_res'', Code = CodeSuccess, Msg = MRoom Joined, Data = JNull\<rparr> \<in> set (sSend (sheap t 2))"
  proof (rule schedule_run_ex [where es = "[EMessage 3 ''leave'', EMessage 2 ''join r2'']"])
    show "may_start e (srv_of RoomWaiting) \<and> taken e (srv_of RoomWaiting) = srv_of RoomWaiting" if "e \<in> set [EMessage 3 ''leave'', EMessage 2 ''join r2'']" for e
      using that by (auto simp: taken_def)
  qed (unfold enter.simps says_leave [OF race_says(1)] says_join [OF race_says(4)],
      rule join_meets_delete, auto simp: room_lookup fine_invD(1) [OF srv_fine] room2_def players sendCap_def map_ok_def)
  then show ?thesis by blast
qed


theorem no_dangling_reference_witness:
  "\<exists>t. csteps (server_start race plainFmt) (srv_of RoomWaiting, []) (t, [([], Ret), ([], Ret)])
    \<and> map_of (Rooms t) ''r2'' = None \<and> pid t 3 = ''dave''"
proof -
  obtain t where t: "csteps (server_start race plainFmt) (srv_of RoomWaiting, []) (t, [([], Ret), ([], Ret)])"
    "map_of (Rooms t) ''r2'' = None" using dave_leaves_carol_joins by blast
  have "\<forall>a < snext (srv_of RoomWaiting). pid t a = pid (srv_of RoomWaiting) a"
    using no_dangling_reference [OF t(1) srv_fine] by blast
  then have "pid t 3 = ''dave''" by simp
  then show ?thesis using t by blast
qed

theorem no_third_player_witness:
  "\<exists>t. csteps (server_start race plainFmt) (srv_of RoomWaiting, []) (t, [([], Ret), ([], Ret)])
    \<and> map_of (Rooms t) ''r2'' = None \<and> length (MatchQueue t) \<le> 50"
proof -
  obtain t where t: "csteps (server_start race plainFmt) (srv_of RoomWaiting, []) (t, [([], Ret), ([], Ret)])"
    "map_of (Rooms t) ''r2'' = None" using dave_leaves_carol_joins by blast
  then show ?thesis using no_third_player [OF t(1) srv_fine] by blast
qed

theorem engine_tables_usable_witness:
  "\<exists>t. csteps (server_start race plainFmt) (srv_of RoomWaiting, []) (t, [([], Ret), ([], Ret)])
    \<and> map_of (Rooms t) ''r2'' = None \<and> (\<forall>i a. getNode t i = Some a \<longrightarrow> PodIndex (nheap t a) = i)"
proof -
  obtain t where t: "csteps (server_start race plainFmt) (srv_of RoomWaiting, []) (t, [([], Ret), ([], Ret)])"
    "map_of (Rooms t) ''r2'' = None" using dave_leaves_carol_joins by blast
  then show ?thesis using engine_tables_usable [OF t(1) srv_fine] by blast
qed

theorem locks_guard_their_data_witness:
  "\<exists>ts. csteps (server_start race plainFmt) (srv_of RoomWaiting, []) (srv_of RoomWaiting, ts) \<and> fst (ts ! 0) = [Writing RM]
    \<and> (\<forall>t' ts'. moves 1 (srv_of RoomWaiting, ts) (t', ts') \<longrightarrow> Rooms t' = Rooms (srv_of RoomWaiting))"
proof -
  let ?s = "srv_of RoomWaiting" and ?es = "[EMessage 2 ''join r1'', EMessage 3 ''leave'']"
  obtain p q where c: "schedule [0] (?s, enter race plainFmt ?es) = Some (?s, [([Writing RM], p), ([], q)])"
    unfolding enter.simps says_join [OF race_says(3)] by (simp add: JoinRoomP_def avail_def)
  have run: "csteps (server_start race plainFmt) (?s, []) (?s, [([Writing RM], p), ([], q)])"
    by (rule schedule_run [OF _ c]) (auto simp: taken_def)
  have "guarded_by RM ?s t'" if "moves 1 (?s, [([Writing RM], p), ([], q)]) (t', ts')" for t' ts'
    using locks_guard_their_data [OF run srv_fine, of 0 "Writing RM"] that by auto
  then show ?thesis using run by auto
qed


theorem locks_cannot_deadlock_witness:
  "\<exists>i < 2. fair_move i (srv_of RoomWaiting, enter race plainFmt [EMessage 3 ''leave'', EMessage 2 ''join r2''])"
proof -
  let ?es = "[EMessage 3 ''leave'', EMessage 2 ''join r2'']"
  have run: "csteps (server_start race plainFmt) (srv_of RoomWaiting, []) (srv_of RoomWaiting, enter race plainFmt ?es)"
    by (rule enter_csteps) (auto simp: taken_def)
  have two: "enter race plainFmt ?es = [([], entryP race plainFmt (EMessage 3 ''leave'')), ([], JoinRoomP ''r2'' 2 Ret)]"
    unfolding enter.simps says_join [OF race_says(4)] ..
  have "\<not> ended (JoinRoomP ''r2'' 2 Ret)" "\<not> parked (srv_of RoomWaiting) (JoinRoomP ''r2'' 2 Ret)"
    by (simp_all add: JoinRoomP_def ended_def parked_def)
  then have "\<exists>i < length (enter race plainFmt ?es). fair_move i (srv_of RoomWaiting, enter race plainFmt ?es)"
    using locks_cannot_deadlock [OF run] unfolding two by auto
  then show ?thesis by (simp add: numeral_2_eq_2)
qed

theorem full_channel_stops_server_witness:
  "\<exists>t p q. csteps (server_start race plainFmt)
      (upd_sess 2 (\<lambda>n. n\<lparr>sSend := replicate 256 \<lparr>Cmd = [], Code = 0, Msg = MRoom Joined, Data = JNull\<rparr>\<rparr>) (srv_of RoomWaiting), [])
      (t, [([Writing RM], p), ([], q)]) \<and> parked t p \<and> (\<forall>j d. \<not> moves j (t, [([Writing RM], p), ([], q)]) d)"
proof -
  let ?s = "upd_sess 2 (\<lambda>n. n\<lparr>sSend := replicate 256 \<lparr>Cmd = [], Code = 0, Msg = MRoom Joined, Data = JNull\<rparr>\<rparr>) (srv_of RoomWaiting)"
  have "freshRoomID race (Rooms ?s) (world ?s) \<noteq> None"
    by (simp add: freshRoomID.simps race_def demo_def generateRoomID_def hexEncode_def hexDigit_def)
  then show ?thesis
    using full_channel_stops_server [OF _ _ _ race_says(2), of 2 ?s "''eve''" plainFmt 9] by (simp del: replicate.simps) blast
qed


theorem game_starts_unready_witness:
  "\<exists>t ts. csteps (server_start race plainFmt) (unreadyServer, []) (t, ts) \<and> rStatus (rheap t 0) = RoomPlaying
    \<and> map_of (rSessions (rheap t 0)) (pid t 2) = Some 2 \<and> map_of (rReadyPlayers (rheap t 0)) (pid t 2) = Some False
    \<and> sSelectedPokemon (sheap t 2) = None"
proof -
  have p: "pid unreadyServer a = pid (srv_of RoomWaiting) a" for a by (simp add: unreadyServer_def pid_def)
  have sc: "scene ''r1'' 0 [0, 1] [(0, False), (1, False)] 10 unreadyServer"
    unfolding scene_def p by (simp add: unreadyServer_def room1_def players sendCap_def)
  have "distinct [pid unreadyServer 0, pid unreadyServer 1, pid unreadyServer 2]" by (simp add: p)
  moreover have "sSelectedPokemon (sheap unreadyServer 2) = None" "length (sSend (sheap unreadyServer 2)) + 10 < sendCap" "2 < snext unreadyServer"
    by (simp_all add: unreadyServer_def players sendCap_def)
  ultimately show ?thesis
    using game_starts_unready [OF unready_fine sc, of 2 race "''select''" "''leave''" "''join r1''" plainFmt] race_says by simp
qed


section \<open>Two pods, a reconnect loop for each, one healthy\<close>

definition loopsServer :: "(int \<times> string \<times> int) list \<Rightarrow> demo server" where
  "loopsServer ls = (srv_of RoomPlaying)\<lparr>
     nheap := (\<lambda>_. pod)(0 := pod\<lparr>Healthy := False, reconnectFailures := 1\<rparr>,
       1 := pod\<lparr>PodIndex := 1, PodName := ''pokemon-server-1'', Addr := ''pod-1'', nconn := Some 11, nclient := Some 11, reconnectFailures := 1\<rparr>),
     nnext := 2, eng := demoEngine\<lparr>nodes := [(0, 0), (1, 1)]\<rparr>,
     Mgr := RegisterNode 1 ''pod-1'' 11 (RegisterNode 0 ''pod-0'' 10 Mgr_init), loops := ls\<rparr>"

lemma loops_engine_wf: "engine_wf (loopsServer ls)"
proof -
  have "ring_wf (RegisterNode 1 ''pod-1'' 11 (RegisterNode 0 ''pod-0'' 10 Mgr_init))" by (intro ring_wf_Register ring_wf_init)
  then show ?thesis
    by (simp add: engine_wf_def loopsServer_def getNode_def demoEngine_def node_ok_def pod_def isConnected_def ring_entry_def
        Nodes_Register Mgr_init_def Itoa_def digits.simps char_of_def bit_Suc_0_iff map_ok_def)
qed


definition flaky :: "demo ext" where
  "flaky = demo\<lparr>x_dial := (\<lambda>a w. (if fst w = 0 then Inr 12 else Inl (EEngine ENoNodes), w))\<rparr>"

theorem deletion_races_with_reconnection_witness:
  "\<exists>t. csteps (server_start flaky plainFmt) (loopsServer [(0, ''pod-0'', 1), (0, ''pod-0'', 2)], [])
      (t, [([], Ret), ([], Ret), ([], Ret), ([], Ret)]) \<and> getNode t 0 = None \<and> nconn (nheap t 0) = Some 12"
proof -
  let ?s = "loopsServer [(0, ''pod-0'', 1), (0, ''pod-0'', 2)]"
  have n: "getNode ?s 0 = Some 0" by (simp add: loopsServer_def getNode_def)
  have "fst (x_dial flaky ''pod-0'' (0, Map.empty)) = Inr 12" "fst (x_dial flaky ''pod-0'' (1, Map.empty)) = Inl (EEngine ENoNodes)"
    by (simp_all add: flaky_def)
  from deletion_races_with_reconnection [OF loops_engine_wf _ n _ _ _ this, of 1 2 plainFmt] show ?thesis
    by (simp add: loopsServer_def demoEngine_def pod_def) blast
qed

end
